(* ===== verification/Moat_Prelude.thy ===== *)
theory Moat_Prelude
  imports Main "HOL-Library.Word"
begin

text \<open>
  Shared ground of the development: bytes and big-endian integers as Python's
  \<^verbatim>\<open>struct\<close> module packs them, the exceptions the modelled code raises, the sum type that
  carries them, and the fact collections \<open>wire\<close> (message formats) and \<open>db\<close> (database rows) that
  the component theories fill and use.

  Conventions: a Python \<^verbatim>\<open>bytes\<close> object is a list of 8-bit words, a \<^verbatim>\<open>str\<close> is the list of
  the bytes of its UTF-8 encoding (type \<^typ>\<open>string\<close>), an \<^verbatim>\<open>int\<close> is an \<^typ>\<open>int\<close>, a
  \<^verbatim>\<open>uuid.UUID\<close> is a 128-bit word. A call that may raise returns \<open>Inl\<close> of the exception
  or \<open>Inr\<close> of the value.
\<close>

named_theorems wire "definitions and facts of the message formats"
named_theorems db "facts about the rows of the modelled databases"

section \<open>Types\<close>

type_synonym byte = "8 word"
type_synonym bytes = "byte list"
type_synonym uuid = "128 word"
type_synonym time = int
  \<comment> \<open>A point in time or a \<^verbatim>\<open>timedelta\<close>, in microseconds, the resolution of Python's
    \<^verbatim>\<open>datetime\<close>.\<close>

section \<open>Exceptions\<close>

text \<open>The Python exceptions of the tunnel's message and stream code.\<close>

datatype py_error =
    PartialInput nat
  | ValueError
  | AssertionError
  | StructError
  | EOFError
  | IncompleteReadError
  | NotImplementedError

abbreviation is_ok :: "'e + 'a \<Rightarrow> bool" where
  "is_ok r \<equiv> (case r of Inl _ \<Rightarrow> False | Inr _ \<Rightarrow> True)"

definition bind_r :: "'e + 'a \<Rightarrow> ('a \<Rightarrow> 'e + 'b) \<Rightarrow> 'e + 'b" where
  "bind_r r f = (case r of Inl e \<Rightarrow> Inl e | Inr x \<Rightarrow> f x)"

lemma bind_r_simps [simp]:
  "bind_r (Inl e) f = Inl e"
  "bind_r (Inr x) f = f x"
  by (simp_all add: bind_r_def)

lemma bind_r_Inr_iff: "bind_r r f = Inr y \<longleftrightarrow> (\<exists>x. r = Inr x \<and> f x = Inr y)"
  by (cases r) auto

lemma bind_r_Inl_iff:
  "bind_r r f = Inl e \<longleftrightarrow> r = Inl e \<or> (\<exists>x. r = Inr x \<and> f x = Inl e)"
  by (cases r) auto

lemma if_Inl_eq_Inr:
  "(if c then Inl e else r) = Inr y \<longleftrightarrow> \<not> c \<and> r = Inr y"
  "(if c then r else Inl e) = Inr y \<longleftrightarrow> c \<and> r = Inr y"
  by simp_all

lemmas result_simps = bind_r_Inr_iff if_Inl_eq_Inr

lemma bind_r_cong [fundef_cong]:
  "r = r' \<Longrightarrow> (\<And>x. r' = Inr x \<Longrightarrow> f x = g x) \<Longrightarrow> bind_r r f = bind_r r' g"
  by (cases r') auto

section \<open>Effects\<close>

text \<open>
  A computation on a state that may raise: the state after it holds the effects of what ran
  before the exception.
\<close>

type_synonym ('e, 's, 'a) eff = "'s \<Rightarrow> ('e + 'a) \<times> 's"

definition ret :: "'a \<Rightarrow> ('e, 's, 'a) eff" where
  "ret x s = (Inr x, s)"

definition throw :: "'e \<Rightarrow> ('e, 's, 'a) eff" where
  "throw e s = (Inl e, s)"

definition bnd :: "('e, 's, 'a) eff \<Rightarrow> ('a \<Rightarrow> ('e, 's, 'b) eff) \<Rightarrow> ('e, 's, 'b) eff" where
  "bnd m f s = (case m s of (Inl e, s') \<Rightarrow> (Inl e, s') | (Inr x, s') \<Rightarrow> f x s')"

lemma act_simps [simp]:
  "ret x s = (Inr x, s)"
  "throw e s = (Inl e, s)"
  by (simp_all add: ret_def throw_def)

lemma bnd_cases:
  "m s = (Inr x, s') \<Longrightarrow> bnd m f s = f x s'"
  "m s = (Inl e, s') \<Longrightarrow> bnd m f s = (Inl e, s')"
  by (simp_all add: bnd_def)

lemma bnd_Inr:
  "bnd m f s = (Inr y, t) \<longleftrightarrow> (\<exists>x s'. m s = (Inr x, s') \<and> f x s' = (Inr y, t))"
  by (auto simp: bnd_def split: prod.splits sum.splits)

lemma bnd_assoc: "bnd (bnd m f) g = bnd m (\<lambda>x. bnd (f x) g)"
  by (rule ext) (simp add: bnd_def split: prod.split sum.split)

lemma bnd_ret_simps [simp]:
  "bnd (ret x) f c = f x c"
  "bnd (throw e) f c = (Inl e, c)"
  by (simp_all add: bnd_def)

section \<open>Big-endian integers\<close>

text \<open>
  \<open>be_bytes k n\<close> are the \<open>k\<close> bytes of \<open>n\<close>, most significant first; \<open>be_nat\<close> reads them back.
  The \<^verbatim>\<open>struct\<close> formats \<^verbatim>\<open>!B\<close>, \<^verbatim>\<open>!H\<close>, \<^verbatim>\<open>!I\<close> and \<^verbatim>\<open>!Q\<close> are \<open>k = 1, 2, 4, 8\<close>; packing
  a number outside the range raises \<^verbatim>\<open>struct.error\<close>.
\<close>

primrec be_bytes :: "nat \<Rightarrow> nat \<Rightarrow> bytes" where
  "be_bytes 0 n = []"
| "be_bytes (Suc k) n = be_bytes k (n div 256) @ [word_of_nat (n mod 256)]"

definition be_nat :: "bytes \<Rightarrow> nat" where
  "be_nat bs = foldl (\<lambda>a b. 256 * a + unat b) 0 bs"

definition struct_pack :: "nat \<Rightarrow> int \<Rightarrow> py_error + bytes" where
  "struct_pack k n =
     (if 0 \<le> n \<and> n < 256 ^ k then Inr (be_bytes k (nat n)) else Inl StructError)"

lemma unat_byte_lt [simp]: "unat (b :: byte) < 256"
  using unsigned_less [of b, where 'a = nat] by simp

lemma length_be_bytes [simp]: "length (be_bytes k n) = k"
  by (induction k arbitrary: n) simp_all

lemma be_nat_Nil [simp]: "be_nat [] = 0"
  by (simp add: be_nat_def)

lemma be_nat_snoc [simp]: "be_nat (bs @ [b]) = 256 * be_nat bs + unat b"
  by (simp add: be_nat_def)

lemma be_nat_be_bytes: "be_nat (be_bytes k n) = n mod 256 ^ k"
proof (induction k arbitrary: n)
  case 0
  then show ?case by simp
next
  case (Suc k)
  have "be_nat (be_bytes (Suc k) n) = 256 * ((n div 256) mod 256 ^ k) + n mod 256"
    by (simp add: Suc.IH unat_of_nat)
  also have "\<dots> = n mod (256 * 256 ^ k)"
    by (simp add: mod_mult2_eq)
  finally show ?case by simp
qed

lemma be_nat_be_bytes_id [simp]: "n < 256 ^ k \<Longrightarrow> be_nat (be_bytes k n) = n"
  by (simp add: be_nat_be_bytes)

lemma be_bytes_be_nat [simp]: "be_bytes (length bs) (be_nat bs) = bs"
proof (induction bs rule: rev_induct)
  case Nil
  then show ?case by simp
next
  case (snoc b bs)
  then show ?case by simp
qed

lemma be_nat_lt: "be_nat bs < 256 ^ length bs"
proof -
  have "be_nat bs = be_nat (be_bytes (length bs) (be_nat bs))" by simp
  also have "\<dots> = be_nat bs mod 256 ^ length bs" by (rule be_nat_be_bytes)
  finally show ?thesis by (metis mod_less_divisor zero_less_numeral zero_less_power)
qed

lemma be_bytes_inject:
  "m < 256 ^ k \<Longrightarrow> n < 256 ^ k \<Longrightarrow> be_bytes k m = be_bytes k n \<longleftrightarrow> m = n"
  by (metis be_nat_be_bytes_id)

section \<open>Lists\<close>

text \<open>\<^verbatim>\<open>bytes.rstrip(b"\x00")\<close>: drop the trailing zero bytes.\<close>

definition rstrip0 :: "bytes \<Rightarrow> bytes" where
  "rstrip0 bs = rev (dropWhile (\<lambda>b. b = 0) (rev bs))"

lemma rstrip0_pad:
  assumes "\<forall>b \<in> set bs. b \<noteq> 0"
  shows "rstrip0 (bs @ replicate n 0) = bs"
proof -
  have "dropWhile (\<lambda>b. b = 0) (replicate n 0 @ rev bs) = dropWhile (\<lambda>b. b = 0) (rev bs)"
    by (induction n) simp_all
  moreover have "dropWhile (\<lambda>b. b = 0) (rev bs) = rev bs"
    using assms by (cases "rev bs") (auto simp: dropWhile_eq_self_iff)
  ultimately show ?thesis by (simp add: rstrip0_def)
qed

lemma rstrip0_decompose: "\<exists>n. bs = rstrip0 bs @ replicate n 0"
proof -
  let ?tw = "takeWhile (\<lambda>b. b = 0) (rev bs)"
  have "?tw = replicate (length ?tw) 0"
    by (rule replicate_eqI) (auto dest: set_takeWhileD)
  then have "rev ?tw = replicate (length ?tw) 0"
    by (metis rev_replicate)
  moreover have "bs = rstrip0 bs @ rev ?tw"
    unfolding rstrip0_def by (metis rev_append rev_rev_ident takeWhile_dropWhile_id)
  ultimately show ?thesis by metis
qed

lemma find_SomeD: "find P xs = Some x \<Longrightarrow> x \<in> set xs \<and> P x"
  by (auto simp: find_Some_iff)

lemma find_map_same: "(\<And>x. P (g x) = P x) \<Longrightarrow> find P (map g xs) = map_option g (find P xs)"
  by (induction xs) auto

text \<open>Newest first, an element with \<open>n\<close> newer ones lies beyond the \<open>n\<close>-th.\<close>

lemma in_drop_sorted:
  assumes "x \<in> set ys" "n \<le> length (filter (\<lambda>y. f x < f y) ys)"
  shows "x \<in> set (drop n (rev (sort_key f ys)))"
proof -
  let ?zs = "rev (sort_key f ys)"
  from assms(1) have "x \<in> set ?zs" by simp
  then obtain i where i: "i < length ?zs" "?zs ! i = x" by (metis in_set_conv_nth)
  have desc: "sorted_wrt (\<lambda>a b. f b \<le> f a) ?zs"
    using sorted_sort_key [of f ys] by (simp add: sorted_wrt_rev sorted_map)
  have "j < i" if "j < length ?zs" "f x < f (?zs ! j)" for j
  proof (rule ccontr)
    assume "\<not> j < i"
    with desc that(1) i(1) have "f (?zs ! j) \<le> f (?zs ! i)"
      by (cases "i = j") (auto simp: sorted_wrt_iff_nth_less simp del: length_rev length_sort)
    with i(2) that(2) show False by simp
  qed
  then have "{j. j < length ?zs \<and> f x < f (?zs ! j)} \<subseteq> {..<i}" by blast
  then have "length (filter (\<lambda>y. f x < f y) ?zs) \<le> i"
    unfolding length_filter_conv_card by (metis card_lessThan card_mono finite_lessThan)
  moreover have "length (filter (\<lambda>y. f x < f y) ?zs) = length (filter (\<lambda>y. f x < f y) ys)"
    by (simp add: rev_filter [symmetric] filter_sort)
  ultimately have "n \<le> i" using assms(2) by linarith
  with i have "drop n ?zs ! (i - n) = x" "i - n < length (drop n ?zs)" by auto
  then show ?thesis by (metis nth_mem)
qed

lemma filter_unique:
  assumes "distinct xs" "x \<in> set xs" "\<And>y. y \<in> set xs \<Longrightarrow> P y \<longleftrightarrow> y = x"
  shows "filter P xs = [x]"
  using assms
proof (induction xs)
  case (Cons y ys)
  show ?case
  proof (cases "y = x")
    case True
    with Cons.prems have "filter P ys = []" by (auto simp: filter_empty_conv)
    with True Cons.prems show ?thesis by auto
  next
    case False
    with Cons show ?thesis by auto
  qed
qed simp

lemma take_append_le: "n \<le> length xs \<Longrightarrow> take n (xs @ ys) = take n xs"
  by simp

text \<open>\<^verbatim>\<open>str.encode\<close> and \<^verbatim>\<open>bytes.decode\<close>, on the bytes of the UTF-8 encoding.\<close>

definition str_encode :: "string \<Rightarrow> bytes" where
  "str_encode s = map (\<lambda>c. word_of_nat (of_char c)) s"

definition bytes_decode :: "bytes \<Rightarrow> string" where
  "bytes_decode bs = map (\<lambda>b. char_of (unat b)) bs"

lemma length_str_encode [simp]: "length (str_encode s) = length s"
  by (simp add: str_encode_def)

lemma length_bytes_decode [simp]: "length (bytes_decode bs) = length bs"
  by (simp add: bytes_decode_def)

lemma bytes_decode_str_encode [simp]: "bytes_decode (str_encode s) = s"
proof -
  have "char_of (unat (word_of_nat (of_char c) :: byte)) = c" for c
    by (simp add: unat_of_nat)
  then show ?thesis by (simp add: bytes_decode_def str_encode_def comp_def)
qed

lemma str_encode_bytes_decode [simp]: "str_encode (bytes_decode bs) = bs"
proof -
  have "word_of_nat (of_char (char_of (unat b))) = b" for b :: byte
    using unat_byte_lt [of b] by simp
  then show ?thesis by (simp add: bytes_decode_def str_encode_def comp_def)
qed

lemma str_encode_inject [simp]: "str_encode s = str_encode t \<longleftrightarrow> s = t"
  by (metis bytes_decode_str_encode)

section \<open>Dictionaries\<close>

text \<open>
  \<^verbatim>\<open>d[k] = v\<close> on a \<^verbatim>\<open>dict\<close>, an association list in insertion order: a key that is there keeps
  its place and takes the new value. \<open>dict_update\<close> is \<^verbatim>\<open>d.update(e)\<close>.
\<close>

fun dict_set :: "'k \<Rightarrow> 'v \<Rightarrow> ('k \<times> 'v) list \<Rightarrow> ('k \<times> 'v) list" where
  "dict_set k v [] = [(k, v)]"
| "dict_set k v ((j, w) # d) = (if j = k then (k, v) # d else (j, w) # dict_set k v d)"

definition dict_update :: "('k \<times> 'v) list \<Rightarrow> ('k \<times> 'v) list \<Rightarrow> ('k \<times> 'v) list" where
  "dict_update d e = fold (\<lambda>(k, v). dict_set k v) e d"

lemma map_fst_dict_set:
  "map fst (dict_set k v d) = (if k \<in> fst ` set d then map fst d else map fst d @ [k])"
  by (induction k v d rule: dict_set.induct) auto

lemma distinct_dict_set: "distinct (map fst d) \<Longrightarrow> distinct (map fst (dict_set k v d))"
  by (simp add: map_fst_dict_set)

lemma set_dict_set:
  "distinct (map fst d) \<Longrightarrow> set (dict_set k v d) = insert (k, v) {x \<in> set d. fst x \<noteq> k}"
  by (induction k v d rule: dict_set.induct) force+

lemma map_of_dict_set [simp]: "map_of (dict_set k v d) = (map_of d)(k \<mapsto> v)"
  by (induction k v d rule: dict_set.induct) auto

lemma map_of_dict_update: "distinct (map fst e) \<Longrightarrow> map_of (dict_update d e) = map_of d ++ map_of e"
proof (induction e arbitrary: d)
  case (Cons x e)
  obtain k v where x: "x = (k, v)" by fastforce
  have "map_of (dict_update d (x # e)) = map_of (dict_update (dict_set k v d) e)"
    by (simp add: dict_update_def x)
  also have "\<dots> = (map_of d)(k \<mapsto> v) ++ map_of e"
    using Cons.IH [of "dict_set k v d"] Cons.prems by (simp only: map_of_dict_set distinct.simps list.map)
  also have "\<dots> = map_of d ++ map_of (x # e)"
  proof
    fix j
    have "map_of e k = None" using Cons.prems by (simp add: x map_of_eq_None_iff)
    then show "((map_of d)(k \<mapsto> v) ++ map_of e) j = (map_of d ++ map_of (x # e)) j"
      by (cases "map_of e j") (auto simp: x map_add_def)
  qed
  finally show ?case .
qed (simp add: dict_update_def)

end
