(* ===== verification/Wire_Types.thy ===== *)
theory Wire_Types
  imports Moat_Prelude
begin

text \<open>
  The message types of the SIM tunnel (\<^verbatim>\<open>moatt_types/connect.py\<close>): the enumerations, the
  session token, the SIM identifiers and the five messages, each with its \<^verbatim>\<open>encode\<close> and its
  \<^verbatim>\<open>decode\<close>. A decoder gets the bytes read so far; it asks for more by raising
  \<^verbatim>\<open>PartialInput\<close> with the number of missing bytes. The locale \<open>wire_format\<close> is the contract
  between a message type and the loops that read it from a stream: a complete encoding decodes
  to the message, and every proper prefix asks for at least one byte and never for more than the
  message still has.
\<close>

section \<open>Enumerations\<close>

datatype identifier_type = Ident_Id | Ident_Iccid | Ident_Imsi | Ident_Index

fun identifier_type_value :: "identifier_type \<Rightarrow> nat" where
  "identifier_type_value Ident_Id = 0"
| "identifier_type_value Ident_Iccid = 1"
| "identifier_type_value Ident_Imsi = 2"
| "identifier_type_value Ident_Index = 3"

definition identifier_type_of :: "nat \<Rightarrow> py_error + identifier_type" where
  "identifier_type_of n =
     (if n = 0 then Inr Ident_Id else if n = 1 then Inr Ident_Iccid
      else if n = 2 then Inr Ident_Imsi else if n = 3 then Inr Ident_Index
      else Inl ValueError)"

datatype auth_type = Auth_Provider | Auth_Probe

fun auth_type_value :: "auth_type \<Rightarrow> nat" where
  "auth_type_value Auth_Provider = 1"
| "auth_type_value Auth_Probe = 2"

definition auth_type_of :: "nat \<Rightarrow> py_error + auth_type" where
  "auth_type_of n =
     (if n = 1 then Inr Auth_Provider else if n = 2 then Inr Auth_Probe else Inl ValueError)"

datatype auth_status = Auth_Success | Auth_Unauthorized | Auth_NotRegistered

fun auth_status_value :: "auth_status \<Rightarrow> nat" where
  "auth_status_value Auth_Success = 0"
| "auth_status_value Auth_Unauthorized = 1"
| "auth_status_value Auth_NotRegistered = 3"

definition auth_status_of :: "nat \<Rightarrow> py_error + auth_status" where
  "auth_status_of n =
     (if n = 0 then Inr Auth_Success else if n = 1 then Inr Auth_Unauthorized
      else if n = 3 then Inr Auth_NotRegistered else Inl ValueError)"

datatype connect_status =
  Con_Success | Con_NotFound | Con_Forbidden | Con_NotAvailable | Con_ProviderTimedOut

fun connect_status_value :: "connect_status \<Rightarrow> nat" where
  "connect_status_value Con_Success = 0"
| "connect_status_value Con_NotFound = 1"
| "connect_status_value Con_Forbidden = 2"
| "connect_status_value Con_NotAvailable = 3"
| "connect_status_value Con_ProviderTimedOut = 4"

definition connect_status_of :: "nat \<Rightarrow> py_error + connect_status" where
  "connect_status_of n =
     (if n = 0 then Inr Con_Success else if n = 1 then Inr Con_NotFound
      else if n = 2 then Inr Con_Forbidden else if n = 3 then Inr Con_NotAvailable
      else if n = 4 then Inr Con_ProviderTimedOut else Inl ValueError)"

datatype apdu_op = Op_Apdu | Op_Reset

fun apdu_op_value :: "apdu_op \<Rightarrow> nat" where
  "apdu_op_value Op_Apdu = 0"
| "apdu_op_value Op_Reset = 1"

definition apdu_op_of :: "nat \<Rightarrow> py_error + apdu_op" where
  "apdu_op_of n =
     (if n = 0 then Inr Op_Apdu else if n = 1 then Inr Op_Reset else Inl ValueError)"

text \<open>
  \<^verbatim>\<open>ConnectionRequestFlags\<close> is an \<^verbatim>\<open>enum.Flag\<close> with the members \<open>DEFAULT = 0\<close> and
  \<open>NO_WAIT = 1\<close>; the default boundary \<^verbatim>\<open>STRICT\<close> makes every other value a \<^verbatim>\<open>ValueError\<close>.
\<close>

datatype request_flags = DEFAULT | NO_WAIT

fun request_flags_value :: "request_flags \<Rightarrow> nat" where
  "request_flags_value DEFAULT = 0"
| "request_flags_value NO_WAIT = 1"

definition request_flags_of :: "nat \<Rightarrow> py_error + request_flags" where
  "request_flags_of n =
     (if n = 0 then Inr DEFAULT else if n = 1 then Inr NO_WAIT else Inl ValueError)"

lemma enum_of_value [simp]:
  "identifier_type_of (identifier_type_value i) = Inr i"
  "auth_type_of (auth_type_value t) = Inr t"
  "auth_status_of (auth_status_value s) = Inr s"
  "connect_status_of (connect_status_value c) = Inr c"
  "apdu_op_of (apdu_op_value a) = Inr a"
  "request_flags_of (request_flags_value f) = Inr f"
  subgoal by (cases i) (simp_all add: identifier_type_of_def)
  subgoal by (cases t) (simp_all add: auth_type_of_def)
  subgoal by (cases s) (simp_all add: auth_status_of_def)
  subgoal by (cases c) (simp_all add: connect_status_of_def)
  subgoal by (cases a) (simp_all add: apdu_op_of_def)
  subgoal by (cases f) (simp_all add: request_flags_of_def)
  done

lemma enum_value_lt [simp]:
  "identifier_type_value i < 256" "auth_type_value t < 256" "auth_status_value s < 256"
  "connect_status_value c < 256" "apdu_op_value a < 256" "request_flags_value f < 256"
  subgoal by (cases i) simp_all
  subgoal by (cases t) simp_all
  subgoal by (cases s) simp_all
  subgoal by (cases c) simp_all
  subgoal by (cases a) simp_all
  subgoal by (cases f) simp_all
  done

section \<open>Tokens\<close>

datatype token = Token (as_bytes: bytes)

definition Token_init :: "bytes \<Rightarrow> py_error + token" where
  "Token_init b = (if length b < 2 ^ 16 then Inr (Token b) else Inl AssertionError)"

definition wf_token :: "token \<Rightarrow> bool" where
  "wf_token t \<longleftrightarrow> length (as_bytes t) < 2 ^ 16"

lemma Token_init_wf: "Token_init b = Inr t \<longleftrightarrow> wf_token t \<and> as_bytes t = b"
  by (cases t) (auto simp: Token_init_def wf_token_def)

section \<open>APDU packets\<close>

datatype apdu_packet = ApduPacket (apdu_op: apdu_op) (apdu_payload: bytes)

definition ApduPacket_init :: "apdu_op \<Rightarrow> bytes \<Rightarrow> py_error + apdu_packet" where
  "ApduPacket_init op payload =
     (if length payload < 32 ^ 2 then Inr (ApduPacket op payload) else Inl AssertionError)"

definition wf_apdu :: "apdu_packet \<Rightarrow> bool" where
  "wf_apdu p \<longleftrightarrow> length (apdu_payload p) < 32 ^ 2"

definition apdu_decode :: "bytes \<Rightarrow> py_error + apdu_packet" where
  "apdu_decode msg =
     (if length msg < 6 then Inl (PartialInput (6 - length msg))
      else if unat (msg ! 0) \<noteq> 1 then Inl ValueError
      else bind_r (apdu_op_of (unat (msg ! 1))) (\<lambda>op.
        let plen = be_nat (take 4 (drop 2 msg)) in
        if length msg < 6 + plen then Inl (PartialInput (6 + plen - length msg))
        else if length msg > 6 + plen then Inl ValueError
        else ApduPacket_init op (drop 6 msg)))"

definition apdu_encode :: "apdu_packet \<Rightarrow> py_error + bytes" where
  "apdu_encode p =
     bind_r (struct_pack 1 1) (\<lambda>v.
     bind_r (struct_pack 1 (int (apdu_op_value (apdu_op p)))) (\<lambda>op.
     bind_r (struct_pack 4 (int (length (apdu_payload p)))) (\<lambda>len.
       Inr (v @ op @ len @ apdu_payload p))))"

section \<open>SIM identifiers\<close>

text \<open>\<^verbatim>\<open>_only_digits\<close>: every byte is an ASCII digit.\<close>

definition only_digits :: "bytes \<Rightarrow> bool" where
  "only_digits msg = list_all (\<lambda>x. 48 \<le> unat x \<and> unat x \<le> 57) msg"

text \<open>
  \<^verbatim>\<open>len(imsi)\<close> counts characters and \<^verbatim>\<open>imsi.encode()\<close> bytes; the two agree once the
  digits test has passed, and the constructor fails in the same way where it has not.
\<close>

datatype imsi = Imsi (imsi_str: string)
datatype iccid = Iccid (iccid_str: string)

definition IMSI_LEN :: nat where "IMSI_LEN = 15"
definition ICCID_LEN :: nat where "ICCID_LEN = 20"

definition Imsi_init :: "string \<Rightarrow> py_error + imsi" where
  "Imsi_init s =
     (if \<not> only_digits (str_encode s) \<or> length s < 5 \<or> length s > 15 then Inl ValueError
      else Inr (Imsi s))"

definition Iccid_init :: "string \<Rightarrow> py_error + iccid" where
  "Iccid_init s =
     (if \<not> only_digits (str_encode s) \<or> length s < 5 \<or> length s > 20 then Inl ValueError
      else Inr (Iccid s))"

definition imsi_decode :: "bytes \<Rightarrow> py_error + imsi" where
  "imsi_decode msg =
     (if length msg < IMSI_LEN then Inl (PartialInput (IMSI_LEN - length msg))
      else if length msg > IMSI_LEN then Inl ValueError
      else let msg = rstrip0 msg in
        if \<not> only_digits msg \<or> length msg < 5 \<or> length msg > 15 then Inl ValueError
        else Imsi_init (bytes_decode msg))"

definition imsi_encode :: "imsi \<Rightarrow> py_error + bytes" where
  "imsi_encode i =
     (let imsi = str_encode (imsi_str i) in Inr (imsi @ replicate (IMSI_LEN - length imsi) 0))"

definition iccid_decode :: "bytes \<Rightarrow> py_error + iccid" where
  "iccid_decode msg =
     (if length msg < ICCID_LEN then Inl (PartialInput (ICCID_LEN - length msg))
      else if length msg > ICCID_LEN then Inl ValueError
      else let msg = rstrip0 msg in
        if \<not> only_digits msg \<or> length msg < 5 \<or> length msg > 20 then Inl ValueError
        else Iccid_init (bytes_decode msg))"

definition iccid_encode :: "iccid \<Rightarrow> py_error + bytes" where
  "iccid_encode i =
     (let iccid = str_encode (iccid_str i) in Inr (iccid @ replicate (ICCID_LEN - length iccid) 0))"

text \<open>
  \<^verbatim>\<open>SimId\<close> and \<^verbatim>\<open>SimIndex\<close> carry a provider and a number. The constructor admits numbers
  up to \<open>2 ^ 192\<close>, and negative ones; \<^verbatim>\<open>encode\<close> packs the number as an unsigned 64-bit
  integer and raises \<^verbatim>\<open>struct.error\<close> for the rest.
\<close>

datatype sim_id = SimId (sim_id_provider: uuid) (sim_id_id: int)
datatype sim_index = SimIndex (sim_index_provider: uuid) (sim_index_index: int)

definition SIM_ID_LEN :: nat where "SIM_ID_LEN = 24"
definition SIM_INDEX_LEN :: nat where "SIM_INDEX_LEN = 24"

definition SimId_init :: "uuid \<Rightarrow> int \<Rightarrow> py_error + sim_id" where
  "SimId_init provider i =
     (if i < 2 ^ (8 * SIM_ID_LEN) then Inr (SimId provider i) else Inl AssertionError)"

definition SimIndex_init :: "uuid \<Rightarrow> int \<Rightarrow> py_error + sim_index" where
  "SimIndex_init provider i =
     (if i < 2 ^ (8 * SIM_INDEX_LEN) then Inr (SimIndex provider i) else Inl AssertionError)"

text \<open>\<^verbatim>\<open>UUID(bytes=b)\<close> for 16 bytes \<open>b\<close>, and the attribute \<^verbatim>\<open>UUID.bytes\<close>.\<close>

definition uuid_of_bytes :: "bytes \<Rightarrow> uuid" where
  "uuid_of_bytes b = word_of_nat (be_nat b)"

definition uuid_bytes :: "uuid \<Rightarrow> bytes" where
  "uuid_bytes u = be_bytes 16 (unat u)"

definition sim_id_decode :: "bytes \<Rightarrow> py_error + sim_id" where
  "sim_id_decode msg =
     (if length msg < SIM_ID_LEN then Inl (PartialInput (SIM_ID_LEN - length msg))
      else if length msg > SIM_ID_LEN then Inl ValueError
      else SimId_init (uuid_of_bytes (take 16 msg)) (int (be_nat (drop 16 msg))))"

definition sim_id_encode :: "sim_id \<Rightarrow> py_error + bytes" where
  "sim_id_encode s =
     bind_r (struct_pack 8 (sim_id_id s)) (\<lambda>b. Inr (uuid_bytes (sim_id_provider s) @ b))"

definition sim_index_decode :: "bytes \<Rightarrow> py_error + sim_index" where
  "sim_index_decode msg =
     (if length msg < SIM_INDEX_LEN then Inl (PartialInput (SIM_INDEX_LEN - length msg))
      else if length msg > SIM_INDEX_LEN then Inl ValueError
      else SimIndex_init (uuid_of_bytes (take 16 msg)) (int (be_nat (drop 16 msg))))"

definition sim_index_encode :: "sim_index \<Rightarrow> py_error + bytes" where
  "sim_index_encode s =
     bind_r (struct_pack 8 (sim_index_index s)) (\<lambda>b. Inr (uuid_bytes (sim_index_provider s) @ b))"

text \<open>\<^verbatim>\<open>SimIdentifierType = Union[SimId, SimIndex, Iccid, Imsi]\<close>.\<close>

datatype sim_identifier =
  By_SimId sim_id | By_SimIndex sim_index | By_Iccid iccid | By_Imsi imsi

fun get_identifier_type :: "sim_identifier \<Rightarrow> identifier_type" where
  "get_identifier_type (By_SimId _) = Ident_Id"
| "get_identifier_type (By_SimIndex _) = Ident_Index"
| "get_identifier_type (By_Iccid _) = Ident_Iccid"
| "get_identifier_type (By_Imsi _) = Ident_Imsi"

fun identifier_encode :: "sim_identifier \<Rightarrow> py_error + bytes" where
  "identifier_encode (By_SimId s) = sim_id_encode s"
| "identifier_encode (By_SimIndex s) = sim_index_encode s"
| "identifier_encode (By_Iccid i) = iccid_encode i"
| "identifier_encode (By_Imsi i) = imsi_encode i"

section \<open>Authorisation messages\<close>

record auth_request =
  ar_type :: auth_type
  ar_token :: token

definition auth_request_decode :: "bytes \<Rightarrow> py_error + auth_request" where
  "auth_request_decode msg =
     (if length msg < 4 then Inl (PartialInput (4 - length msg))
      else
        let version = unat (msg ! 0); auth_type = unat (msg ! 1);
            plen = be_nat (take 2 (drop 2 msg)) in
        if version \<noteq> 1 then Inl ValueError
        else if length msg < plen + 4 then Inl (PartialInput (plen + 4 - length msg))
        else if length msg \<noteq> plen + 4 then Inl ValueError
        else bind_r (auth_type_of auth_type) (\<lambda>t.
             bind_r (Token_init (drop 4 msg)) (\<lambda>tok.
               Inr \<lparr>ar_type = t, ar_token = tok\<rparr>)))"

definition auth_request_encode :: "auth_request \<Rightarrow> py_error + bytes" where
  "auth_request_encode r =
     (let token_bytes = as_bytes (ar_token r) in
      bind_r (struct_pack 1 1) (\<lambda>v.
      bind_r (struct_pack 1 (int (auth_type_value (ar_type r)))) (\<lambda>t.
      bind_r (struct_pack 2 (int (length token_bytes))) (\<lambda>len.
        Inr (v @ t @ len @ token_bytes)))))"

datatype auth_response = AuthResponse (ar_status: auth_status)

definition auth_response_decode :: "bytes \<Rightarrow> py_error + auth_response" where
  "auth_response_decode msg =
     (if length msg < 2 then Inl (PartialInput (2 - length msg))
      else if length msg > 2 then Inl ValueError
      else if unat (msg ! 0) \<noteq> 1 then Inl ValueError
      else bind_r (auth_status_of (unat (msg ! 1))) (\<lambda>s. Inr (AuthResponse s)))"

definition auth_response_encode :: "auth_response \<Rightarrow> py_error + bytes" where
  "auth_response_encode r =
     bind_r (struct_pack 1 1) (\<lambda>v.
     bind_r (struct_pack 1 (int (auth_status_value (ar_status r)))) (\<lambda>s. Inr (v @ s)))"

section \<open>Connection messages\<close>

record connect_request =
  cr_identifier :: sim_identifier
  cr_flags :: request_flags

definition connect_request_decode :: "bytes \<Rightarrow> py_error + connect_request" where
  "connect_request_decode msg =
     (if length msg < 3 then Inl (PartialInput (3 - length msg))
      else if unat (msg ! 0) \<noteq> 1 then Inl ValueError
      else
        bind_r (request_flags_of (unat (msg ! 1))) (\<lambda>flags.
        bind_r (identifier_type_of (unat (msg ! 2))) (\<lambda>ident_type.
        bind_r
          (case ident_type of
             Ident_Id \<Rightarrow> bind_r (sim_id_decode (drop 3 msg)) (\<lambda>i. Inr (By_SimId i))
           | Ident_Imsi \<Rightarrow> bind_r (imsi_decode (drop 3 msg)) (\<lambda>i. Inr (By_Imsi i))
           | Ident_Iccid \<Rightarrow> bind_r (iccid_decode (drop 3 msg)) (\<lambda>i. Inr (By_Iccid i))
           | Ident_Index \<Rightarrow> bind_r (sim_index_decode (drop 3 msg)) (\<lambda>i. Inr (By_SimIndex i)))
          (\<lambda>identifier. Inr \<lparr>cr_identifier = identifier, cr_flags = flags\<rparr>))))"

definition connect_request_encode :: "connect_request \<Rightarrow> py_error + bytes" where
  "connect_request_encode r =
     bind_r (struct_pack 1 1) (\<lambda>v.
     bind_r (struct_pack 1 (int (request_flags_value (cr_flags r)))) (\<lambda>f.
     bind_r (struct_pack 1 (int (identifier_type_value (get_identifier_type (cr_identifier r))))) (\<lambda>t.
     bind_r (identifier_encode (cr_identifier r)) (\<lambda>i.
       Inr ((v @ f @ t) @ i)))))"

datatype connect_response = ConnectResponse (cr_status: connect_status)

definition connect_response_decode :: "bytes \<Rightarrow> py_error + connect_response" where
  "connect_response_decode msg =
     (if length msg < 2 then Inl (PartialInput (2 - length msg))
      else if length msg > 2 then Inl ValueError
      else if unat (msg ! 0) \<noteq> 1 then Inl ValueError
      else bind_r (connect_status_of (unat (msg ! 1))) (\<lambda>s. Inr (ConnectResponse s)))"

definition connect_response_encode :: "connect_response \<Rightarrow> py_error + bytes" where
  "connect_response_encode r =
     bind_r (struct_pack 1 1) (\<lambda>v.
     bind_r (struct_pack 1 (int (connect_status_value (cr_status r)))) (\<lambda>s. Inr (v @ s)))"

section \<open>The contract of a message format\<close>

locale wire_format =
  fixes enc :: "'m \<Rightarrow> py_error + bytes"
    and dec :: "bytes \<Rightarrow> py_error + 'm"
    and wf :: "'m \<Rightarrow> bool"
  assumes enc_total: "wf m \<Longrightarrow> \<exists>bs. enc m = Inr bs"
    and dec_enc: "wf m \<Longrightarrow> enc m = Inr bs \<Longrightarrow> dec bs = Inr m"
    and enc_dec: "dec bs = Inr m \<Longrightarrow> wf m \<and> enc m = Inr bs"
    and dec_prefix: "wf m \<Longrightarrow> enc m = Inr bs \<Longrightarrow> n < length bs \<Longrightarrow>
      \<exists>k. dec (take n bs) = Inl (PartialInput k) \<and> 0 < k \<and> n + k \<le> length bs"
    and partial_pos: "dec bs = Inl (PartialInput k) \<Longrightarrow> 0 < k"
begin

lemma enc_inject:
  assumes "wf m" "wf m'" "enc m = Inr bs" "enc m' = Inr bs"
  shows "m = m'"
  using dec_enc [OF assms(1,3)] dec_enc [OF assms(2,4)] by simp

lemma prefix_free:
  assumes "wf m" "wf m'" "enc m = Inr bs" "enc m' = Inr (bs @ rest)"
  shows "rest = [] \<and> m = m'"
proof -
  have ok: "dec bs = Inr m" using assms(1,3) by (rule dec_enc)
  have "rest = []"
  proof (rule ccontr)
    assume "rest \<noteq> []"
    then have "length bs < length (bs @ rest)" by simp
    from dec_prefix [OF assms(2,4) this] ok show False by simp
  qed
  with assms enc_inject show ?thesis by simp
qed

lemma dec_ok_iff: "dec bs = Inr m \<longleftrightarrow> wf m \<and> enc m = Inr bs"
  using dec_enc enc_dec by blast

end

section \<open>Every message type meets the contract\<close>

lemma struct_pack_byte [simp]:
  "n < 256 \<Longrightarrow> struct_pack (Suc 0) (int n) = Inr [word_of_nat n]"
  "struct_pack (Suc 0) 1 = Inr [1]"
  by (simp_all add: struct_pack_def)

lemma struct_pack_nat: "n < 256 ^ k \<Longrightarrow> struct_pack k (int n) = Inr (be_bytes k n)"
proof -
  assume "n < 256 ^ k"
  then have "int n < 256 ^ k"
    by (metis of_nat_less_iff of_nat_numeral of_nat_power)
  then show ?thesis by (simp add: struct_pack_def)
qed

lemma unat_byte_of_nat [simp]: "n < 256 \<Longrightarrow> unat (word_of_nat n :: byte) = n"
  by (simp add: unat_of_nat)

lemma uuid_of_bytes_bytes [simp]: "uuid_of_bytes (uuid_bytes u) = u"
proof -
  have "unat u < 256 ^ 16" using unsigned_less [of u, where 'a = nat] by simp
  then show ?thesis by (simp add: uuid_of_bytes_def uuid_bytes_def)
qed

lemma uuid_bytes_of_bytes [simp]: "length b = 16 \<Longrightarrow> uuid_bytes (uuid_of_bytes b) = b"
proof -
  assume len: "length b = 16"
  have "be_nat b < 2 ^ 128" using be_nat_lt [of b] len by simp
  then have "unat (uuid_of_bytes b) = be_nat b"
    by (simp add: uuid_of_bytes_def unat_of_nat)
  then show ?thesis using be_bytes_be_nat [of b] len by (simp add: uuid_bytes_def)
qed

lemma length_uuid_bytes [simp]: "length (uuid_bytes u) = 16"
  by (simp add: uuid_bytes_def)

lemma enum_of_Inr [simp]:
  "identifier_type_of n = Inr i \<longleftrightarrow> n = identifier_type_value i"
  "auth_type_of n = Inr t \<longleftrightarrow> n = auth_type_value t"
  "auth_status_of n = Inr s \<longleftrightarrow> n = auth_status_value s"
  "connect_status_of n = Inr c \<longleftrightarrow> n = connect_status_value c"
  "apdu_op_of n = Inr a \<longleftrightarrow> n = apdu_op_value a"
  "request_flags_of n = Inr f \<longleftrightarrow> n = request_flags_value f"
  subgoal by (cases i) (auto simp: identifier_type_of_def)
  subgoal by (cases t) (auto simp: auth_type_of_def)
  subgoal by (cases s) (auto simp: auth_status_of_def)
  subgoal by (cases c) (auto simp: connect_status_of_def)
  subgoal by (cases a) (auto simp: apdu_op_of_def)
  subgoal by (cases f) (auto simp: request_flags_of_def)
  done

lemma enum_of_no_partial [simp]:
  "identifier_type_of n \<noteq> Inl (PartialInput k)"
  "auth_type_of n \<noteq> Inl (PartialInput k)"
  "auth_status_of n \<noteq> Inl (PartialInput k)"
  "connect_status_of n \<noteq> Inl (PartialInput k)"
  "apdu_op_of n \<noteq> Inl (PartialInput k)"
  "request_flags_of n \<noteq> Inl (PartialInput k)"
  by (simp_all add: identifier_type_of_def auth_type_of_def auth_status_of_def
      connect_status_of_def apdu_op_of_def request_flags_of_def)

subsection \<open>Two-byte responses\<close>

lemma two_bytes: "length bs = 2 \<Longrightarrow> \<exists>a b. bs = [a, b]"
  by (cases bs; cases "tl bs") auto

lemma word_of_nat_unat_byte [simp]: "word_of_nat (unat (b :: byte)) = b"
  by simp

lemma byte_eq_1:
  "unat (b :: byte) = Suc 0 \<longleftrightarrow> b = 1"
  "Suc 0 = unat (b :: byte) \<longleftrightarrow> b = 1"
  using word_eq_iff_unsigned [of b 1, where 'a = nat] by auto

lemma auth_response_encode_eq [wire]:
  "auth_response_encode r = Inr [1, word_of_nat (auth_status_value (ar_status r))]"
  by (simp add: auth_response_encode_def)

lemma connect_response_encode_eq [wire]:
  "connect_response_encode r = Inr [1, word_of_nat (connect_status_value (cr_status r))]"
  by (simp add: connect_response_encode_def)

lemma word_of_nat_value: "unat (b :: byte) = n \<Longrightarrow> word_of_nat n = b"
  by auto

interpretation auth_response_format:
  wire_format auth_response_encode auth_response_decode "\<lambda>_. True"
proof unfold_locales
  fix m bs
  assume "auth_response_encode m = Inr bs"
  then show "auth_response_decode bs = Inr m"
    by (auto simp: wire auth_response_decode_def)
next
  fix m bs
  assume ok: "auth_response_decode bs = Inr m"
  then obtain a b where "bs = [a, b]"
    using two_bytes [of bs] by (auto simp: auth_response_decode_def split: if_splits)
  with ok show "True \<and> auth_response_encode m = Inr bs"
    by (cases m) (auto simp: wire auth_response_decode_def byte_eq_1 bind_r_Inr_iff
        split: if_splits dest: word_of_nat_value)
next
  fix m bs n
  assume "auth_response_encode m = Inr bs" "n < length bs"
  then show "\<exists>k. auth_response_decode (take n bs) = Inl (PartialInput k) \<and> 0 < k \<and> n + k \<le> length bs"
    by (auto simp: wire auth_response_decode_def)
qed (auto simp: wire auth_response_decode_def bind_r_Inl_iff split: if_splits)

interpretation connect_response_format:
  wire_format connect_response_encode connect_response_decode "\<lambda>_. True"
proof unfold_locales
  fix m bs
  assume "connect_response_encode m = Inr bs"
  then show "connect_response_decode bs = Inr m"
    by (auto simp: wire connect_response_decode_def)
next
  fix m bs
  assume ok: "connect_response_decode bs = Inr m"
  then obtain a b where "bs = [a, b]"
    using two_bytes [of bs] by (auto simp: connect_response_decode_def split: if_splits)
  with ok show "True \<and> connect_response_encode m = Inr bs"
    by (cases m) (auto simp: wire connect_response_decode_def byte_eq_1 bind_r_Inr_iff
        split: if_splits dest: word_of_nat_value)
next
  fix m bs n
  assume "connect_response_encode m = Inr bs" "n < length bs"
  then show "\<exists>k. connect_response_decode (take n bs) = Inl (PartialInput k) \<and> 0 < k \<and> n + k \<le> length bs"
    by (auto simp: wire connect_response_decode_def)
qed (auto simp: wire connect_response_decode_def bind_r_Inl_iff split: if_splits)

subsection \<open>Identifiers\<close>

definition wf_imsi :: "imsi \<Rightarrow> bool" where
  "wf_imsi i \<longleftrightarrow>
     only_digits (str_encode (imsi_str i)) \<and> 5 \<le> length (imsi_str i) \<and> length (imsi_str i) \<le> 15"

definition wf_iccid :: "iccid \<Rightarrow> bool" where
  "wf_iccid i \<longleftrightarrow>
     only_digits (str_encode (iccid_str i)) \<and> 5 \<le> length (iccid_str i) \<and> length (iccid_str i) \<le> 20"

lemma Imsi_init_wf: "Imsi_init s = Inr i \<longleftrightarrow> wf_imsi i \<and> imsi_str i = s"
  by (cases i) (auto simp: Imsi_init_def wf_imsi_def)

lemma Iccid_init_wf: "Iccid_init s = Inr i \<longleftrightarrow> wf_iccid i \<and> iccid_str i = s"
  by (cases i) (auto simp: Iccid_init_def wf_iccid_def)

lemma only_digits_nonzero: "only_digits b \<Longrightarrow> \<forall>x \<in> set b. x \<noteq> 0"
  by (auto simp: only_digits_def list_all_iff)

lemma rstrip0_digits [simp]: "only_digits b \<Longrightarrow> rstrip0 (b @ replicate n 0) = b"
  by (simp add: rstrip0_pad only_digits_nonzero)

lemma rstrip0_repad:
  "length bs = l \<Longrightarrow> rstrip0 bs @ replicate (l - length (rstrip0 bs)) 0 = bs"
  using rstrip0_decompose [of bs] by (metis diff_add_inverse length_append length_replicate)

interpretation imsi_format: wire_format imsi_encode imsi_decode wf_imsi
proof unfold_locales
  fix m bs
  assume "wf_imsi m" "imsi_encode m = Inr bs"
  then show "imsi_decode bs = Inr m"
    by (auto simp: imsi_encode_def imsi_decode_def IMSI_LEN_def wf_imsi_def Imsi_init_def Let_def)
next
  fix m bs
  assume "imsi_decode bs = Inr m"
  then show "wf_imsi m \<and> imsi_encode m = Inr bs"
    using rstrip0_repad [of bs 15]
    by (auto simp: imsi_encode_def imsi_decode_def IMSI_LEN_def Imsi_init_wf Let_def split: if_splits)
qed (auto simp: imsi_encode_def imsi_decode_def IMSI_LEN_def Imsi_init_def wf_imsi_def Let_def
      split: if_splits)

interpretation iccid_format: wire_format iccid_encode iccid_decode wf_iccid
proof unfold_locales
  fix m bs
  assume "wf_iccid m" "iccid_encode m = Inr bs"
  then show "iccid_decode bs = Inr m"
    by (auto simp: iccid_encode_def iccid_decode_def ICCID_LEN_def wf_iccid_def Iccid_init_def Let_def)
next
  fix m bs
  assume "iccid_decode bs = Inr m"
  then show "wf_iccid m \<and> iccid_encode m = Inr bs"
    using rstrip0_repad [of bs 20]
    by (auto simp: iccid_encode_def iccid_decode_def ICCID_LEN_def Iccid_init_wf Let_def
        split: if_splits)
qed (auto simp: iccid_encode_def iccid_decode_def ICCID_LEN_def Iccid_init_def wf_iccid_def Let_def
      split: if_splits)

definition wf_sim_number :: "int \<Rightarrow> bool" where
  "wf_sim_number n \<longleftrightarrow> 0 \<le> n \<and> n < 2 ^ 64"

definition wf_sim_id :: "sim_id \<Rightarrow> bool" where
  "wf_sim_id s \<longleftrightarrow> wf_sim_number (sim_id_id s)"

definition wf_sim_index :: "sim_index \<Rightarrow> bool" where
  "wf_sim_index s \<longleftrightarrow> wf_sim_number (sim_index_index s)"

lemma struct_pack_8: "struct_pack 8 n = Inr b \<longleftrightarrow> wf_sim_number n \<and> b = be_bytes 8 (nat n)"
  by (auto simp: struct_pack_def wf_sim_number_def)

lemma be_nat_8: "length b = 8 \<Longrightarrow> wf_sim_number (int (be_nat b)) \<and> int (be_nat b) < 2 ^ 192"
  using be_nat_lt [of b] by (auto simp: wf_sim_number_def of_nat_less_numeral_iff)

lemma wf_sim_number_nat: "wf_sim_number n \<Longrightarrow> nat n < 256 ^ 8 \<and> n < 2 ^ 192"
  by (auto simp: wf_sim_number_def)

lemma be_bytes_8: "length b = 8 \<Longrightarrow> be_bytes 8 (be_nat b) = b"
  using be_bytes_be_nat [of b] by simp

interpretation sim_id_format: wire_format sim_id_encode sim_id_decode wf_sim_id
proof unfold_locales
  fix m bs
  assume "wf_sim_id m" "sim_id_encode m = Inr bs"
  then show "sim_id_decode bs = Inr m"
    using wf_sim_number_nat [of "sim_id_id m"]
    by (cases m) (auto simp: sim_id_encode_def sim_id_decode_def SIM_ID_LEN_def wf_sim_id_def
        SimId_init_def bind_r_Inr_iff struct_pack_8 wf_sim_number_def)
next
  fix m bs
  assume "sim_id_decode bs = Inr m"
  then show "wf_sim_id m \<and> sim_id_encode m = Inr bs"
    using be_nat_8 [of "drop 16 bs"] be_bytes_8 [of "drop 16 bs"]
    by (auto simp: sim_id_encode_def sim_id_decode_def SIM_ID_LEN_def wf_sim_id_def
        SimId_init_def bind_r_Inr_iff struct_pack_8 split: if_splits)
qed (auto simp: sim_id_encode_def sim_id_decode_def SIM_ID_LEN_def wf_sim_id_def SimId_init_def
      bind_r_Inr_iff struct_pack_8 split: if_splits)

interpretation sim_index_format: wire_format sim_index_encode sim_index_decode wf_sim_index
proof unfold_locales
  fix m bs
  assume "wf_sim_index m" "sim_index_encode m = Inr bs"
  then show "sim_index_decode bs = Inr m"
    using wf_sim_number_nat [of "sim_index_index m"]
    by (cases m) (auto simp: sim_index_encode_def sim_index_decode_def SIM_INDEX_LEN_def
        wf_sim_index_def SimIndex_init_def bind_r_Inr_iff struct_pack_8 wf_sim_number_def)
next
  fix m bs
  assume "sim_index_decode bs = Inr m"
  then show "wf_sim_index m \<and> sim_index_encode m = Inr bs"
    using be_nat_8 [of "drop 16 bs"] be_bytes_8 [of "drop 16 bs"]
    by (auto simp: sim_index_encode_def sim_index_decode_def SIM_INDEX_LEN_def wf_sim_index_def
        SimIndex_init_def bind_r_Inr_iff struct_pack_8 split: if_splits)
qed (auto simp: sim_index_encode_def sim_index_decode_def SIM_INDEX_LEN_def wf_sim_index_def
      SimIndex_init_def bind_r_Inr_iff struct_pack_8 split: if_splits)

subsection \<open>Messages with a length field\<close>

lemma apdu_encode_eq [wire]:
  assumes "wf_apdu p"
  shows "apdu_encode p = Inr ([1, word_of_nat (apdu_op_value (apdu_op p))] @
    be_bytes 4 (length (apdu_payload p)) @ apdu_payload p)"
proof -
  have "length (apdu_payload p) < 256 ^ 4" using assms by (simp add: wf_apdu_def)
  then show ?thesis by (simp add: apdu_encode_def struct_pack_nat)
qed

lemma auth_request_encode_eq [wire]:
  assumes "wf_token (ar_token r)"
  shows "auth_request_encode r = Inr ([1, word_of_nat (auth_type_value (ar_type r))] @
    be_bytes 2 (length (as_bytes (ar_token r))) @ as_bytes (ar_token r))"
proof -
  have "length (as_bytes (ar_token r)) < 256 ^ 2" using assms by (simp add: wf_token_def)
  then show ?thesis by (simp add: auth_request_encode_def struct_pack_nat Let_def)
qed

text \<open>The fields of a message read from its first \<open>n\<close> bytes, when the header is complete.\<close>

lemma header_fields:
  assumes "bs = [a, b] @ be_bytes l v @ rest" "2 + l \<le> n" "v < 256 ^ l"
  shows "take n bs ! 0 = a" "take n bs ! Suc 0 = b" "be_nat (take l (drop 2 (take n bs))) = v"
    "drop (2 + l) bs = rest"
proof -
  obtain k where "n = Suc (Suc (l + k))"
    using assms(2) by (metis add_2_eq_Suc add_Suc le_Suc_ex)
  then have "take n bs = [a, b] @ be_bytes l v @ take k rest"
    using assms by simp
  then show "take n bs ! 0 = a" "take n bs ! Suc 0 = b"
      "be_nat (take l (drop 2 (take n bs))) = v" "drop (2 + l) bs = rest"
    using assms by simp_all
qed

lemma apdu_header:
  assumes "wf_apdu p" "apdu_encode p = Inr bs" "6 \<le> n"
  shows "take n bs ! 0 = 1" "unat (take n bs ! Suc 0) = apdu_op_value (apdu_op p)"
    "be_nat (take 4 (drop 2 (take n bs))) = length (apdu_payload p)"
    "length bs = 6 + length (apdu_payload p)" "drop 6 bs = apdu_payload p"
proof -
  have len: "length (apdu_payload p) < 256 ^ 4" using assms(1) by (simp add: wf_apdu_def)
  have bs: "bs = [1, word_of_nat (apdu_op_value (apdu_op p))] @
      be_bytes 4 (length (apdu_payload p)) @ apdu_payload p"
    using assms(1,2) by (simp add: wire)
  note header = header_fields [OF bs _ len, of n]
  show "take n bs ! 0 = 1" "unat (take n bs ! Suc 0) = apdu_op_value (apdu_op p)"
    "be_nat (take 4 (drop 2 (take n bs))) = length (apdu_payload p)"
    "length bs = 6 + length (apdu_payload p)" "drop 6 bs = apdu_payload p"
    using header assms(3) bs by simp_all
qed

lemma auth_request_header:
  assumes "wf_token (ar_token r)" "auth_request_encode r = Inr bs" "4 \<le> n"
  shows "take n bs ! 0 = 1" "unat (take n bs ! Suc 0) = auth_type_value (ar_type r)"
    "be_nat (take 2 (drop 2 (take n bs))) = length (as_bytes (ar_token r))"
    "length bs = 4 + length (as_bytes (ar_token r))" "drop 4 bs = as_bytes (ar_token r)"
proof -
  have len: "length (as_bytes (ar_token r)) < 256 ^ 2" using assms(1) by (simp add: wf_token_def)
  have bs: "bs = [1, word_of_nat (auth_type_value (ar_type r))] @
      be_bytes 2 (length (as_bytes (ar_token r))) @ as_bytes (ar_token r)"
    using assms(1,2) by (simp add: wire)
  note header = header_fields [OF bs _ len, of n]
  show "take n bs ! 0 = 1" "unat (take n bs ! Suc 0) = auth_type_value (ar_type r)"
    "be_nat (take 2 (drop 2 (take n bs))) = length (as_bytes (ar_token r))"
    "length bs = 4 + length (as_bytes (ar_token r))" "drop 4 bs = as_bytes (ar_token r)"
    using header assms(3) bs by simp_all
qed

text \<open>
  Conversely, what a successful decode says of its input. The declared length is kept
  opaque, as the simplifier would otherwise rewrite \<open>length bs\<close> inside its own definition.
\<close>

lemma ApduPacket_init_Inr:
  "ApduPacket_init op b = Inr m \<longleftrightarrow> wf_apdu m \<and> apdu_op m = op \<and> apdu_payload m = b"
  by (cases m) (auto simp: ApduPacket_init_def wf_apdu_def)

lemma apdu_decode_InrD:
  assumes "apdu_decode bs = Inr m"
  shows "wf_apdu m" "6 \<le> length bs" "bs ! 0 = 1" "apdu_payload m = drop 6 bs"
    "unat (bs ! Suc 0) = apdu_op_value (apdu_op m)"
    "be_nat (take 4 (drop 2 bs)) = length (drop 6 bs)"
proof -
  define plen where "plen = be_nat (take 4 (drop 2 bs))"
  have "6 \<le> length bs \<and> bs ! 0 = 1 \<and> length bs = 6 + plen \<and>
      unat (bs ! Suc 0) = apdu_op_value (apdu_op m) \<and>
      wf_apdu m \<and> apdu_payload m = drop 6 bs"
    using assms unfolding apdu_decode_def plen_def [symmetric]
    by (auto simp: Let_def result_simps byte_eq_1 ApduPacket_init_Inr)
  then show "wf_apdu m" "6 \<le> length bs" "bs ! 0 = 1" "apdu_payload m = drop 6 bs"
    "unat (bs ! Suc 0) = apdu_op_value (apdu_op m)"
    "be_nat (take 4 (drop 2 bs)) = length (drop 6 bs)"
    unfolding plen_def [symmetric] by simp_all
qed

lemma auth_request_decode_InrD:
  assumes "auth_request_decode bs = Inr m"
  shows "wf_token (ar_token m)" "4 \<le> length bs" "bs ! 0 = 1"
    "as_bytes (ar_token m) = drop 4 bs"
    "unat (bs ! Suc 0) = auth_type_value (ar_type m)"
    "be_nat (take 2 (drop 2 bs)) = length (drop 4 bs)"
proof -
  define plen where "plen = be_nat (take 2 (drop 2 bs))"
  have "4 \<le> length bs \<and> bs ! 0 = 1 \<and> length bs = plen + 4 \<and>
      unat (bs ! Suc 0) = auth_type_value (ar_type m) \<and>
      wf_token (ar_token m) \<and> as_bytes (ar_token m) = drop 4 bs"
    using assms unfolding auth_request_decode_def plen_def [symmetric]
    by (auto simp: Let_def result_simps byte_eq_1 Token_init_wf)
  then show "wf_token (ar_token m)" "4 \<le> length bs" "bs ! 0 = 1"
    "as_bytes (ar_token m) = drop 4 bs"
    "unat (bs ! Suc 0) = auth_type_value (ar_type m)"
    "be_nat (take 2 (drop 2 bs)) = length (drop 4 bs)"
    unfolding plen_def [symmetric] by simp_all
qed

lemma auth_request_partial_pos:
  assumes "auth_request_decode bs = Inl (PartialInput k)"
  shows "0 < k"
proof -
  define plen where "plen = be_nat (take 2 (drop 2 bs))"
  show ?thesis
    using assms unfolding auth_request_decode_def plen_def [symmetric]
    by (auto simp: Let_def bind_r_Inl_iff Token_init_def split: if_splits)
qed

text \<open>Conversely, the fields determine the bytes.\<close>

lemma header_bytes:
  assumes "2 + l \<le> length bs"
  shows "bs = [bs ! 0, bs ! Suc 0] @ be_bytes l (be_nat (take l (drop 2 bs))) @ drop (2 + l) bs"
proof -
  obtain a b rest where bs: "bs = a # b # rest"
    using assms by (cases bs; cases "tl bs") auto
  moreover have "length (take l rest) = l" using assms bs by simp
  then have "be_bytes l (be_nat (take l rest)) = take l rest"
    by (metis be_bytes_be_nat)
  ultimately show ?thesis by simp
qed

interpretation apdu_format: wire_format apdu_encode apdu_decode wf_apdu
proof unfold_locales
  fix m bs
  assume a: "wf_apdu m" "apdu_encode m = Inr bs"
  show "apdu_decode bs = Inr m"
  proof -
    have len: "length bs = 6 + length (apdu_payload m)"
      by (rule apdu_header(4) [OF a order_refl])
    then have ge: "6 \<le> length bs" by simp
    have init: "ApduPacket_init (apdu_op m) (apdu_payload m) = Inr m"
      using a(1) by (simp add: wf_apdu_def ApduPacket_init_def)
    note header = apdu_header(1-3,5) [OF a ge, unfolded take_all [OF order_refl]]
    show ?thesis
      unfolding apdu_decode_def One_nat_def header
      by (simp add: len init)
  qed
next
  fix m bs
  assume a: "apdu_decode bs = Inr m"
  note m = apdu_decode_InrD [OF a]
  from m have "bs = [1, bs ! Suc 0] @ be_bytes 4 (length (drop 6 bs)) @ drop 6 bs"
    using header_bytes [of 4 bs] by simp
  moreover have "word_of_nat (apdu_op_value (apdu_op m)) = bs ! Suc 0"
    using m(5) by (rule word_of_nat_value)
  ultimately
  show "wf_apdu m \<and> apdu_encode m = Inr bs"
    using m(1,4) by (simp add: wire)
next
  fix m bs n
  assume a: "wf_apdu m" "apdu_encode m = Inr bs" "n < length bs"
  show "\<exists>k. apdu_decode (take n bs) = Inl (PartialInput k) \<and> 0 < k \<and> n + k \<le> length bs"
    using apdu_header [OF a(1,2), of n] apdu_header(4) [OF a(1,2) order_refl] a(3)
    by (cases "n < 6") (auto simp: apdu_decode_def)
qed (auto simp: wire apdu_decode_def ApduPacket_init_def Let_def bind_r_Inl_iff split: if_splits)

interpretation auth_request_format:
  wire_format auth_request_encode auth_request_decode "\<lambda>r :: auth_request. wf_token (ar_token r)"
proof unfold_locales
  fix m bs
  assume a: "wf_token (ar_token m)" "auth_request_encode m = Inr bs"
  show "auth_request_decode bs = Inr m"
  proof -
    have len: "length bs = 4 + length (as_bytes (ar_token m))"
      by (rule auth_request_header(4) [OF a order_refl])
    then have ge: "4 \<le> length bs" by simp
    have init: "Token_init (as_bytes (ar_token m)) = Inr (ar_token m)"
      using a(1) by (simp add: Token_init_wf)
    note header = auth_request_header(1-3,5) [OF a ge, unfolded take_all [OF order_refl]]
    show ?thesis
      unfolding auth_request_decode_def One_nat_def header
      by (simp add: len init)
  qed
next
  fix m bs
  assume a: "auth_request_decode bs = Inr m"
  note m = auth_request_decode_InrD [OF a]
  from m have "bs = [1, bs ! Suc 0] @ be_bytes 2 (length (drop 4 bs)) @ drop 4 bs"
    using header_bytes [of 2 bs] by simp
  moreover have "word_of_nat (auth_type_value (ar_type m)) = bs ! Suc 0"
    using m(5) by (rule word_of_nat_value)
  ultimately
  show "wf_token (ar_token m) \<and> auth_request_encode m = Inr bs"
    using m(1,4) by (simp add: wire)
next
  fix m bs n
  assume a: "wf_token (ar_token m)" "auth_request_encode m = Inr bs" "n < length bs"
  show "\<exists>k. auth_request_decode (take n bs) = Inl (PartialInput k) \<and> 0 < k \<and> n + k \<le> length bs"
    using auth_request_header [OF a(1,2), of n] auth_request_header(4) [OF a(1,2) order_refl] a(3)
    by (cases "n < 4") (auto simp: auth_request_decode_def)
qed (simp_all add: wire auth_request_partial_pos)

subsection \<open>Connection requests\<close>

fun wf_identifier :: "sim_identifier \<Rightarrow> bool" where
  "wf_identifier (By_SimId s) = wf_sim_id s"
| "wf_identifier (By_SimIndex s) = wf_sim_index s"
| "wf_identifier (By_Iccid i) = wf_iccid i"
| "wf_identifier (By_Imsi i) = wf_imsi i"

text \<open>The part of \<^verbatim>\<open>ConnectRequest.decode\<close> that depends on the identifier type.\<close>

definition identifier_decode :: "identifier_type \<Rightarrow> bytes \<Rightarrow> py_error + sim_identifier" where
  "identifier_decode t msg =
     (case t of
        Ident_Id \<Rightarrow> bind_r (sim_id_decode msg) (\<lambda>i. Inr (By_SimId i))
      | Ident_Imsi \<Rightarrow> bind_r (imsi_decode msg) (\<lambda>i. Inr (By_Imsi i))
      | Ident_Iccid \<Rightarrow> bind_r (iccid_decode msg) (\<lambda>i. Inr (By_Iccid i))
      | Ident_Index \<Rightarrow> bind_r (sim_index_decode msg) (\<lambda>i. Inr (By_SimIndex i)))"

lemma identifier_dec_enc:
  "wf_identifier i \<Longrightarrow> identifier_encode i = Inr bs \<Longrightarrow>
    identifier_decode (get_identifier_type i) bs = Inr i"
  by (cases i) (auto simp: identifier_decode_def imsi_format.dec_enc iccid_format.dec_enc
      sim_id_format.dec_enc sim_index_format.dec_enc)

lemma identifier_enc_dec:
  "identifier_decode t bs = Inr i \<Longrightarrow>
    wf_identifier i \<and> get_identifier_type i = t \<and> identifier_encode i = Inr bs"
  by (cases t) (auto simp: identifier_decode_def bind_r_Inr_iff dest: imsi_format.enc_dec
      iccid_format.enc_dec sim_id_format.enc_dec sim_index_format.enc_dec)

lemma identifier_prefix:
  assumes "wf_identifier i" "identifier_encode i = Inr bs" "n < length bs"
  shows "\<exists>k. identifier_decode (get_identifier_type i) (take n bs) = Inl (PartialInput k) \<and>
    0 < k \<and> n + k \<le> length bs"
  using assms imsi_format.dec_prefix [of _ bs n] iccid_format.dec_prefix [of _ bs n]
    sim_id_format.dec_prefix [of _ bs n] sim_index_format.dec_prefix [of _ bs n]
  by (cases i) (fastforce simp: identifier_decode_def)+

lemma identifier_partial_pos:
  "identifier_decode t bs = Inl (PartialInput k) \<Longrightarrow> 0 < k"
  by (cases t) (auto simp: identifier_decode_def bind_r_Inl_iff dest: imsi_format.partial_pos
      iccid_format.partial_pos sim_id_format.partial_pos sim_index_format.partial_pos)

lemma identifier_enc_total: "wf_identifier i \<Longrightarrow> \<exists>bs. identifier_encode i = Inr bs"
  by (cases i) (auto intro: imsi_format.enc_total iccid_format.enc_total sim_id_format.enc_total
      sim_index_format.enc_total)

lemma connect_request_decode_eq:
  "connect_request_decode msg =
     (if length msg < 3 then Inl (PartialInput (3 - length msg))
      else if unat (msg ! 0) \<noteq> 1 then Inl ValueError
      else
        bind_r (request_flags_of (unat (msg ! 1))) (\<lambda>flags.
        bind_r (identifier_type_of (unat (msg ! 2))) (\<lambda>t.
        bind_r (identifier_decode t (drop 3 msg))
          (\<lambda>identifier. Inr \<lparr>cr_identifier = identifier, cr_flags = flags\<rparr>))))"
  by (simp add: connect_request_decode_def identifier_decode_def)

lemma connect_request_encode_eq [wire]:
  "connect_request_encode r =
     bind_r (identifier_encode (cr_identifier r)) (\<lambda>i.
       Inr ([1, word_of_nat (request_flags_value (cr_flags r)),
             word_of_nat (identifier_type_value (get_identifier_type (cr_identifier r)))] @ i))"
  by (simp add: connect_request_encode_def)

lemma three_bytes: "3 \<le> length bs \<Longrightarrow> \<exists>a b c r. bs = a # b # c # r"
  by (cases bs; cases "tl bs"; cases "tl (tl bs)") auto

interpretation connect_request_format:
  wire_format connect_request_encode connect_request_decode "\<lambda>r :: connect_request. wf_identifier (cr_identifier r)"
proof unfold_locales
  fix m :: connect_request
  assume "wf_identifier (cr_identifier m)"
  then show "\<exists>bs. connect_request_encode m = Inr bs"
    using identifier_enc_total by (fastforce simp: wire)
next
  fix m bs
  assume "wf_identifier (cr_identifier m)" "connect_request_encode m = Inr bs"
  then show "connect_request_decode bs = Inr m"
    by (cases m)
      (auto simp: wire connect_request_decode_eq bind_r_Inr_iff [of "identifier_encode _"]
        identifier_dec_enc)
next
  fix m bs
  assume a: "connect_request_decode bs = Inr m"
  then obtain a b c r where "bs = a # b # c # r"
    using three_bytes [of bs] by (auto simp: connect_request_decode_eq split: if_splits)
  with a show "wf_identifier (cr_identifier m) \<and> connect_request_encode m = Inr bs"
    by (auto simp: wire connect_request_decode_eq bind_r_Inr_iff byte_eq_1
        dest: word_of_nat_value dest!: identifier_enc_dec split: if_splits)
next
  fix m bs n
  assume a: "wf_identifier (cr_identifier m)" "connect_request_encode m = Inr bs" "n < length bs"
  then obtain i where i: "identifier_encode (cr_identifier m) = Inr i"
    "bs = [1, word_of_nat (request_flags_value (cr_flags m)),
       word_of_nat (identifier_type_value (get_identifier_type (cr_identifier m)))] @ i"
    by (auto simp: wire bind_r_Inr_iff)
  show "\<exists>k. connect_request_decode (take n bs) = Inl (PartialInput k) \<and> 0 < k \<and> n + k \<le> length bs"
  proof (cases "n < 3")
    case True
    with a(3) i(2) show ?thesis by (auto simp: connect_request_decode_eq)
  next
    case False
    then obtain j where n: "n = Suc (Suc (Suc j))"
      by (metis One_nat_def Suc_eq_plus1 add_2_eq_Suc less_Suc0 less_antisym not_less_eq
          numeral_3_eq_3 old.nat.exhaust)
    with a i identifier_prefix [OF a(1) i(1), of j] show ?thesis
      by (auto simp: connect_request_decode_eq)
  qed
qed (auto simp: connect_request_decode_eq bind_r_Inl_iff identifier_partial_pos split: if_splits)

section \<open>Properties\<close>

text \<open>
  C9: The decoder of connection requests accepts exactly the encodings of well-formed
  requests and returns the request encoded: no other bytes are accepted, none of a request's four
  identifier types or flags is lost.
\<close>

theorem connect_request_codec:
  "connect_request_decode bs = Inr r \<longleftrightarrow>
     wf_identifier (cr_identifier r) \<and> connect_request_encode r = Inr bs"
  by (rule connect_request_format.dec_ok_iff)

text \<open>
  The decoder of authorisation requests accepts exactly the encodings of requests whose
  token has at most 65535 bytes, and returns the client type and the token encoded.
\<close>

theorem auth_request_codec:
  "auth_request_decode bs = Inr r \<longleftrightarrow>
     wf_token (ar_token r) \<and> auth_request_encode r = Inr bs"
  by (rule auth_request_format.dec_ok_iff)

text \<open>
  The decoder of APDU packets accepts exactly the encodings of packets within the size
  limit and returns the operation and the payload encoded.
\<close>

theorem apdu_packet_codec:
  "apdu_decode bs = Inr p \<longleftrightarrow> wf_apdu p \<and> apdu_encode p = Inr bs"
  by (rule apdu_format.dec_ok_iff)

text \<open>
  Connection requests are self-delimiting on the wire: one request's encoding followed by
  anything is the encoding of another only if nothing follows and the requests are the same.
\<close>

theorem connect_request_unambiguous:
  assumes "wf_identifier (cr_identifier r)" "wf_identifier (cr_identifier r')"
    "connect_request_encode r = Inr bs" "connect_request_encode r' = Inr (bs @ rest)"
  shows "rest = [] \<and> r = r'"
  using assms by (rule connect_request_format.prefix_free)

theorem connect_request_unambiguous_witness:
  "\<exists>bs. connect_request_encode \<lparr>cr_identifier = By_SimId (SimId 3 4), cr_flags = NO_WAIT\<rparr> = Inr bs \<and>
     (\<forall>rest. connect_request_encode \<lparr>cr_identifier = By_SimId (SimId 3 4), cr_flags = NO_WAIT\<rparr> =
       Inr (bs @ rest) \<longrightarrow> rest = [])"
proof -
  let ?r = "\<lparr>cr_identifier = By_SimId (SimId 3 4), cr_flags = NO_WAIT\<rparr>"
  have wf: "wf_identifier (cr_identifier ?r)" by (simp add: wf_sim_id_def wf_sim_number_def)
  from connect_request_format.enc_total [OF wf] obtain bs where
    enc: "connect_request_encode ?r = Inr bs" by blast
  have "\<forall>rest. connect_request_encode ?r = Inr (bs @ rest) \<longrightarrow> rest = []"
    using connect_request_unambiguous [OF wf wf enc] by blast
  with enc show ?thesis by blast
qed

text \<open>
  A complete packet whose header declares a payload of 1024 bytes or more is not
  refused like other malformed input: \<^verbatim>\<open>ApduPacket\<close>'s constructor raises \<^verbatim>\<open>AssertionError\<close>,
  which the relay's handler for malformed packets does not catch.
\<close>

theorem apdu_decode_oversize:
  assumes "1024 \<le> length payload" "length payload < 2 ^ 32"
  shows "apdu_decode ([1, op] @ be_bytes 4 (length payload) @ payload) =
    bind_r (apdu_op_of (unat op)) (\<lambda>_. Inl AssertionError)"
proof -
  let ?msg = "[1, op] @ be_bytes 4 (length payload) @ payload"
  have "length payload < 256 ^ 4" using assms(2) by simp
  then have "be_nat (take 4 (drop 2 ?msg)) = length payload"
    by (simp del: power_numeral)
  then show ?thesis
    using assms(1)
    by (cases "apdu_op_of (unat op)") (simp_all add: apdu_decode_def ApduPacket_init_def)
qed

theorem apdu_decode_oversize_witness:
  "apdu_decode ([1, 0] @ be_bytes 4 (length (replicate 1024 0 :: bytes)) @ replicate 1024 0) =
    Inl AssertionError"
  using apdu_decode_oversize [of "replicate 1024 0" 0] by (simp add: apdu_op_of_def)

end
