(* ===== verification/Byte_Streams.thy ===== *)
theory Byte_Streams
  imports Wire_Types
begin

text \<open>
  Reading messages from a byte stream: the server's \<^verbatim>\<open>read_msg\<close> (\<^verbatim>\<open>tunnel/util.py\<close>) and
  \<^verbatim>\<open>ApduStream.recv\<close> (\<^verbatim>\<open>tunnel/apdu_stream.py\<close>), and the clients' \<^verbatim>\<open>RawStream\<close> and
  \<^verbatim>\<open>ApduStream\<close> (\<^verbatim>\<open>moatt_clients/streams.py\<close>).

  A connection's input is the list of the segments the transport will deliver until the peer
  closes it: a read returns bytes of the first segment only, so the segmentation ranges over
  every way the network may cut the stream. The loops are defined over an arbitrary read
  operation; the locale \<open>byte_source\<close> is what they need of it, and both the server's stream
  reader and the client's buffered socket are proved to provide it.
\<close>

section \<open>The transport\<close>

type_synonym reader = "bytes list"

text \<open>
  \<^verbatim>\<open>asyncio.StreamReader.read(n)\<close> and \<^verbatim>\<open>socket.recv(n)\<close>: at most \<open>n\<close> bytes, at least one
  unless \<open>n = 0\<close> or the peer has closed the connection.
\<close>

fun sr_read :: "nat \<Rightarrow> reader \<Rightarrow> bytes \<times> reader" where
  "sr_read n [] = ([], [])"
| "sr_read n (seg # segs) =
     (if n = 0 then ([], seg # segs)
      else if seg = [] then sr_read n segs
      else (take n seg, if length seg \<le> n then segs else drop n seg # segs))"

section \<open>RawStream\<close>

record raw_stream =
  rs_socket :: reader
  rs_buf :: bytes

definition raw_init :: "reader \<Rightarrow> raw_stream" where
  "raw_init sock = \<lparr>rs_socket = sock, rs_buf = []\<rparr>"

definition raw_fill_buf :: "raw_stream \<Rightarrow> bool \<times> raw_stream" where
  "raw_fill_buf s =
     (let (b, sock) = sr_read 1024 (rs_socket s) in
      if length b = 0 then (False, s\<lparr>rs_socket := sock\<rparr>)
      else (True, s\<lparr>rs_socket := sock, rs_buf := rs_buf s @ b\<rparr>))"

text \<open>\<^verbatim>\<open>read(n)\<close>; the default argument \<open>n = -1\<close> is \<open>None\<close>.\<close>

definition raw_read :: "nat option \<Rightarrow> raw_stream \<Rightarrow> bytes \<times> raw_stream" where
  "raw_read n s =
     (let s = (if length (rs_buf s) = 0 then snd (raw_fill_buf s) else s) in
      case n of
        None \<Rightarrow> (rs_buf s, s\<lparr>rs_buf := []\<rparr>)
      | Some n \<Rightarrow> (take n (rs_buf s), s\<lparr>rs_buf := drop n (rs_buf s)\<rparr>))"

lemma sr_read_content: "sr_read n rd = (b, rd') \<Longrightarrow> concat rd = b @ concat rd'"
  by (induction n rd rule: sr_read.induct) (auto split: if_splits)

lemma sr_read_le: "sr_read n rd = (b, rd') \<Longrightarrow> length b \<le> n"
  by (induction n rd rule: sr_read.induct) (auto split: if_splits)

lemma sr_read_empty: "sr_read n rd = ([], rd') \<Longrightarrow> n = 0 \<or> concat rd = []"
  by (induction n rd rule: sr_read.induct) (auto split: if_splits)

definition raw_content :: "raw_stream \<Rightarrow> bytes" where
  "raw_content s = rs_buf s @ concat (rs_socket s)"

lemma raw_fill_buf_content:
  assumes "raw_fill_buf s = (ok, s')"
  shows "raw_content s' = raw_content s" "\<not> ok \<longleftrightarrow> concat (rs_socket s) = []"
    "ok \<Longrightarrow> length (concat (rs_socket s')) < length (concat (rs_socket s))"
    "\<not> ok \<Longrightarrow> rs_buf s' = rs_buf s \<and> concat (rs_socket s') = []"
    "ok \<Longrightarrow> rs_buf s' \<noteq> []"
proof -
  obtain b sock where r: "sr_read 1024 (rs_socket s) = (b, sock)" by fastforce
  with sr_read_content [OF r] sr_read_empty [of 1024 "rs_socket s" sock] assms
  show "raw_content s' = raw_content s" "\<not> ok \<longleftrightarrow> concat (rs_socket s) = []"
    "ok \<Longrightarrow> length (concat (rs_socket s')) < length (concat (rs_socket s))"
    "\<not> ok \<Longrightarrow> rs_buf s' = rs_buf s \<and> concat (rs_socket s') = []"
    "ok \<Longrightarrow> rs_buf s' \<noteq> []"
    by (auto simp: raw_fill_buf_def raw_content_def split: if_splits)
qed

text \<open>\<^verbatim>\<open>read_exactly(n)\<close> fills the buffer until it holds \<open>n\<close> bytes or the peer closes.\<close>

function raw_read_exactly :: "nat \<Rightarrow> raw_stream \<Rightarrow> (py_error + bytes) \<times> raw_stream" where
  "raw_read_exactly n s =
     (if n \<le> length (rs_buf s) then (Inr (take n (rs_buf s)), s\<lparr>rs_buf := drop n (rs_buf s)\<rparr>)
      else (case raw_fill_buf s of
              (False, s') \<Rightarrow> (Inl EOFError, s')
            | (True, s') \<Rightarrow> raw_read_exactly n s'))"
  by pat_completeness auto
termination
  by (relation "measure (\<lambda>(n, s). length (concat (rs_socket s)))")
    (simp, simp, metis raw_fill_buf_content(3))

declare raw_read_exactly.simps [simp del]

lemma raw_read_exactly_spec:
  "if n \<le> length (raw_content s)
   then \<exists>s'. raw_read_exactly n s = (Inr (take n (raw_content s)), s') \<and>
          raw_content s' = drop n (raw_content s)
   else \<exists>s'. raw_read_exactly n s = (Inl EOFError, s')"
proof (induction n s rule: raw_read_exactly.induct)
  case (1 n s)
  obtain ok s' where fill: "raw_fill_buf s = (ok, s')" by fastforce
  note facts = raw_fill_buf_content [OF fill]
  show ?case
  proof (cases "n \<le> length (rs_buf s)")
    case True
    then show ?thesis by (simp add: raw_read_exactly.simps [of n s] raw_content_def)
  next
    case False
    show ?thesis
    proof (cases ok)
      case True
      with False fill "1.IH" [OF False fill [symmetric]] facts(1) show ?thesis
        by (auto simp: raw_read_exactly.simps [of n s] split: if_splits)
    next
      case neg: False
      with facts(2) have "raw_content s = rs_buf s" by (simp add: raw_content_def)
      with False neg fill show ?thesis by (simp add: raw_read_exactly.simps [of n s])
    qed
  qed
qed

section \<open>Fetching and the read loops\<close>

text \<open>
  \<open>fetch k s\<close> is one step of a read loop: the bytes read, or the exception that ends the loop.
  The server reads at most \<open>k\<close> bytes and raises \<^verbatim>\<open>IncompleteReadError\<close> on an empty result; the
  client reads exactly \<open>k\<close> bytes, and \<^verbatim>\<open>read_exactly\<close> raises \<^verbatim>\<open>EOFError\<close>.
\<close>

definition srv_fetch :: "nat \<Rightarrow> reader \<Rightarrow> (py_error + bytes) \<times> reader" where
  "srv_fetch k rd =
     (let (r, rd') = sr_read k rd in
      if length r = 0 then (Inl IncompleteReadError, rd') else (Inr r, rd'))"

definition raw_fetch :: "nat \<Rightarrow> raw_stream \<Rightarrow> (py_error + bytes) \<times> raw_stream" where
  "raw_fetch k s =
     (case raw_read_exactly k s of
        (Inl e, s') \<Rightarrow> (Inl e, s')
      | (Inr r, s') \<Rightarrow> (if length r = 0 then (Inl EOFError, s') else (Inr r, s')))"

partial_function (option) msg_loop ::
  "(nat \<Rightarrow> 's \<Rightarrow> (py_error + bytes) \<times> 's) \<Rightarrow> (bytes \<Rightarrow> py_error + 'm) \<Rightarrow> bytes \<Rightarrow> 's \<Rightarrow>
    ((py_error + 'm) \<times> 's) option" where
  "msg_loop fetch parser buf s =
     (case parser buf of
        Inr m \<Rightarrow> Some (Inr m, s)
      | Inl e \<Rightarrow>
          (case e of
             PartialInput k \<Rightarrow>
               (case fetch k s of
                  (Inl e', s') \<Rightarrow> Some (Inl e', s')
                | (Inr r, s') \<Rightarrow> msg_loop fetch parser (buf @ r) s')
           | _ \<Rightarrow> Some (Inl e, s)))"

text \<open>\<^verbatim>\<open>read_msg\<close> of the server, \<^verbatim>\<open>RawStream.read_message\<close> of the clients.\<close>

definition read_msg ::
  "(bytes \<Rightarrow> py_error + 'm) \<Rightarrow> reader \<Rightarrow> ((py_error + 'm) \<times> reader) option" where
  "read_msg parser rd = msg_loop srv_fetch parser [] rd"

definition raw_read_message ::
  "(bytes \<Rightarrow> py_error + 'm) \<Rightarrow> raw_stream \<Rightarrow> ((py_error + 'm) \<times> raw_stream) option" where
  "raw_read_message decoder s = msg_loop raw_fetch decoder [] s"

section \<open>ApduStream\<close>

definition bytes_missing :: "bytes \<Rightarrow> nat" where
  "bytes_missing msg =
     (if length msg < 6 then 6 - length msg
      else let plen = be_nat (take 4 (drop 2 msg)) in
        if length msg < 6 + plen then 6 + plen - length msg else 0)"

partial_function (option) recv_loop ::
  "(nat \<Rightarrow> 's \<Rightarrow> bytes \<times> 's) \<Rightarrow> py_error \<Rightarrow> bytes \<Rightarrow> 's \<Rightarrow> ((py_error + bytes) \<times> 's) option" where
  "recv_loop read eof buf s =
     (let missing = bytes_missing buf in
      if missing > 0 then
        (case read missing s of
           (r, s') \<Rightarrow>
             if length r = 0 then Some (Inl eof, s') else recv_loop read eof (buf @ r) s')
      else Some (Inr buf, s))"

definition apdu_recv ::
  "(nat \<Rightarrow> 's \<Rightarrow> bytes \<times> 's) \<Rightarrow> py_error \<Rightarrow> 's \<Rightarrow> ((py_error + apdu_packet option) \<times> 's) option"
where
  "apdu_recv read eof s =
     (case read 6 s of
        (buf, s1) \<Rightarrow>
          if length buf = 0 then Some (Inr None, s1)
          else
            (case recv_loop read eof buf s1 of
               None \<Rightarrow> None
             | Some (Inl e, s2) \<Rightarrow> Some (Inl e, s2)
             | Some (Inr buf, s2) \<Rightarrow>
                 Some (bind_r (apdu_decode buf) (\<lambda>p. Inr (Some p)), s2)))"

text \<open>The server's stream, and the clients'.\<close>

definition srv_recv :: "reader \<Rightarrow> ((py_error + apdu_packet option) \<times> reader) option" where
  "srv_recv rd = apdu_recv sr_read IncompleteReadError rd"

definition cli_recv :: "raw_stream \<Rightarrow> ((py_error + apdu_packet option) \<times> raw_stream) option" where
  "cli_recv s = apdu_recv (\<lambda>n. raw_read (Some n)) EOFError s"

text \<open>\<^verbatim>\<open>send_apdu\<close>, \<^verbatim>\<open>send_reset\<close> and \<^verbatim>\<open>send\<close>: the bytes written to the connection.\<close>

definition apdu_send :: "apdu_packet \<Rightarrow> bytes \<Rightarrow> py_error + bytes" where
  "apdu_send packet out = bind_r (apdu_encode packet) (\<lambda>b. Inr (out @ b))"

definition send_apdu :: "bytes \<Rightarrow> bytes \<Rightarrow> py_error + bytes" where
  "send_apdu payload out = bind_r (ApduPacket_init Op_Apdu payload) (\<lambda>p. apdu_send p out)"

definition send_reset :: "bytes \<Rightarrow> py_error + bytes" where
  "send_reset out = bind_r (ApduPacket_init Op_Reset []) (\<lambda>p. apdu_send p out)"

section \<open>What the loops need of a source\<close>

locale fetcher =
  fixes fetch :: "nat \<Rightarrow> 's \<Rightarrow> (py_error + bytes) \<times> 's"
    and content :: "'s \<Rightarrow> bytes"
  assumes fetch_ok: "fetch k s = (Inr r, s') \<Longrightarrow>
      r \<noteq> [] \<and> length r \<le> k \<and> content s = r @ content s'"
    and fetch_available: "0 < k \<Longrightarrow> k \<le> length (content s) \<Longrightarrow> \<exists>r s'. fetch k s = (Inr r, s')"
    and fetch_eof: "content s = [] \<Longrightarrow> \<exists>e s'. fetch k s = (Inl e, s')"
begin

text \<open>A read loop always ends: every round takes at least one byte of the input.\<close>

lemma msg_loop_total: "\<exists>res s'. msg_loop fetch parser buf s = Some (res, s')"
proof (induction "length (content s)" arbitrary: buf s rule: less_induct)
  case less
  show ?case
  proof (cases "\<exists>k. parser buf = Inl (PartialInput k)")
    case True
    then obtain k where k: "parser buf = Inl (PartialInput k)" by blast
    show ?thesis
    proof (cases "fetch k s")
      case (Pair r s')
      show ?thesis
      proof (cases r)
        case (Inr b)
        with fetch_ok [of k s b s'] Pair have "length (content s') < length (content s)" by auto
        from less [OF this] obtain res t where
          "msg_loop fetch parser (buf @ b) s' = Some (res, t)" by blast
        with k Pair Inr show ?thesis by (simp add: msg_loop.simps [of fetch parser buf])
      qed (use k Pair in \<open>simp add: msg_loop.simps [of fetch parser buf]\<close>)
    qed
  next
    case False
    then show ?thesis
      by (simp add: msg_loop.simps [of fetch parser buf] split: sum.splits py_error.splits)
  qed
qed

text \<open>The bytes a loop has consumed are exactly the bytes it has buffered.\<close>

lemma msg_loop_consumes:
  assumes "msg_loop fetch parser buf s = Some (Inr m, s')"
  shows "\<exists>b. content s = b @ content s' \<and> parser (buf @ b) = Inr m"
  using assms
proof (induction "length (content s)" arbitrary: buf s rule: less_induct)
  case less
  note unfold = msg_loop.simps [of fetch parser buf s]
  show ?case
  proof (cases "parser buf")
    case (Inr m')
    with less.prems unfold show ?thesis by auto
  next
    case (Inl e)
    with less.prems unfold obtain k r t where step: "fetch k s = (Inr r, t)"
      "msg_loop fetch parser (buf @ r) t = Some (Inr m, s')"
      by (auto split: py_error.splits prod.splits sum.splits)
    note ok = fetch_ok [OF step(1)]
    then have "length (content t) < length (content s)" by auto
    from less.hyps [OF this step(2)] obtain b where
      "content t = b @ content s'" "parser (buf @ r @ b) = Inr m" by auto
    with ok show ?thesis by (intro exI [of _ "r @ b"]) simp
  qed
qed

end

text \<open>
  A message format read through a fetcher: whatever the segmentation, the loop returns the
  message that was sent and leaves the bytes behind it untouched.
\<close>

locale message_reader = fetcher + wire_format
begin

lemma msg_loop_from:
  assumes "wf m" "enc m = Inr bs" "content s = drop n bs @ rest" "n \<le> length bs"
  shows "\<exists>s'. msg_loop fetch dec (take n bs) s = Some (Inr m, s') \<and> content s' = rest"
  using assms(3,4)
proof (induction "length bs - n" arbitrary: n s rule: less_induct)
  case less
  note unfold = msg_loop.simps [of fetch dec "take n bs" s]
  show ?case
  proof (cases "n = length bs")
    case True
    with less.prems dec_enc [OF assms(1,2)] unfold show ?thesis by auto
  next
    case False
    with less.prems(2) have n: "n < length bs" by simp
    from dec_prefix [OF assms(1,2) n] obtain k where k:
      "dec (take n bs) = Inl (PartialInput k)" "0 < k" "n + k \<le> length bs" by blast
    with less.prems(1) have "k \<le> length (content s)" by simp
    with fetch_available [OF k(2)] obtain r t where r: "fetch k s = (Inr r, t)" by blast
    note ok = fetch_ok [OF r]
    have len: "length r \<le> length bs - n" using ok k(3) by linarith
    have split: "drop n bs @ rest = r @ content t" using ok less.prems(1) by simp
    then have "take (length r) (drop n bs @ rest) = r" by simp
    then have rr: "r = take (length r) (drop n bs)" using len by simp
    have "drop (length r) (drop n bs @ rest) = content t" using split by simp
    then have t: "content t = drop (n + length r) bs @ rest" using len by (simp add: add.commute)
    have buf: "take n bs @ r = take (n + length r) bs"
      by (subst rr) (simp add: take_add)
    have "0 < length r" using ok by simp
    then have "length bs - (n + length r) < length bs - n" using n by linarith
    from less.hyps [OF this t] len n
    show ?thesis unfolding unfold using k(1) r buf by simp
  qed
qed

lemma msg_loop_delivers:
  assumes "wf m" "enc m = Inr bs" "content s = bs @ rest"
  shows "\<exists>s'. msg_loop fetch dec [] s = Some (Inr m, s') \<and> content s' = rest"
  using msg_loop_from [OF assms(1,2), of s 0 rest] assms(3) by simp

text \<open>And only such input yields a message: nothing is invented or skipped.\<close>

lemma msg_loop_sound:
  assumes "msg_loop fetch dec [] s = Some (Inr m, s')"
  shows "\<exists>bs. wf m \<and> enc m = Inr bs \<and> content s = bs @ content s'"
  using msg_loop_consumes [OF assms] enc_dec by fastforce

lemma msg_loop_truncated:
  assumes "wf m" "enc m = Inr bs" "content s = take n bs" "n < length bs"
  shows "\<exists>e s'. msg_loop fetch dec [] s = Some (Inl e, s')"
proof -
  obtain res s' where res: "msg_loop fetch dec [] s = Some (res, s')"
    using msg_loop_total by blast
  show ?thesis
  proof (cases res)
    case (Inr m')
    with res msg_loop_consumes [of dec "[]" s m' s'] obtain b where
      b: "content s = b @ content s'" "dec b = Inr m'" by auto
    then have take: "take n bs = b @ content s'" using assms(3) by simp
    then have "length b \<le> n" using assms(4) by (metis le_add1 length_append length_take min.bounded_iff)
    with take have "b = take (length b) bs" "length b < length bs"
      using assms(4) by (metis append_eq_conv_conj min.absorb1 take_take, simp)
    with dec_prefix [OF assms(1,2), of "length b"] b(2) show ?thesis by auto
  qed (use res in auto)
qed

end

text \<open>What \<^verbatim>\<open>ApduStream.recv\<close> needs: a read of at most \<open>n\<close> bytes.\<close>

locale byte_source =
  fixes read :: "nat \<Rightarrow> 's \<Rightarrow> bytes \<times> 's"
    and content :: "'s \<Rightarrow> bytes"
  assumes read_content: "read n s = (b, s') \<Longrightarrow> content s = b @ content s'"
    and read_le: "read n s = (b, s') \<Longrightarrow> length b \<le> n"
    and read_empty: "read n s = ([], s') \<Longrightarrow> n = 0 \<or> content s = []"
begin

lemma recv_loop_total: "\<exists>res s'. recv_loop read eof buf s = Some (res, s')"
proof (induction "length (content s)" arbitrary: buf s rule: less_induct)
  case less
  obtain r t where r: "read (bytes_missing buf) s = (r, t)" by fastforce
  show ?case
  proof (cases "bytes_missing buf > 0 \<and> r \<noteq> []")
    case True
    then have "length (content t) < length (content s)" using read_content [OF r] by simp
    from less [OF this] obtain res s' where "recv_loop read eof (buf @ r) t = Some (res, s')"
      by blast
    with r True show ?thesis by (simp add: recv_loop.simps [of read eof buf])
  qed (use r in \<open>auto simp: recv_loop.simps [of read eof buf] Let_def\<close>)
qed

lemma apdu_recv_total: "\<exists>res s'. apdu_recv read eof s = Some (res, s')"
proof -
  obtain buf s1 where "read 6 s = (buf, s1)" by fastforce
  moreover obtain res s2 where "recv_loop read eof buf s1 = Some (res, s2)"
    using recv_loop_total by blast
  ultimately show ?thesis by (cases res) (simp_all add: apdu_recv_def)
qed

lemma bytes_missing_take:
  assumes "wf_apdu p" "apdu_encode p = Inr bs" "n \<le> length bs"
  shows "bytes_missing (take n bs) = 0 \<longleftrightarrow> n = length bs"
    "n + bytes_missing (take n bs) \<le> length bs"
  using apdu_header [OF assms(1,2), of n] apdu_header(4) [OF assms(1,2) order_refl] assms(3)
  by (auto simp: bytes_missing_def Let_def)

lemma recv_loop_from:
  assumes "wf_apdu p" "apdu_encode p = Inr bs" "content s = drop n bs @ rest" "n \<le> length bs"
  shows "\<exists>s'. recv_loop read eof (take n bs) s = Some (Inr bs, s') \<and> content s' = rest"
  using assms(3,4)
proof (induction "length bs - n" arbitrary: n s rule: less_induct)
  case less
  note unfold = recv_loop.simps [of read eof "take n bs" s]
  show ?case
  proof (cases "n = length bs")
    case True
    with less.prems bytes_missing_take [OF assms(1,2) less.prems(2)] unfold show ?thesis by auto
  next
    case False
    with less.prems(2) have n: "n < length bs" by simp
    define k where "k = bytes_missing (take n bs)"
    have k: "0 < k" "n + k \<le> length bs"
      using bytes_missing_take [OF assms(1,2) less.prems(2)] False by (auto simp: k_def)
    obtain r t where r: "read k s = (r, t)" by fastforce
    have ne: "r \<noteq> []" using read_empty [of k s t] r k(1) n less.prems(1) by auto
    have len: "length r \<le> length bs - n" using read_le [OF r] k(2) by linarith
    have split: "drop n bs @ rest = r @ content t" using read_content [OF r] less.prems(1) by simp
    then have "take (length r) (drop n bs @ rest) = r" by simp
    then have rr: "r = take (length r) (drop n bs)" using len by simp
    have "drop (length r) (drop n bs @ rest) = content t" using split by simp
    then have t: "content t = drop (n + length r) bs @ rest" using len by (simp add: add.commute)
    have buf: "take n bs @ r = take (n + length r) bs"
      by (subst rr) (simp add: take_add)
    have "0 < length r" using ne by simp
    then have "length bs - (n + length r) < length bs - n" using n by linarith
    from less.hyps [OF this t] len n
    show ?thesis unfolding unfold using k(1) r ne buf by (simp add: k_def)
  qed
qed

lemma apdu_recv_delivers:
  assumes "wf_apdu p" "apdu_encode p = Inr bs" "content s = bs @ rest"
  shows "\<exists>s'. apdu_recv read eof s = Some (Inr (Some p), s') \<and> content s' = rest"
proof -
  have len: "6 \<le> length bs" using apdu_header(4) [OF assms(1,2) order_refl] by simp
  obtain r t where r: "read 6 s = (r, t)" by fastforce
  have ne: "r \<noteq> []" using read_empty [of 6 s t] r len assms(3) by auto
  have le: "length r \<le> length bs" using read_le [OF r] len by linarith
  have split: "bs @ rest = r @ content t" using read_content [OF r] assms(3) by simp
  then have "take (length r) (bs @ rest) = r" by simp
  then have rr: "take (length r) bs = r" using le by simp
  have "drop (length r) (bs @ rest) = content t" using split by simp
  then have "content t = drop (length r) bs @ rest" using le by simp
  from recv_loop_from [OF assms(1,2) this le, of eof] r ne rr
    apdu_format.dec_enc [OF assms(1,2)]
  show ?thesis by (auto simp: apdu_recv_def)
qed

lemma recv_loop_consumes:
  assumes "recv_loop read eof buf s = Some (Inr buf', s')"
  shows "\<exists>b. buf' = buf @ b \<and> content s = b @ content s'"
  using assms
proof (induction "length (content s)" arbitrary: buf s rule: less_induct)
  case less
  obtain r t where r: "read (bytes_missing buf) s = (r, t)" by fastforce
  show ?case
  proof (cases "bytes_missing buf > 0 \<and> r \<noteq> []")
    case True
    then have "length (content t) < length (content s)" using read_content [OF r] by simp
    moreover have "recv_loop read eof (buf @ r) t = Some (Inr buf', s')"
      using less.prems r True by (simp add: recv_loop.simps [of read eof buf])
    ultimately obtain b where "buf' = (buf @ r) @ b" "content t = b @ content s'"
      using less.hyps by blast
    with read_content [OF r] show ?thesis by simp
  next
    case False
    with less.prems r show ?thesis
      by (auto simp: recv_loop.simps [of read eof buf] Let_def split: if_splits)
  qed
qed

text \<open>A packet returned is exactly the bytes consumed.\<close>

lemma apdu_recv_sound:
  assumes "apdu_recv read eof s = Some (Inr (Some p), s')"
  shows "\<exists>bs. wf_apdu p \<and> apdu_encode p = Inr bs \<and> content s = bs @ content s'"
proof -
  obtain r t where r: "read 6 s = (r, t)" by fastforce
  from assms r obtain buf where buf: "recv_loop read eof r t = Some (Inr buf, s')"
    "apdu_decode buf = Inr p"
    by (auto simp: apdu_recv_def bind_r_Inr_iff split: if_splits option.splits sum.splits)
  from recv_loop_consumes [OF buf(1)] obtain b where "buf = r @ b" "content t = b @ content s'"
    by blast
  with read_content [OF r] apdu_format.enc_dec [OF buf(2)] show ?thesis by simp
qed

lemma apdu_recv_eof:
  assumes "content s = []"
  shows "\<exists>s'. apdu_recv read eof s = Some (Inr None, s') \<and> content s' = []"
proof -
  obtain r t where r: "read 6 s = (r, t)" by fastforce
  with read_content [OF r] assms show ?thesis by (simp add: apdu_recv_def)
qed

end

section \<open>The sources of the program\<close>

interpretation server_source: byte_source sr_read concat
  by unfold_locales (blast dest: sr_read_content sr_read_le sr_read_empty)+

interpretation client_source: byte_source "\<lambda>n. raw_read (Some n)" raw_content
proof unfold_locales
  fix n s b s'
  assume a: "raw_read (Some n) s = (b, s')"
  obtain ok t where f: "raw_fill_buf s = (ok, t)" by fastforce
  note facts = raw_fill_buf_content [OF f]
  show "raw_content s = b @ raw_content s'"
    using a f facts(1)
    by (auto simp: raw_read_def raw_content_def Let_def split: if_splits simp flip: append_assoc)
  show "length b \<le> n"
    using a f by (auto simp: raw_read_def Let_def split: if_splits)
next
  fix n s s'
  assume a: "raw_read (Some n) s = ([], s')"
  obtain ok t where f: "raw_fill_buf s = (ok, t)" by fastforce
  note facts = raw_fill_buf_content [OF f]
  show "n = 0 \<or> raw_content s = []"
    using a f facts by (cases ok) (auto simp: raw_read_def raw_content_def Let_def split: if_splits)
qed

interpretation server_fetch: fetcher srv_fetch concat
proof unfold_locales
  fix k s r s'
  assume "srv_fetch k s = (Inr r, s')"
  then show "r \<noteq> [] \<and> length r \<le> k \<and> concat s = r @ concat s'"
    by (auto simp: srv_fetch_def dest: sr_read_content sr_read_le split: prod.splits if_splits)
next
  fix k and s :: reader
  assume "0 < k" "k \<le> length (concat s)"
  moreover from this have "concat s \<noteq> []" by (metis leD list.size(3))
  ultimately show "\<exists>r s'. srv_fetch k s = (Inr r, s')"
    using sr_read_empty [of k s] by (cases "sr_read k s") (auto simp: srv_fetch_def)
next
  fix k and s :: reader
  assume "concat s = []"
  then show "\<exists>e s'. srv_fetch k s = (Inl e, s')"
    using sr_read_content [of k s] by (cases "sr_read k s") (auto simp: srv_fetch_def)
qed

interpretation client_fetch: fetcher raw_fetch raw_content
proof unfold_locales
  fix k s r s'
  assume "raw_fetch k s = (Inr r, s')"
  then show "r \<noteq> [] \<and> length r \<le> k \<and> raw_content s = r @ raw_content s'"
    using raw_read_exactly_spec [of k s]
    by (auto simp: raw_fetch_def split: prod.splits if_splits sum.splits)
next
  fix k s
  assume "0 < k" "k \<le> length (raw_content s)"
  then show "\<exists>r s'. raw_fetch k s = (Inr r, s')"
    using raw_read_exactly_spec [of k s] by (auto simp: raw_fetch_def)
next
  fix k s
  assume "raw_content s = []"
  then show "\<exists>e s'. raw_fetch k s = (Inl e, s')"
    using raw_read_exactly_spec [of k s] by (cases "k = 0") (auto simp: raw_fetch_def)
qed

text \<open>Every message type over both sources.\<close>

interpretation server_auth_request: message_reader srv_fetch concat
    auth_request_encode auth_request_decode "\<lambda>r :: auth_request. wf_token (ar_token r)"
  by unfold_locales

interpretation server_connect_request: message_reader srv_fetch concat
    connect_request_encode connect_request_decode "\<lambda>r :: connect_request. wf_identifier (cr_identifier r)"
  by unfold_locales

interpretation server_connect_response: message_reader srv_fetch concat
    connect_response_encode connect_response_decode "\<lambda>_. True"
  by unfold_locales

interpretation client_auth_response: message_reader raw_fetch raw_content
    auth_response_encode auth_response_decode "\<lambda>_. True"
  by unfold_locales

interpretation client_connect_request: message_reader raw_fetch raw_content
    connect_request_encode connect_request_decode "\<lambda>r :: connect_request. wf_identifier (cr_identifier r)"
  by unfold_locales

interpretation client_connect_response: message_reader raw_fetch raw_content
    connect_response_encode connect_response_decode "\<lambda>_. True"
  by unfold_locales

section \<open>Properties\<close>

text \<open>
  The server reads the connection request a probe sends, however the network cuts the
  stream into segments: \<^verbatim>\<open>read_msg\<close> returns exactly the request and leaves the bytes behind it
  unread.
\<close>

theorem server_reads_connect_request:
  assumes "wf_identifier (cr_identifier r)" "connect_request_encode r = Inr bs"
    "concat segs = bs @ rest"
  shows "\<exists>segs'. read_msg connect_request_decode segs = Some (Inr r, segs') \<and> concat segs' = rest"
  unfolding read_msg_def using assms by (rule server_connect_request.msg_loop_delivers)

theorem server_reads_connect_request_witness:
  "\<exists>bs segs'. connect_request_encode \<lparr>cr_identifier = By_SimIndex (SimIndex 3 4), cr_flags = DEFAULT\<rparr> =
     Inr bs \<and>
     read_msg connect_request_decode (map (\<lambda>b. [b]) bs @ [[9]]) =
       Some (Inr \<lparr>cr_identifier = By_SimIndex (SimIndex 3 4), cr_flags = DEFAULT\<rparr>, segs') \<and>
     concat segs' = [9]"
proof -
  let ?r = "\<lparr>cr_identifier = By_SimIndex (SimIndex 3 4), cr_flags = DEFAULT\<rparr>"
  have wf: "wf_identifier (cr_identifier ?r)" by (simp add: wf_sim_index_def wf_sim_number_def)
  from connect_request_format.enc_total [OF wf] obtain bs where
    enc: "connect_request_encode ?r = Inr bs" by blast
  have "concat (map (\<lambda>b. [b]) bs @ [[9 :: byte]]) = bs @ [9]" by (induction bs) simp_all
  from server_reads_connect_request [OF wf enc this] enc show ?thesis by blast
qed

text \<open>
  The client library reads the server's answer to a connection request, however the
  stream is cut and buffered: \<^verbatim>\<open>RawStream.read_message\<close> returns exactly the response, and the
  buffer and the socket together still hold the bytes behind it.
\<close>

theorem client_reads_connect_response:
  assumes "connect_response_encode r = Inr bs" "rs_buf s @ concat (rs_socket s) = bs @ rest"
  shows "\<exists>s'. raw_read_message connect_response_decode s = Some (Inr r, s') \<and>
    rs_buf s' @ concat (rs_socket s') = rest"
  unfolding raw_read_message_def
  using client_connect_response.msg_loop_delivers [OF TrueI assms(1), of s rest] assms(2)
  by (simp add: raw_content_def)

theorem client_reads_connect_response_witness:
  "\<exists>s'. raw_read_message connect_response_decode
     \<lparr>rs_socket = [[], [0, 7]], rs_buf = [1]\<rparr> = Some (Inr (ConnectResponse Con_Success), s') \<and>
     rs_buf s' @ concat (rs_socket s') = [7]"
  using client_reads_connect_response [of "ConnectResponse Con_Success" "[1, 0]"
      "\<lparr>rs_socket = [[], [0, 7]], rs_buf = [1]\<rparr>" "[7]"]
  by (simp add: wire)

text \<open>
  C38: The server's read loop always returns, for every parser and every input: with a message
  or with an exception, and a message only for the bytes it consumed.
\<close>

theorem read_msg_returns:
  "\<exists>res segs'. read_msg parser segs = Some (res, segs') \<and>
     (case res of
        Inl e \<Rightarrow> True
      | Inr m \<Rightarrow> \<exists>bs. concat segs = bs @ concat segs' \<and> parser bs = Inr m)"
proof -
  obtain res segs' where run: "msg_loop srv_fetch parser [] segs = Some (res, segs')"
    using server_fetch.msg_loop_total by blast
  then show ?thesis
    using server_fetch.msg_loop_consumes [of parser "[]" segs _ segs']
    by (cases res) (auto simp: read_msg_def)
qed

text \<open>\<open>n\<close> calls of the server's \<^verbatim>\<open>recv\<close>, one after the other.\<close>

primrec recv_many :: "nat \<Rightarrow> reader \<Rightarrow> (py_error + apdu_packet option) list option" where
  "recv_many 0 rd = Some []"
| "recv_many (Suc n) rd =
     (case srv_recv rd of
        None \<Rightarrow> None
      | Some (res, rd') \<Rightarrow> map_option (\<lambda>rs. res # rs) (recv_many n rd'))"

text \<open>
  C8: \<^verbatim>\<open>ApduStream.recv\<close> called again and again on a connection over which the peer sends a
  sequence of packets and then closes returns these packets, in this order, and then \<^verbatim>\<open>None\<close>,
  however the bytes are cut into segments.
\<close>

theorem apdu_stream_delivers:
  assumes "list_all2 (\<lambda>p bs. wf_apdu p \<and> apdu_encode p = Inr bs) ps bss" "concat segs = concat bss"
  shows "recv_many (length ps + 1) segs = Some (map (\<lambda>p. Inr (Some p)) ps @ [Inr None])"
  using assms
proof (induction ps bss arbitrary: segs rule: list_all2_induct)
  case Nil
  then show ?case
    using server_source.apdu_recv_eof [of segs IncompleteReadError] by (auto simp: srv_recv_def)
next
  case (Cons p ps bs bss)
  with server_source.apdu_recv_delivers [of p bs segs "concat bss" IncompleteReadError]
  obtain segs' where "srv_recv segs = Some (Inr (Some p), segs')" "concat segs' = concat bss"
    by (auto simp: srv_recv_def)
  with Cons.IH show ?case by simp
qed

theorem apdu_stream_delivers_witness:
  "recv_many 3 [[1, 0, 0], [0, 0, 1, 5, 1], [1, 0, 0, 0, 0]] =
     Some [Inr (Some (ApduPacket Op_Apdu [5])), Inr (Some (ApduPacket Op_Reset [])), Inr None]"
proof -
  let ?ps = "[ApduPacket Op_Apdu [5], ApduPacket Op_Reset []]"
  let ?bss = "[[1, 0, 0, 0, 0, 1, 5], [1, 1, 0, 0, 0, 0]] :: bytes list"
  have "apdu_encode (ApduPacket Op_Apdu [5]) = Inr [1, 0, 0, 0, 0, 1, 5]"
    "apdu_encode (ApduPacket Op_Reset []) = Inr [1, 1, 0, 0, 0, 0]"
    by code_simp+
  then have "list_all2 (\<lambda>p bs. wf_apdu p \<and> apdu_encode p = Inr bs) ?ps ?bss"
    by (simp add: wf_apdu_def)
  from apdu_stream_delivers [OF this, of "[[1, 0, 0], [0, 0, 1, 5, 1], [1, 0, 0, 0, 0]]"]
  show ?thesis by (simp add: numeral_3_eq_3)
qed

end
