(* ===== verification/Auth_Handlers.thy ===== *)
theory Auth_Handlers
  imports Wire_Types
begin

text \<open>
  The pluggable authorisation of the tunnel server: the abstract \<^verbatim>\<open>AuthHandler\<close>
  (\<^verbatim>\<open>auth_handler.py\<close>) as a record of operations over a handler state, and its built-in
  implementation \<^verbatim>\<open>MoatManagementAuth\<close> (\<^verbatim>\<open>auth_handlers/moat_management.py\<close>), which asks
  the management server over HTTP and caches the identities it learns. The locale \<open>auth_handler\<close>
  states what the server's code relies on: identities are never absent, and once learnt they
  stay.
\<close>

section \<open>The interface\<close>

datatype auth_result =
    AR_Success | AR_InvalidToken | AR_ExpiredToken | AR_Forbidden | AR_NotRegistered | AR_NotFound

text \<open>
  The truth value of an \<^verbatim>\<open>AuthResult\<close> in a condition. A plain \<^verbatim>\<open>enum.Enum\<close> defines no
  \<^verbatim>\<open>__bool__\<close>, so every member is true, whatever its value.
\<close>

definition auth_result_bool :: "auth_result \<Rightarrow> bool" where
  "auth_result_bool r = True"

record sim_ident =
  si_id :: int
  si_iccid :: "string option"
  si_imsi :: "string option"

text \<open>
  The exceptions of the server's code. \<^verbatim>\<open>QueueFull\<close> carries the connections of the queue
  entries in its \<^verbatim>\<open>args\<close>.
\<close>

datatype srv_error =
    TokenError auth_result
  | AuthError
  | SrvAssertionError
  | SrvValueError
  | SrvKeyError
  | SrvAttributeError
  | SrvNotImplementedError
  | IntegrityError
  | HttpError
  | SrvTimeoutError
  | SrvConnectionResetError
  | QueueFull "nat list"
  | Wire py_error

type_synonym ('s, 'a) act = "(srv_error, 's, 'a) eff"

record 'h handler =
  allowed_provider_registration :: "token \<Rightarrow> ('h, auth_result) act"
  allowed_sim_registration :: "token \<Rightarrow> sim_ident list \<Rightarrow> ('h, auth_result) act"
  allowed_probe_registration :: "token \<Rightarrow> ('h, auth_result) act"
  allowed_sim_request :: "token \<Rightarrow> uuid \<Rightarrow> sim_ident \<Rightarrow> ('h, auth_result) act"
  identity :: "token \<Rightarrow> ('h, uuid option) act"

section \<open>The laws the server relies on\<close>

locale auth_handler =
  fixes H :: "'h handler"
    and known :: "'h \<Rightarrow> token \<Rightarrow> uuid option"
  assumes identity_known: "known h t = Some u \<Longrightarrow> identity H t h = (Inr (Some u), h)"
    and identity_learns: "identity H t h = (Inr r, h') \<Longrightarrow> \<exists>u. r = Some u \<and> known h' t = Some u"
    and known_identity: "known h t = Some u \<Longrightarrow> known (snd (identity H t' h)) t = Some u"
    and known_provider_registration:
      "known h t = Some u \<Longrightarrow> known (snd (allowed_provider_registration H t' h)) t = Some u"
    and known_sim_registration:
      "known h t = Some u \<Longrightarrow> known (snd (allowed_sim_registration H t' sims h)) t = Some u"
    and known_probe_registration:
      "known h t = Some u \<Longrightarrow> known (snd (allowed_probe_registration H t' h)) t = Some u"
    and known_sim_request:
      "known h t = Some u \<Longrightarrow> known (snd (allowed_sim_request H t' p sim h)) t = Some u"
begin

lemmas known_kept = known_identity known_provider_registration known_sim_registration
  known_probe_registration known_sim_request

lemma identity_not_None: "identity H t h \<noteq> (Inr None, h')"
  using identity_learns by fastforce

lemma identity_stable:
  assumes "identity H t h = (Inr r, h')"
  shows "identity H t h' = (Inr r, h')"
  using identity_learns [OF assms] identity_known by blast

end

section \<open>The handler that asks the management server\<close>

datatype json =
    JNull | JBool bool | JInt int | JStr string | JList "json list" | JObj "(string \<times> json) list"

text \<open>
  The HTTP client is a parameter: \<open>post path body w\<close> is the response to a POST request, or \<open>None\<close>
  when the request raises, and the world afterwards. So are \<^verbatim>\<open>UUID(str)\<close>, \<^verbatim>\<open>str(UUID)\<close> and
  the Base64 encoding of tokens.
\<close>

record http_response =
  res_status :: int
  res_json :: json

record 'w mgmt_env =
  env_post :: "string \<Rightarrow> json \<Rightarrow> 'w \<Rightarrow> http_response option \<times> 'w"
  env_uuid_of_str :: "string \<Rightarrow> uuid option"
  env_str_of_uuid :: "uuid \<Rightarrow> string"
  env_base64 :: "bytes \<Rightarrow> string"

record 'w moat_auth =
  id_cache :: "token \<Rightarrow> uuid option"
  world :: 'w

text \<open>What \<^verbatim>\<open>_post\<close> returns: an \<^verbatim>\<open>AuthResult\<close> for 403 and 404, else the decoded body.\<close>

datatype post_result = PR_Auth auth_result | PR_Json json

definition process_result :: "post_result \<Rightarrow> auth_result" where
  "process_result res = (if res = PR_Json (JBool True) then AR_Success else AR_Forbidden)"

definition http_success :: "int \<Rightarrow> bool" where
  "http_success c \<longleftrightarrow> 200 \<le> c \<and> c \<le> 299"

definition moat_post ::
  "'w mgmt_env \<Rightarrow> string \<Rightarrow> json \<Rightarrow> ('w moat_auth, post_result) act" where
  "moat_post env path body s =
     (case env_post env path body (world s) of
        (None, w) \<Rightarrow> (Inl HttpError, s\<lparr>world := w\<rparr>)
      | (Some res, w) \<Rightarrow>
          ((if res_status res = 403 then Inr (PR_Auth AR_Forbidden)
            else if res_status res = 404 then Inr (PR_Auth AR_NotFound)
            else if \<not> http_success (res_status res) then Inl SrvAssertionError
            else Inr (PR_Json (res_json res))), s\<lparr>world := w\<rparr>))"

definition token_json :: "'w mgmt_env \<Rightarrow> token \<Rightarrow> json" where
  "token_json env t = JStr (env_base64 env (as_bytes t))"

definition opt_str_json :: "string option \<Rightarrow> json" where
  "opt_str_json s = (case s of None \<Rightarrow> JNull | Some x \<Rightarrow> JStr x)"

text \<open>\<^verbatim>\<open>dataclasses.asdict\<close> of a \<^verbatim>\<open>SimIdent\<close>.\<close>

definition sim_ident_json :: "sim_ident \<Rightarrow> json" where
  "sim_ident_json s = JObj
     [(''id'', JInt (si_id s)), (''iccid'', opt_str_json (si_iccid s)),
      (''imsi'', opt_str_json (si_imsi s))]"

definition moat_allowed_provider_registration ::
  "'w mgmt_env \<Rightarrow> token \<Rightarrow> ('w moat_auth, auth_result) act" where
  "moat_allowed_provider_registration env t =
     bnd (moat_post env ''/allowed-provider-registration'' (token_json env t))
       (\<lambda>res. ret (process_result res))"

definition moat_allowed_sim_registration ::
  "'w mgmt_env \<Rightarrow> token \<Rightarrow> sim_ident list \<Rightarrow> ('w moat_auth, auth_result) act" where
  "moat_allowed_sim_registration env t sims =
     bnd (moat_post env ''/allowed-sim-registration''
           (JObj [(''token'', token_json env t), (''sims'', JList (map sim_ident_json sims))]))
       (\<lambda>res. ret (process_result res))"

definition moat_allowed_probe_registration ::
  "'w mgmt_env \<Rightarrow> token \<Rightarrow> ('w moat_auth, auth_result) act" where
  "moat_allowed_probe_registration env t =
     bnd (moat_post env ''/allowed-probe-registration'' (token_json env t))
       (\<lambda>res. ret (process_result res))"

definition moat_allowed_sim_request ::
  "'w mgmt_env \<Rightarrow> token \<Rightarrow> uuid \<Rightarrow> sim_ident \<Rightarrow> ('w moat_auth, auth_result) act" where
  "moat_allowed_sim_request env t provider_id sim_id =
     bnd (moat_post env ''/allowed-sim-request''
           (JObj [(''token'', token_json env t),
                  (''request'', JObj
                    [(''provider_id'', JStr (env_str_of_uuid env provider_id)),
                     (''sim'', sim_ident_json sim_id)])]))
       (\<lambda>res. ret (process_result res))"

definition moat_identity :: "'w mgmt_env \<Rightarrow> token \<Rightarrow> ('w moat_auth, uuid option) act" where
  "moat_identity env t s =
     (case id_cache s t of
        Some u \<Rightarrow> (Inr (Some u), s)
      | None \<Rightarrow>
          (case moat_post env ''/identity'' (token_json env t) s of
             (Inl e, s') \<Rightarrow> (Inl e, s')
           | (Inr (PR_Json (JStr res)), s') \<Rightarrow>
               (case env_uuid_of_str env res of
                  None \<Rightarrow> (Inl SrvValueError, s')
                | Some u \<Rightarrow> (Inr (Some u), s'\<lparr>id_cache := (id_cache s')(t \<mapsto> u)\<rparr>))
           | (Inr _, s') \<Rightarrow> (Inl SrvValueError, s')))"

definition moat_handler :: "'w mgmt_env \<Rightarrow> 'w moat_auth handler" where
  "moat_handler env =
     \<lparr>allowed_provider_registration = moat_allowed_provider_registration env,
      allowed_sim_registration = moat_allowed_sim_registration env,
      allowed_probe_registration = moat_allowed_probe_registration env,
      allowed_sim_request = moat_allowed_sim_request env,
      identity = moat_identity env\<rparr>"

lemma moat_post_cache: "moat_post env path body s = (r, s') \<Longrightarrow> id_cache s' = id_cache s"
  by (auto simp: moat_post_def split: prod.splits option.splits)

lemma post_verdict_cache:
  "id_cache (snd (bnd (moat_post env path body) (\<lambda>res. ret (f res)) s)) = id_cache s"
proof -
  obtain r s' where post: "moat_post env path body s = (r, s')" by fastforce
  from moat_post_cache [OF this] post show ?thesis by (cases r) (simp_all add: bnd_def)
qed

lemma moat_identity_cache:
  assumes "moat_identity env t s = (r, s')"
  shows "id_cache s \<subseteq>\<^sub>m id_cache s'"
    "r = Inr x \<Longrightarrow> \<exists>u. x = Some u \<and> id_cache s' t = Some u"
  using assms moat_post_cache [of env "''/identity''" "token_json env t" s]
  by (auto simp: moat_identity_def map_le_def dom_def
      split: option.splits prod.splits sum.splits post_result.splits json.splits)
    (auto dest: sym)

interpretation moat_auth: auth_handler "moat_handler env" id_cache for env :: "'w mgmt_env"
proof unfold_locales
  fix h :: "'w moat_auth" and t r h'
  assume "identity (moat_handler env) t h = (Inr r, h')"
  then show "\<exists>u. r = Some u \<and> id_cache h' t = Some u"
    using moat_identity_cache(2) [of env t h "Inr r" h'] by (simp add: moat_handler_def)
next
  fix h :: "'w moat_auth" and t u t'
  assume "id_cache h t = Some u"
  then show "id_cache (snd (identity (moat_handler env) t' h)) t = Some u"
    using moat_identity_cache(1) [of env t' h]
    by (cases "moat_identity env t' h") (force simp: moat_handler_def map_le_def dom_def)
qed (simp_all add: moat_handler_def moat_identity_def post_verdict_cache
    moat_allowed_provider_registration_def moat_allowed_sim_registration_def
    moat_allowed_probe_registration_def moat_allowed_sim_request_def)

text \<open>
  A handler that reports its verdicts as results: \<^verbatim>\<open>TokenError\<close> is the server's own
  exception, which no operation of the handler raises.
\<close>

locale reporting_handler = auth_handler +
  assumes provider_registration_raises:
      "fst (allowed_provider_registration H t h) \<noteq> Inl (TokenError e)"
    and probe_registration_raises: "fst (allowed_probe_registration H t h) \<noteq> Inl (TokenError e)"
    and identity_raises: "fst (identity H t h) \<noteq> Inl (TokenError e)"

lemma moat_post_raises: "fst (moat_post env path body s) \<noteq> Inl (TokenError e)"
  by (auto simp: moat_post_def split: prod.splits option.splits)

lemma moat_verdict_raises:
  "fst (bnd (moat_post env path body) (\<lambda>res. ret (f res)) s) \<noteq> Inl (TokenError e)"
  using moat_post_raises [of env path body s e]
  by (auto simp: bnd_def split: prod.splits sum.splits)

lemma moat_identity_raises: "fst (moat_identity env t s) \<noteq> Inl (TokenError e)"
proof (cases "id_cache s t")
  case None
  obtain r s' where post: "moat_post env ''/identity'' (token_json env t) s = (r, s')" by fastforce
  with moat_post_raises [of env "''/identity''" "token_json env t" s e] None show ?thesis
    by (auto simp: moat_identity_def split: sum.splits post_result.splits json.splits option.splits)
qed (simp add: moat_identity_def)

interpretation moat_reporting: reporting_handler "moat_handler env" id_cache for env :: "'w mgmt_env"
  by unfold_locales (simp_all add: moat_handler_def moat_identity_raises moat_verdict_raises
      moat_allowed_provider_registration_def moat_allowed_probe_registration_def)

end
