(* ===== verification/Tunnel_Db.thy ===== *)
theory Tunnel_Db
  imports Auth_Handlers
begin

text \<open>
  The tunnel server's database (\<^verbatim>\<open>models.py\<close>) and the operations on it (\<^verbatim>\<open>db.py\<close>). A table is
  the list of its rows in the order a query returns them. \<open>wf_db\<close> is what the schema declares:
  primary keys, the foreign key from SIMs to providers, and the unique ICCIDs and IMSIs (NULLs
  never clash). Inserting a row checks it and raises \<^verbatim>\<open>IntegrityError\<close>; deleting a provider
  deletes its SIMs, the schema's \<^verbatim>\<open>ON DELETE CASCADE\<close>.
\<close>

section \<open>Rows\<close>

record provider_row =
  p_id :: uuid
  p_allow_reregistration :: bool
  p_available :: int
  p_last_active :: "time option"

record sim_row =
  s_id :: int
  s_iccid :: "string option"
  s_imsi :: "string option"
  s_in_use :: bool
  s_provider :: uuid

datatype sender = Sender_Probe | Sender_Provider

record apdu_log =
  l_provider :: uuid
  l_probe :: uuid
  l_sim_id :: int
  l_sim_iccid :: "string option"
  l_sim_imsi :: "string option"
  l_command :: apdu_op
  l_payload :: bytes
  l_sender :: sender

record database =
  providers :: "provider_row list"
  sims :: "sim_row list"
  apdu_logs :: "apdu_log list"

definition is_expired :: "provider_row \<Rightarrow> time option \<Rightarrow> time \<Rightarrow> bool" where
  "is_expired p ttl now =
     (case ttl of
        None \<Rightarrow> False
      | Some ttl \<Rightarrow> (case p_last_active p of None \<Rightarrow> False | Some t \<Rightarrow> now - t > ttl))"

section \<open>Queries and updates\<close>

definition get_provider :: "database \<Rightarrow> uuid \<Rightarrow> provider_row option" where
  "get_provider d pid = find (\<lambda>p. p_id p = pid) (providers d)"

definition get_sim_row :: "database \<Rightarrow> uuid \<Rightarrow> int \<Rightarrow> sim_row option" where
  "get_sim_row d pid i = find (\<lambda>s. s_provider s = pid \<and> s_id s = i) (sims d)"

definition update_provider :: "(provider_row \<Rightarrow> provider_row) \<Rightarrow> uuid \<Rightarrow> database \<Rightarrow> database" where
  "update_provider f pid d =
     d\<lparr>providers := map (\<lambda>p. if p_id p = pid then f p else p) (providers d)\<rparr>"

definition update_sim :: "(sim_row \<Rightarrow> sim_row) \<Rightarrow> uuid \<Rightarrow> int \<Rightarrow> database \<Rightarrow> database" where
  "update_sim f pid i d =
     d\<lparr>sims := map (\<lambda>s. if s_provider s = pid \<and> s_id s = i then f s else s) (sims d)\<rparr>"

definition delete_sim :: "sim_row \<Rightarrow> database \<Rightarrow> database" where
  "delete_sim s d =
     d\<lparr>sims := filter (\<lambda>t. \<not> (s_provider t = s_provider s \<and> s_id t = s_id s)) (sims d)\<rparr>"

definition delete_provider :: "provider_row \<Rightarrow> database \<Rightarrow> database" where
  "delete_provider p d =
     d\<lparr>providers := filter (\<lambda>q. p_id q \<noteq> p_id p) (providers d),
       sims := filter (\<lambda>s. s_provider s \<noteq> p_id p) (sims d)\<rparr>"

definition clashes :: "sim_row \<Rightarrow> sim_row \<Rightarrow> bool" where
  "clashes s t \<longleftrightarrow>
     s_provider s = s_provider t \<and> s_id s = s_id t \<or>
     s_iccid s \<noteq> None \<and> s_iccid s = s_iccid t \<or>
     s_imsi s \<noteq> None \<and> s_imsi s = s_imsi t"

definition insert_sim :: "sim_row \<Rightarrow> database \<Rightarrow> srv_error + database" where
  "insert_sim s d =
     (if list_ex (clashes s) (sims d) \<or> get_provider d (s_provider s) = None
      then Inl IntegrityError
      else Inr (d\<lparr>sims := sims d @ [s]\<rparr>))"

section \<open>Operations\<close>

definition mark_provider_available :: "uuid \<Rightarrow> database \<Rightarrow> srv_error + database" where
  "mark_provider_available pid d =
     (case get_provider d pid of
        None \<Rightarrow> Inl SrvAssertionError
      | Some _ \<Rightarrow> Inr (update_provider (\<lambda>p. p\<lparr>p_available := p_available p + 1\<rparr>) pid d))"

definition mark_provider_unavailable :: "uuid \<Rightarrow> database \<Rightarrow> srv_error + database" where
  "mark_provider_unavailable pid d =
     (case get_provider d pid of
        None \<Rightarrow> Inl SrvAssertionError
      | Some _ \<Rightarrow> Inr (update_provider (\<lambda>p. p\<lparr>p_available := p_available p - 1\<rparr>) pid d))"

definition sim_used :: "uuid \<Rightarrow> int \<Rightarrow> database \<Rightarrow> srv_error + database" where
  "sim_used pid i d =
     (case get_sim_row d pid i of
        None \<Rightarrow> Inl SrvAssertionError
      | Some _ \<Rightarrow> Inr (update_sim (\<lambda>s. s\<lparr>s_in_use := True\<rparr>) pid i d))"

definition sim_unused :: "uuid \<Rightarrow> int \<Rightarrow> database \<Rightarrow> srv_error + database" where
  "sim_unused pid i d =
     (case get_sim_row d pid i of
        None \<Rightarrow> Inr d
      | Some _ \<Rightarrow> Inr (update_sim (\<lambda>s. s\<lparr>s_in_use := False\<rparr>) pid i d))"

definition get_sim_ids ::
  "'h handler \<Rightarrow> token \<Rightarrow> database \<Rightarrow> ('h, (int \<times> string option \<times> string option) list) act" where
  "get_sim_ids H session_token d =
     bnd (identity H session_token) (\<lambda>provider_id.
       case provider_id of
         None \<Rightarrow> ret []
       | Some pid \<Rightarrow>
           (case get_provider d pid of
              None \<Rightarrow> ret []
            | Some p \<Rightarrow>
                ret (map (\<lambda>s. (s_id s, s_iccid s, s_imsi s))
                  (filter (\<lambda>s. s_provider s = p_id p) (sims d)))))"

definition log_apdu ::
  "uuid \<Rightarrow> uuid \<Rightarrow> sim_row \<Rightarrow> apdu_packet \<Rightarrow> sender \<Rightarrow> database \<Rightarrow> database" where
  "log_apdu provider_id probe_id sim apdu sent_by d =
     d\<lparr>apdu_logs := apdu_logs d @
        [\<lparr>l_provider = provider_id, l_probe = probe_id, l_sim_id = s_id sim,
          l_sim_iccid = s_iccid sim, l_sim_imsi = s_imsi sim, l_command = apdu_op apdu,
          l_payload = apdu_payload apdu, l_sender = sent_by\<rparr>]\<rparr>"

section \<open>The schema\<close>

definition sim_table_ok :: "sim_row list \<Rightarrow> bool" where
  "sim_table_ok ss \<longleftrightarrow> sorted_wrt (\<lambda>s t. \<not> clashes s t) ss"

definition wf_db :: "database \<Rightarrow> bool" where
  "wf_db d \<longleftrightarrow>
     distinct (map p_id (providers d)) \<and> sim_table_ok (sims d) \<and>
     list_all (\<lambda>s. get_provider d (s_provider s) \<noteq> None) (sims d)"

lemma clashes_sym: "clashes s t \<longleftrightarrow> clashes t s"
  unfolding clashes_def by metis

lemma clashes_refl [simp]: "clashes s s"
  by (simp add: clashes_def)

lemma sim_table_ok_filter [db]: "sim_table_ok ss \<Longrightarrow> sim_table_ok (filter P ss)"
  by (simp add: sim_table_ok_def sorted_wrt_filter)

lemma sim_table_ok_snoc [db]:
  "sim_table_ok (ss @ [s]) \<longleftrightarrow> sim_table_ok ss \<and> \<not> list_ex (clashes s) ss"
  by (auto simp: sim_table_ok_def sorted_wrt_append list_ex_iff clashes_sym)

lemma sim_table_ok_unique:
  "sim_table_ok ss \<Longrightarrow> s \<in> set ss \<Longrightarrow> t \<in> set ss \<Longrightarrow> clashes s t \<Longrightarrow> s = t"
  unfolding sim_table_ok_def
  by (induction ss) (auto simp: clashes_sym)

lemma get_provider_None [db]:
  "get_provider d pid = None \<longleftrightarrow> pid \<notin> p_id ` set (providers d)"
  by (auto simp: get_provider_def find_None_iff)

lemma get_provider_SomeD: "get_provider d pid = Some p \<Longrightarrow> p \<in> set (providers d) \<and> p_id p = pid"
  by (auto simp: get_provider_def find_Some_iff)

lemma get_sim_row_SomeD:
  "get_sim_row d pid i = Some s \<Longrightarrow> s \<in> set (sims d) \<and> s_provider s = pid \<and> s_id s = i"
  by (auto simp: get_sim_row_def find_Some_iff)

lemma wf_db_iff [db]:
  "wf_db d \<longleftrightarrow> distinct (map p_id (providers d)) \<and> sim_table_ok (sims d) \<and>
     s_provider ` set (sims d) \<subseteq> p_id ` set (providers d)"
  unfolding wf_db_def list_all_iff get_provider_None by blast

lemma delete_sim_wf: "wf_db d \<Longrightarrow> wf_db (delete_sim s d)"
  by (auto simp: db delete_sim_def)

lemma delete_provider_wf: "wf_db d \<Longrightarrow> wf_db (delete_provider p d)"
  by (auto simp: db delete_provider_def distinct_map_filter)

lemma insert_sim_wf: "wf_db d \<Longrightarrow> insert_sim s d = Inr d' \<Longrightarrow> wf_db d'"
  unfolding insert_sim_def by (clarsimp simp: db simp del: not_None_eq split: if_splits)

lemma get_provider_update [simp]:
  assumes "\<And>p. p_id (f p) = p_id p"
  shows "get_provider (update_provider f pid d) pid' =
    map_option (\<lambda>p. if p_id p = pid then f p else p) (get_provider d pid')"
proof -
  have "find (\<lambda>p. p_id p = pid') (map (\<lambda>p. if p_id p = pid then f p else p) ps) =
      map_option (\<lambda>p. if p_id p = pid then f p else p) (find (\<lambda>p. p_id p = pid') ps)" for ps
    by (induction ps) (auto simp: assms)
  then show ?thesis by (simp add: get_provider_def update_provider_def)
qed

lemma update_provider_wf:
  assumes "wf_db d" "\<And>p. p_id (f p) = p_id p"
  shows "wf_db (update_provider f pid d)"
proof -
  let ?g = "\<lambda>p. if p_id p = pid then f p else p"
  have ids: "map p_id (map ?g (providers d)) = map p_id (providers d)"
    by (rule nth_equalityI) (simp_all add: assms(2))
  have img: "p_id ` set (map ?g (providers d)) = p_id ` set (providers d)"
    using arg_cong [OF ids, of set] by (simp only: set_map)
  have "providers (update_provider f pid d) = map ?g (providers d)"
    "sims (update_provider f pid d) = sims d"
    by (simp_all add: update_provider_def)
  with assms(1) show ?thesis
    unfolding wf_db_iff by (simp only: ids img)
qed

end
