(* ===== verification/Tunnel_Auth.thy ===== *)
theory Tunnel_Auth
  imports Tunnel_Db
begin

text \<open>
  The tunnel server's authorisation logic (\<^verbatim>\<open>moatt_server/auth.py\<close>): registering a provider's
  SIMs, deregistration, the check a connecting client must pass, and the lookup of the SIM a
  probe asks for. A call works on the database and the authorisation handler together; an
  exception leaves the transaction, so \<open>in_transaction\<close> restores the database, as
  \<^verbatim>\<open>session.begin()\<close> does.
\<close>

record 'h srv =
  srv_db :: database
  srv_h :: 'h

definition lift_h :: "('h, 'a) act \<Rightarrow> ('h srv, 'a) act" where
  "lift_h m s = (case m (srv_h s) of (r, h) \<Rightarrow> (r, s\<lparr>srv_h := h\<rparr>))"

definition query :: "(database \<Rightarrow> 'a) \<Rightarrow> ('h srv, 'a) act" where
  "query f s = (Inr (f (srv_db s)), s)"

definition update :: "(database \<Rightarrow> database) \<Rightarrow> ('h srv, unit) act" where
  "update f s = (Inr (), s\<lparr>srv_db := f (srv_db s)\<rparr>)"

definition try_update :: "(database \<Rightarrow> srv_error + database) \<Rightarrow> ('h srv, unit) act" where
  "try_update f s = (case f (srv_db s) of Inl e \<Rightarrow> (Inl e, s) | Inr d \<Rightarrow> (Inr (), s\<lparr>srv_db := d\<rparr>))"

definition in_transaction :: "('h srv, 'a) act \<Rightarrow> ('h srv, 'a) act" where
  "in_transaction m s =
     (case m s of (Inl e, s') \<Rightarrow> (Inl e, s'\<lparr>srv_db := srv_db s\<rparr>) | (Inr x, s') \<Rightarrow> (Inr x, s'))"

lemma act_srv_simps [simp]:
  "query f s = (Inr (f (srv_db s)), s)"
  "update g s = (Inr (), s\<lparr>srv_db := g (srv_db s)\<rparr>)"
  by (simp_all add: query_def update_def)

lemma bnd_query [simp]: "bnd (query f) k s = k (f (srv_db s)) s"
  by (simp add: bnd_def)

lemma bnd_update [simp]: "bnd (update g) k s = k () (s\<lparr>srv_db := g (srv_db s)\<rparr>)"
  by (simp add: bnd_def)

lemma bnd_ret [simp]: "bnd (ret x) k s = k x s"
  by (simp add: bnd_def)

lemma bnd_throw [simp]: "bnd (throw e) k s = (Inl e, s)"
  by (simp add: bnd_def)

section \<open>Errors a client sees\<close>

fun to_auth_status :: "auth_result \<Rightarrow> srv_error + auth_status" where
  "to_auth_status AR_Success = Inr Auth_Success"
| "to_auth_status AR_InvalidToken = Inr Auth_Unauthorized"
| "to_auth_status AR_ExpiredToken = Inr Auth_Unauthorized"
| "to_auth_status AR_Forbidden = Inr Auth_Unauthorized"
| "to_auth_status AR_NotRegistered = Inr Auth_NotRegistered"
| "to_auth_status AR_NotFound = Inl SrvNotImplementedError"

section \<open>Registering SIM cards\<close>

text \<open>A \<^verbatim>\<open>dict\<close> of the requested SIMs: distinct ids, in insertion order.\<close>

type_synonym sims_in = "(int \<times> iccid option \<times> imsi option) list"
type_synonym sims_dict = "(int \<times> string option \<times> string option) list"

definition sim_strings :: "sims_in \<Rightarrow> sims_dict" where
  "sim_strings sims_in =
     map (\<lambda>(k, iccid, imsi). (k, map_option iccid_str iccid, map_option imsi_str imsi)) sims_in"

definition sim_idents :: "sims_dict \<Rightarrow> sim_ident list" where
  "sim_idents req = map (\<lambda>(k, iccid, imsi). \<lparr>si_id = k, si_iccid = iccid, si_imsi = imsi\<rparr>) req"

definition add_provider :: "uuid \<Rightarrow> time \<Rightarrow> database \<Rightarrow> database" where
  "add_provider pid now d =
     d\<lparr>providers := providers d @
        [\<lparr>p_id = pid, p_allow_reregistration = True, p_available = 0, p_last_active = Some now\<rparr>]\<rparr>"

definition removed_sims :: "uuid \<Rightarrow> int list \<Rightarrow> database \<Rightarrow> sim_row list" where
  "removed_sims pid ids d = filter (\<lambda>s. s_provider s = pid \<and> s_id s \<notin> set ids) (sims d)"

text \<open>
  The rows that share an id, an ICCID or an IMSI with the request, each with its provider, which
  is loaded with it. A NULL is in no SQL \<^verbatim>\<open>IN\<close> list.
\<close>

definition existing_sims :: "sims_dict \<Rightarrow> database \<Rightarrow> (sim_row \<times> provider_row option) list" where
  "existing_sims req d =
     map (\<lambda>s. (s, get_provider d (s_provider s)))
       (filter (\<lambda>s. s_id s \<in> fst ` set req \<or>
          s_iccid s \<noteq> None \<and> s_iccid s \<in> (fst \<circ> snd) ` set req \<or>
          s_imsi s \<noteq> None \<and> s_imsi s \<in> (snd \<circ> snd) ` set req) (sims d))"

text \<open>
  One round of the loop over the existing SIMs; the accumulator is the database, the flag
  \<^verbatim>\<open>modified\<close> and the ids still to be created.
\<close>

definition reconcile_sim ::
  "uuid \<Rightarrow> time option \<Rightarrow> time \<Rightarrow> sims_dict \<Rightarrow> sim_row \<times> provider_row option \<Rightarrow>
    database \<times> bool \<times> int list \<Rightarrow> srv_error + (database \<times> bool \<times> int list)" where
  "reconcile_sim provider_id expiration now req row acc =
     (case (row, acc) of
        ((sim, owner), (d, modified, new_ids)) \<Rightarrow>
          (case owner of
             None \<Rightarrow> Inl SrvAttributeError
           | Some owner \<Rightarrow>
               if p_id owner = provider_id then
                 (case map_of req (s_id sim) of
                    None \<Rightarrow> Inl SrvKeyError
                  | Some (iccid, imsi) \<Rightarrow>
                      if s_iccid sim \<noteq> iccid \<or> s_imsi sim \<noteq> imsi
                      then Inr (delete_sim sim d, True, new_ids)
                      else Inr (d, modified, filter (\<lambda>i. i \<noteq> s_id sim) new_ids))
               else if is_expired owner expiration now then
                 Inr (delete_provider owner d, modified, new_ids)
               else if p_allow_reregistration owner then
                 Inr (delete_sim sim d, modified, new_ids)
               else Inl AuthError))"

fun reconcile ::
  "uuid \<Rightarrow> time option \<Rightarrow> time \<Rightarrow> sims_dict \<Rightarrow> (sim_row \<times> provider_row option) list \<Rightarrow>
    database \<times> bool \<times> int list \<Rightarrow> srv_error + (database \<times> bool \<times> int list)" where
  "reconcile pid expiration now req [] acc = Inr acc"
| "reconcile pid expiration now req (row # rows) acc =
     bind_r (reconcile_sim pid expiration now req row acc) (reconcile pid expiration now req rows)"

fun create_sims :: "uuid \<Rightarrow> sims_dict \<Rightarrow> int list \<Rightarrow> database \<Rightarrow> srv_error + database" where
  "create_sims pid req [] d = Inr d"
| "create_sims pid req (i # ids) d =
     (case map_of req i of
        None \<Rightarrow> Inl SrvKeyError
      | Some (iccid, imsi) \<Rightarrow>
          bind_r (insert_sim \<lparr>s_id = i, s_iccid = iccid, s_imsi = imsi, s_in_use = False,
              s_provider = pid\<rparr> d) (create_sims pid req ids))"

text \<open>The database part of \<^verbatim>\<open>register_provider\<close>, once the handler has answered.\<close>

definition register_sims ::
  "time option \<Rightarrow> time \<Rightarrow> uuid \<Rightarrow> sims_dict \<Rightarrow> database \<Rightarrow> srv_error + (bool \<times> database)" where
  "register_sims expiration now provider_id req d0 =
     (let new_provider = (get_provider d0 provider_id = None);
          d1 = (if new_provider then add_provider provider_id now d0 else d0);
          ids = map fst req;
          removed = removed_sims provider_id ids d1;
          modified = (new_provider \<or> length removed > 0);
          d2 = fold delete_sim removed d1 in
      if length req = 0 then Inr (modified, d2)
      else
        bind_r (reconcile provider_id expiration now req (existing_sims req d2) (d2, modified, ids))
          (\<lambda>(d3, modified, new_ids).
            bind_r (create_sims provider_id req new_ids d3)
              (\<lambda>d4. Inr (modified \<or> length new_ids > 0, d4))))"

definition register_provider ::
  "'h handler \<Rightarrow> time option \<Rightarrow> time \<Rightarrow> token \<Rightarrow> sims_in \<Rightarrow> ('h srv, bool) act" where
  "register_provider H expiration now session_token sims_in =
     (let req = sim_strings sims_in in
      bnd (lift_h (allowed_sim_registration H session_token (sim_idents req))) (\<lambda>auth_res.
      if auth_res \<noteq> AR_Success then throw (TokenError auth_res)
      else
        bnd (lift_h (identity H session_token)) (\<lambda>provider_id.
        case provider_id of
          None \<Rightarrow> throw (TokenError AR_InvalidToken)
        | Some pid \<Rightarrow>
            (\<lambda>s. case register_sims expiration now pid req (srv_db s) of
                   Inl e \<Rightarrow> (Inl e, s)
                 | Inr (modified, d) \<Rightarrow> (Inr modified, s\<lparr>srv_db := d\<rparr>)))))"

definition deregister_provider :: "'h handler \<Rightarrow> token \<Rightarrow> ('h srv, unit) act" where
  "deregister_provider H session_token =
     bnd (lift_h (identity H session_token)) (\<lambda>prov_id.
       case prov_id of
         None \<Rightarrow> ret ()
       | Some pid \<Rightarrow>
           bnd (query (\<lambda>d. get_provider d pid)) (\<lambda>provider.
             case provider of None \<Rightarrow> ret () | Some p \<Rightarrow> update (delete_provider p)))"

section \<open>Checks\<close>

definition register_probe :: "'h handler \<Rightarrow> token \<Rightarrow> ('h srv, unit) act" where
  "register_probe H t =
     bnd (lift_h (allowed_probe_registration H t)) (\<lambda>res.
       if res \<noteq> AR_Success then throw (TokenError res) else ret ())"

definition provider_registered :: "'h handler \<Rightarrow> token \<Rightarrow> ('h srv, unit) act" where
  "provider_registered H t =
     bnd (lift_h (allowed_provider_registration H t)) (\<lambda>res.
       if res \<noteq> AR_Success then throw (TokenError res)
       else
         bnd (lift_h (identity H t)) (\<lambda>ident.
           case ident of
             None \<Rightarrow> throw (TokenError AR_InvalidToken)
           | Some pid \<Rightarrow>
               bnd (query (\<lambda>d. get_provider d pid)) (\<lambda>provider.
                 if provider = None then throw (TokenError AR_NotRegistered) else ret ())))"

text \<open>
  The row an identifier selects. An index is an offset into all SIMs ordered by id: the query
  has no condition on the provider.
\<close>

definition offset_row :: "int \<Rightarrow> 'a list \<Rightarrow> 'a option" where
  "offset_row i xs = (if 0 \<le> i \<and> nat i < length xs then Some (xs ! nat i) else None)"

fun select_sim :: "sim_identifier \<Rightarrow> database \<Rightarrow> sim_row option" where
  "select_sim (By_SimId (SimId prov_id i)) d = get_sim_row d prov_id i"
| "select_sim (By_Iccid i) d = find (\<lambda>s. s_iccid s = Some (iccid_str i)) (sims d)"
| "select_sim (By_Imsi i) d = find (\<lambda>s. s_imsi s = Some (imsi_str i)) (sims d)"
| "select_sim (By_SimIndex (SimIndex prov_id index)) d = offset_row index (sort_key s_id (sims d))"

definition get_sim ::
  "'h handler \<Rightarrow> token \<Rightarrow> sim_identifier \<Rightarrow> ('h srv, sim_row option) act" where
  "get_sim H t identifier =
     bnd (query (select_sim identifier)) (\<lambda>sim.
       case sim of
         None \<Rightarrow> throw AuthError
       | Some sim \<Rightarrow>
           bnd (lift_h (allowed_sim_request H t (s_provider sim)
                  \<lparr>si_id = s_id sim, si_iccid = s_iccid sim, si_imsi = s_imsi sim\<rparr>)) (\<lambda>allowed.
             if \<not> auth_result_bool allowed then throw AuthError else ret (Some sim)))"

section \<open>Correctness of the registration\<close>

text \<open>The request as the REST layer's validation leaves it: no id, ICCID or IMSI twice.\<close>

definition somes :: "'a option list \<Rightarrow> 'a list" where
  "somes xs = map the (filter (\<lambda>x. x \<noteq> None) xs)"

definition req_ok :: "sims_dict \<Rightarrow> bool" where
  "req_ok req \<longleftrightarrow> distinct (map fst req) \<and>
     distinct (somes (map (fst \<circ> snd) req)) \<and> distinct (somes (map (snd \<circ> snd) req))"

definition touches :: "sims_dict \<Rightarrow> sim_row \<Rightarrow> bool" where
  "touches req s \<longleftrightarrow> s_id s \<in> fst ` set req \<or>
     s_iccid s \<noteq> None \<and> s_iccid s \<in> (fst \<circ> snd) ` set req \<or>
     s_imsi s \<noteq> None \<and> s_imsi s \<in> (snd \<circ> snd) ` set req"

definition keeps :: "uuid \<Rightarrow> sims_dict \<Rightarrow> sim_row \<Rightarrow> bool" where
  "keeps pid req s \<longleftrightarrow> s_provider s = pid \<and> map_of req (s_id s) = Some (s_iccid s, s_imsi s)"

lemma somes_unique:
  assumes "distinct (somes (map f xs))" "x \<in> set xs" "y \<in> set xs" "f x = f y" "f x \<noteq> None"
  shows "x = y"
proof -
  have "somes (map f xs) = map (the \<circ> f) (filter (\<lambda>x. f x \<noteq> None) xs)"
    by (simp add: somes_def filter_map comp_def)
  then have inj: "inj_on (the \<circ> f) (set (filter (\<lambda>x. f x \<noteq> None) xs))"
    using assms(1) by (simp add: distinct_map)
  show ?thesis by (rule inj_onD [OF inj]) (use assms(2-5) in auto)
qed

lemma req_unique:
  assumes "req_ok req" "map_of req i = Some (a, b)" "map_of req j = Some (c, d)"
    "a \<noteq> None \<and> a = c \<or> b \<noteq> None \<and> b = d"
  shows "i = j"
proof -
  have in_req: "(i, a, b) \<in> set req" "(j, c, d) \<in> set req"
    using assms(2,3) by (auto dest: map_of_SomeD)
  have "(i, a, b) = (j, c, d)"
    using assms(1,4) in_req somes_unique [of "fst \<circ> snd" req "(i, a, b)" "(j, c, d)"]
      somes_unique [of "snd \<circ> snd" req "(i, a, b)" "(j, c, d)"]
    by (auto simp: req_ok_def)
  then show ?thesis by simp
qed

text \<open>A row that clashes with a requested SIM is touched by the request.\<close>

lemma clash_touches:
  assumes "map_of req i = Some (a, b)"
    "clashes \<lparr>s_id = i, s_iccid = a, s_imsi = b, s_in_use = u, s_provider = pid\<rparr> s"
  shows "touches req s"
proof -
  have "(i, a, b) \<in> set req" using assms(1) by (rule map_of_SomeD)
  then have "i \<in> fst ` set req" "a \<in> (fst \<circ> snd) ` set req" "b \<in> (snd \<circ> snd) ` set req"
    by force+
  with assms(2) show ?thesis unfolding clashes_def touches_def sim_row.simps by metis
qed

lemma clash_kept:
  assumes "req_ok req" "map_of req i = Some (a, b)" "keeps pid req s"
    "clashes \<lparr>s_id = i, s_iccid = a, s_imsi = b, s_in_use = u, s_provider = pid\<rparr> s"
  shows "s_id s = i"
  using assms(3,4) req_unique [OF assms(1,2), of "s_id s" "s_iccid s" "s_imsi s"]
  by (auto simp: clashes_def keeps_def)

text \<open>Creating the new SIMs never violates a constraint once no other row is in the way.\<close>

lemma create_sims_ok:
  assumes "req_ok req" "wf_db d" "get_provider d pid \<noteq> None"
    "distinct ids" "set ids \<subseteq> fst ` set req"
    "\<forall>s \<in> set (sims d). touches req s \<longrightarrow> keeps pid req s \<and> s_id s \<notin> set ids"
  shows "\<exists>d'. create_sims pid req ids d = Inr d' \<and> wf_db d' \<and>
    providers d' = providers d \<and> apdu_logs d' = apdu_logs d \<and>
    (\<exists>new. sims d' = sims d @ new \<and> map s_id new = ids \<and>
       (\<forall>s \<in> set new. keeps pid req s \<and> \<not> s_in_use s))"
  using assms(2-6)
proof (induction ids arbitrary: d)
  case Nil
  then show ?case by simp
next
  case (Cons i ids)
  then have "map_of req i \<noteq> None" by (simp add: map_of_eq_None_iff)
  then obtain a b where ab: "map_of req i = Some (a, b)" by auto
  let ?s = "\<lparr>s_id = i, s_iccid = a, s_imsi = b, s_in_use = False, s_provider = pid\<rparr>"
  have keep: "keeps pid req ?s" using ab by (simp add: keeps_def)
  have "\<not> list_ex (clashes ?s) (sims d)"
    using Cons.prems(5) clash_touches [OF ab] clash_kept [OF assms(1) ab]
    by (fastforce simp: list_ex_iff)
  with Cons.prems(2) have ins: "insert_sim ?s d = Inr (d\<lparr>sims := sims d @ [?s]\<rparr>)"
    by (auto simp: insert_sim_def)
  let ?d = "d\<lparr>sims := sims d @ [?s]\<rparr>"
  have prov: "get_provider ?d pid \<noteq> None" using Cons.prems(2) by (simp add: get_provider_def)
  have "\<forall>s \<in> set (sims ?d). touches req s \<longrightarrow> keeps pid req s \<and> s_id s \<notin> set ids"
    using Cons.prems(3,5) keep by auto
  from Cons.IH [OF insert_sim_wf [OF Cons.prems(1) ins] prov _ _ this] Cons.prems(3,4)
  obtain d' new where "create_sims pid req ids ?d = Inr d'" "wf_db d'"
    "providers d' = providers d" "apdu_logs d' = apdu_logs d"
    "sims d' = sims d @ ?s # new" "map s_id new = ids"
    "\<forall>s \<in> set new. keeps pid req s \<and> \<not> s_in_use s"
    by auto
  with ab ins keep show ?case by (auto intro!: exI [of _ "?s # new"])
qed

text \<open>
  The loop over the existing rows. \<open>shrinks\<close> says what a round may do to the database: drop
  rows, but none that the request keeps, and never the provider itself.
\<close>

definition shrinks :: "uuid \<Rightarrow> sims_dict \<Rightarrow> database \<Rightarrow> database \<Rightarrow> bool" where
  "shrinks pid req d d' \<longleftrightarrow>
     set (sims d') \<subseteq> set (sims d) \<and> (\<forall>s \<in> set (sims d). keeps pid req s \<longrightarrow> s \<in> set (sims d')) \<and>
     get_provider d' pid = get_provider d pid \<and> apdu_logs d' = apdu_logs d \<and>
     (wf_db d \<longrightarrow> wf_db d')"

lemma shrinks_refl: "shrinks pid req d d"
  by (simp add: shrinks_def)

lemma shrinks_trans: "shrinks pid req d1 d2 \<Longrightarrow> shrinks pid req d2 d3 \<Longrightarrow> shrinks pid req d1 d3"
  unfolding shrinks_def by (metis subset_iff)

lemma shrinks_delete_sim:
  assumes "sim_table_ok (sims d0)" "set (sims d) \<subseteq> set (sims d0)" "s \<in> set (sims d0)"
    "\<not> keeps pid req s"
  shows "shrinks pid req d (delete_sim s d)" "s \<notin> set (sims (delete_sim s d))"
proof -
  have "t \<in> set (sims (delete_sim s d))" if "t \<in> set (sims d)" "keeps pid req t" for t
  proof (rule ccontr)
    assume "t \<notin> set (sims (delete_sim s d))"
    with that(1) have "clashes s t" by (auto simp: delete_sim_def clashes_def)
    with sim_table_ok_unique [OF assms(1,3)] that assms(2,4) show False by blast
  qed
  moreover have "get_provider (delete_sim s d) pid = get_provider d pid"
    by (simp add: get_provider_def delete_sim_def)
  ultimately show "shrinks pid req d (delete_sim s d)"
    using delete_sim_wf [of d s] by (auto simp: shrinks_def delete_sim_def)
  show "s \<notin> set (sims (delete_sim s d))" by (simp add: delete_sim_def)
qed

lemma find_filter_other:
  "pid \<noteq> q \<Longrightarrow> find (\<lambda>p. p_id p = pid) (filter (\<lambda>p. p_id p \<noteq> q) ps) = find (\<lambda>p. p_id p = pid) ps"
  by (induction ps) auto

lemma shrinks_delete_provider:
  assumes "p_id p \<noteq> pid"
  shows "shrinks pid req d (delete_provider p d)"
  using assms delete_provider_wf [of d p]
  by (auto simp: shrinks_def keeps_def delete_provider_def get_provider_def find_filter_other)

definition row_ok :: "uuid \<Rightarrow> sims_dict \<Rightarrow> database \<Rightarrow> sim_row \<times> provider_row option \<Rightarrow> bool" where
  "row_ok pid req d0 row \<longleftrightarrow>
     fst row \<in> set (sims d0) \<and> (\<exists>p. snd row = Some p \<and> p_id p = s_provider (fst row)) \<and>
     (s_provider (fst row) = pid \<longrightarrow> s_id (fst row) \<in> fst ` set req)"

lemma reconcile_sim_ok:
  assumes "sim_table_ok (sims d0)" "row_ok pid req d0 row" "set (sims d) \<subseteq> set (sims d0)"
    "reconcile_sim pid expiration now req row (d, m, n) = Inr (d', m', n')"
  shows "shrinks pid req d d'"
    "fst row \<in> set (sims d') \<longrightarrow> keeps pid req (fst row)"
    "n' = (if keeps pid req (fst row) then filter (\<lambda>i. i \<noteq> s_id (fst row)) n else n)"
proof -
  obtain s p where row: "row = (s, Some p)" "s \<in> set (sims d0)" "p_id p = s_provider s"
    "s_provider s = pid \<longrightarrow> map_of req (s_id s) \<noteq> None"
    using assms(2) by (cases row) (auto simp: row_ok_def map_of_eq_None_iff)
  note del = shrinks_delete_sim [OF assms(1,3) row(2), of pid req]
  have gone: "s \<notin> set (sims (delete_provider p d))" using row(3) by (simp add: delete_provider_def)
  show "shrinks pid req d d'" "fst row \<in> set (sims d') \<longrightarrow> keeps pid req (fst row)"
    "n' = (if keeps pid req (fst row) then filter (\<lambda>i. i \<noteq> s_id (fst row)) n else n)"
    using assms(4) row del gone shrinks_delete_provider [of p pid req d]
    by (auto simp: reconcile_sim_def keeps_def shrinks_refl split: if_splits)
qed

lemma reconcile_sim_error:
  assumes "row_ok pid req d0 row" "reconcile_sim pid expiration now req row acc = Inl e"
  shows "e = AuthError"
  using assms
  by (cases row; cases acc) (auto simp: row_ok_def reconcile_sim_def split: if_splits option.splits
      simp: map_of_eq_None_iff)

lemma reconcile_ok:
  assumes "sim_table_ok (sims d0)" "\<forall>row \<in> set rows. row_ok pid req d0 row"
    "set (sims d) \<subseteq> set (sims d0)"
    "reconcile pid expiration now req rows (d, m, n) = Inr (d', m', n')"
  shows "shrinks pid req d d' \<and> (\<forall>s \<in> fst ` set rows \<inter> set (sims d'). keeps pid req s) \<and>
    n' = filter (\<lambda>i. \<not> (\<exists>s \<in> fst ` set rows. keeps pid req s \<and> s_id s = i)) n"
  using assms(2-4)
proof (induction rows arbitrary: d m n)
  case Nil
  then show ?case by (simp add: shrinks_refl)
next
  case (Cons row rows)
  then obtain d1 m1 n1 where step:
    "reconcile_sim pid expiration now req row (d, m, n) = Inr (d1, m1, n1)"
    "reconcile pid expiration now req rows (d1, m1, n1) = Inr (d', m', n')"
    by (auto simp: bind_r_Inr_iff)
  have row: "row_ok pid req d0 row" using Cons.prems(1) by simp
  note one = reconcile_sim_ok [OF assms(1) row Cons.prems(2) step(1)]
  have "set (sims d1) \<subseteq> set (sims d0)" using one(1) Cons.prems(2) by (auto simp: shrinks_def)
  with Cons.IH [OF _ this step(2)] Cons.prems(1) have
    rest: "shrinks pid req d1 d'" "\<forall>s \<in> fst ` set rows \<inter> set (sims d'). keeps pid req s"
    "n' = filter (\<lambda>i. \<not> (\<exists>s \<in> fst ` set rows. keeps pid req s \<and> s_id s = i)) n1"
    by simp_all
  have "set (sims d') \<subseteq> set (sims d1)" using rest(1) by (simp add: shrinks_def)
  with one(2) rest(2) have "\<forall>s \<in> fst ` set (row # rows) \<inter> set (sims d'). keeps pid req s"
    by auto
  with shrinks_trans [OF one(1) rest(1)] show ?case
    by (auto simp: rest(3) one(3) intro!: filter_cong)
qed

lemma reconcile_error:
  assumes "\<forall>row \<in> set rows. row_ok pid req d0 row"
    "reconcile pid expiration now req rows acc = Inl e"
  shows "e = AuthError"
  using assms
  by (induction rows arbitrary: acc) (auto simp: bind_r_Inl_iff dest: reconcile_sim_error)

text \<open>
  What a registration establishes: the provider exists, all its SIMs and all SIMs in the way are
  requested ones of its own, and every requested SIM is there.
\<close>

definition registered :: "uuid \<Rightarrow> sims_dict \<Rightarrow> database \<Rightarrow> bool" where
  "registered pid req d \<longleftrightarrow>
     get_provider d pid \<noteq> None \<and>
     (\<forall>s \<in> set (sims d). s_provider s = pid \<or> touches req s \<longrightarrow> keeps pid req s) \<and>
     (\<forall>i \<in> fst ` set req. \<exists>s \<in> set (sims d). keeps pid req s \<and> s_id s = i)"

lemma registered_rows:
  assumes "registered pid req d" "req_ok req"
  shows "(\<lambda>s. (s_id s, s_iccid s, s_imsi s)) ` {s \<in> set (sims d). s_provider s = pid} = set req"
proof
  show "(\<lambda>s. (s_id s, s_iccid s, s_imsi s)) ` {s \<in> set (sims d). s_provider s = pid} \<subseteq> set req"
    using assms(1) by (auto simp: registered_def keeps_def dest: map_of_SomeD)
  show "set req \<subseteq> (\<lambda>s. (s_id s, s_iccid s, s_imsi s)) ` {s \<in> set (sims d). s_provider s = pid}"
  proof
    fix x
    assume x: "x \<in> set req"
    then have "map_of req (fst x) = Some (snd x)"
      using assms(2) by (simp add: req_ok_def)
    moreover obtain s where "s \<in> set (sims d)" "keeps pid req s" "s_id s = fst x"
      using assms(1) x unfolding registered_def by blast
    ultimately show "x \<in> (\<lambda>s. (s_id s, s_iccid s, s_imsi s)) ` {s \<in> set (sims d). s_provider s = pid}"
      by (intro image_eqI [of _ _ s]) (auto simp: keeps_def prod_eq_iff)
  qed
qed

lemma fold_delete_sim:
  "sims (fold delete_sim ss d) =
     filter (\<lambda>t. \<forall>s \<in> set ss. \<not> (s_provider t = s_provider s \<and> s_id t = s_id s)) (sims d)"
  "providers (fold delete_sim ss d) = providers d"
  "apdu_logs (fold delete_sim ss d) = apdu_logs d"
  by (induction ss arbitrary: d) (auto simp: delete_sim_def intro!: filter_cong)

lemma fold_removed_sims:
  "sims (fold delete_sim (removed_sims pid ids d) d) =
     filter (\<lambda>s. s_provider s = pid \<longrightarrow> s_id s \<in> set ids) (sims d)"
  unfolding fold_delete_sim by (rule filter_cong) (auto simp: removed_sims_def)

lemma fold_delete_sim_wf: "wf_db d \<Longrightarrow> wf_db (fold delete_sim ss d)"
  by (induction ss arbitrary: d) (simp_all add: delete_sim_wf)

lemma get_provider_sims [simp]: "get_provider (d\<lparr>sims := ss\<rparr>) pid = get_provider d pid"
  by (simp add: get_provider_def)

lemma get_provider_fold [simp]: "get_provider (fold delete_sim ss d) pid = get_provider d pid"
  by (simp add: get_provider_def fold_delete_sim)

lemma add_provider_wf:
  assumes "wf_db d" "get_provider d pid = None"
  shows "wf_db (add_provider pid now d)" "get_provider (add_provider pid now d) pid \<noteq> None"
  using assms by (auto simp: db add_provider_def simp del: not_None_eq)

text \<open>The database before the loop: the provider is there and its stale SIMs are gone.\<close>

definition prepared :: "uuid \<Rightarrow> time \<Rightarrow> sims_dict \<Rightarrow> database \<Rightarrow> database" where
  "prepared pid now req d0 =
     (let d1 = (if get_provider d0 pid = None then add_provider pid now d0 else d0)
      in fold delete_sim (removed_sims pid (map fst req) d1) d1)"

lemma prepared_ok:
  assumes "wf_db d"
  shows "wf_db (prepared pid now req d)" "get_provider (prepared pid now req d) pid \<noteq> None"
    "\<forall>s \<in> set (sims (prepared pid now req d)). s_provider s = pid \<longrightarrow> s_id s \<in> fst ` set req"
    "set (sims (prepared pid now req d)) \<subseteq> set (sims d)"
  using assms add_provider_wf [OF assms, of pid now]
  by (auto simp: prepared_def Let_def fold_removed_sims fold_delete_sim_wf add_provider_def)

lemma existing_sims_rows:
  assumes "wf_db d" "\<forall>s \<in> set (sims d). s_provider s = pid \<longrightarrow> s_id s \<in> fst ` set req"
  shows "\<forall>row \<in> set (existing_sims req d). row_ok pid req d row"
    "fst ` set (existing_sims req d) = {s \<in> set (sims d). touches req s}"
proof -
  have "get_provider d (s_provider s) \<noteq> None" if "s \<in> set (sims d)" for s
    using assms(1) that by (auto simp: db simp del: not_None_eq)
  with assms(2) show "\<forall>row \<in> set (existing_sims req d). row_ok pid req d row"
    by (fastforce simp: existing_sims_def row_ok_def dest: get_provider_SomeD)
  show "fst ` set (existing_sims req d) = {s \<in> set (sims d). touches req s}"
    by (auto simp: existing_sims_def touches_def image_image)
qed

lemma register_sims_unfold:
  "register_sims expiration now pid req d =
     (let d2 = prepared pid now req d;
          modified = (get_provider d pid = None \<or> removed_sims pid (map fst req)
            (if get_provider d pid = None then add_provider pid now d else d) \<noteq> []) in
      if req = [] then Inr (modified, d2)
      else
        bind_r (reconcile pid expiration now req (existing_sims req d2) (d2, modified, map fst req))
          (\<lambda>(d3, modified, new_ids).
            bind_r (create_sims pid req new_ids d3) (\<lambda>d4. Inr (modified \<or> new_ids \<noteq> [], d4))))"
  by (simp add: register_sims_def prepared_def Let_def)

lemma keeps_touches: "keeps pid req s \<Longrightarrow> touches req s"
  by (force simp: keeps_def touches_def dest: map_of_SomeD)

lemma register_sims_cases:
  assumes "wf_db d" "req_ok req"
  shows "register_sims expiration now pid req d = Inl AuthError \<or>
    (\<exists>modified d'. register_sims expiration now pid req d = Inr (modified, d') \<and>
       wf_db d' \<and> registered pid req d' \<and>
       (\<forall>s \<in> set (sims d'). s \<in> set (sims d) \<or> s_provider s = pid))"
proof (cases "req = []")
  case True
  then show ?thesis
    using prepared_ok [OF assms(1), of pid now req]
    by (auto simp: register_sims_unfold Let_def registered_def touches_def)
next
  case False
  define d2 where "d2 = prepared pid now req d"
  note prep = prepared_ok [OF assms(1), of pid now req, folded d2_def]
  note rows = existing_sims_rows [OF prep(1,3)]
  define m where "m = (get_provider d pid = None \<or> removed_sims pid (map fst req)
            (if get_provider d pid = None then add_provider pid now d else d) \<noteq> [])"
  note unfold = register_sims_unfold [of expiration now pid req d, folded d2_def m_def]
  show ?thesis
  proof (cases "reconcile pid expiration now req (existing_sims req d2) (d2, m, map fst req)")
    case (Inl e)
    with reconcile_error [OF rows(1) Inl] False show ?thesis by (simp add: unfold Let_def)
  next
    case (Inr acc)
    then obtain d3 m3 ids where
      rec: "reconcile pid expiration now req (existing_sims req d2) (d2, m, map fst req) = Inr (d3, m3, ids)"
      by (cases acc) auto
    have table: "sim_table_ok (sims d2)" using prep(1) by (simp add: wf_db_def)
    note res = reconcile_ok [OF table rows(1) order_refl rec, unfolded rows(2)]
    have d3: "wf_db d3" "get_provider d3 pid \<noteq> None" "set (sims d3) \<subseteq> set (sims d2)"
      "\<And>s. s \<in> set (sims d2) \<Longrightarrow> keeps pid req s \<Longrightarrow> s \<in> set (sims d3)"
      using res prep by (auto simp: shrinks_def)
    have ids: "set ids = {i \<in> fst ` set req. \<not> (\<exists>s \<in> set (sims d2). keeps pid req s \<and> s_id s = i)}"
      using res keeps_touches by auto
    have dist: "distinct ids" using res assms(2) by (simp add: req_ok_def)
    have clear: "\<forall>s \<in> set (sims d3). touches req s \<longrightarrow> keeps pid req s \<and> s_id s \<notin> set ids"
    proof (intro ballI impI)
      fix s
      assume s: "s \<in> set (sims d3)" "touches req s"
      with d3(3) have "s \<in> set (sims d2)" by blast
      with s res have "keeps pid req s" by blast
      with ids \<open>s \<in> set (sims d2)\<close> show "keeps pid req s \<and> s_id s \<notin> set ids" by blast
    qed
    from create_sims_ok [OF assms(2) d3(1,2) dist _ clear] ids
    obtain d4 new where d4: "create_sims pid req ids d3 = Inr d4" "wf_db d4"
      "providers d4 = providers d3" "sims d4 = sims d3 @ new" "map s_id new = ids"
      "\<forall>s \<in> set new. keeps pid req s"
      by auto
    have own: "s_id s \<in> fst ` set req" if "s \<in> set (sims d3)" "s_provider s = pid" for s
      using that prep(3) d3(3) by blast
    have "registered pid req d4"
      unfolding registered_def
    proof (intro conjI ballI impI)
      show "get_provider d4 pid \<noteq> None" using d3(2) d4(3) by (simp add: get_provider_def)
    next
      fix s
      assume "s \<in> set (sims d4)" "s_provider s = pid \<or> touches req s"
      then show "keeps pid req s"
        using d4(4,6) clear own by (auto simp: touches_def)
    next
      fix i
      assume i: "i \<in> fst ` set req"
      show "\<exists>s \<in> set (sims d4). keeps pid req s \<and> s_id s = i"
      proof (cases "i \<in> set ids")
        case True
        then show ?thesis using d4(4-6) by force
      next
        case False
        with i ids d3(4) d4(4) show ?thesis by auto
      qed
    qed
    moreover have "\<forall>s \<in> set (sims d4). s \<in> set (sims d) \<or> s_provider s = pid"
      using d4(4,6) d3(3) prep(4) by (auto simp: keeps_def)
    ultimately show ?thesis
      using False rec d4(1,2) by (simp add: unfold Let_def)
  qed
qed

text \<open>Registering again changes nothing and says so.\<close>

lemma reconcile_kept:
  assumes "\<forall>row \<in> set rows. row_ok pid req d0 row \<and> keeps pid req (fst row)"
  shows "reconcile pid expiration now req rows (d, m, n) =
    Inr (d, m, filter (\<lambda>i. \<not> (\<exists>s \<in> fst ` set rows. s_id s = i)) n)"
  using assms
proof (induction rows arbitrary: n)
  case (Cons row rows)
  then have "reconcile_sim pid expiration now req row (d, m, n) =
      Inr (d, m, filter (\<lambda>i. i \<noteq> s_id (fst row)) n)"
    by (cases row) (auto simp: row_ok_def keeps_def reconcile_sim_def)
  with Cons show ?case by (auto intro!: filter_cong)
qed simp

lemma register_sims_again:
  assumes "wf_db d" "registered pid req d"
  shows "register_sims expiration now pid req d = Inr (False, d)"
proof -
  obtain p where prov: "get_provider d pid = Some p" using assms(2) by (auto simp: registered_def)
  have own: "\<forall>s \<in> set (sims d). s_provider s = pid \<longrightarrow> s_id s \<in> fst ` set req"
    using assms(2) unfolding registered_def keeps_def
    by (metis map_of_eq_None_iff option.distinct(1))
  then have none: "removed_sims pid (map fst req) d = []"
    by (auto simp: removed_sims_def filter_empty_conv)
  with prov have prep: "prepared pid now req d = d" by (simp add: prepared_def)
  note rows = existing_sims_rows [OF assms(1) own]
  have kept: "\<forall>row \<in> set (existing_sims req d). row_ok pid req d row \<and> keeps pid req (fst row)"
  proof
    fix row
    assume row: "row \<in> set (existing_sims req d)"
    then have "fst row \<in> {s \<in> set (sims d). touches req s}" using rows(2) by blast
    with row rows(1) assms(2) show "row_ok pid req d row \<and> keeps pid req (fst row)"
      unfolding registered_def by blast
  qed
  have "filter (\<lambda>i. \<not> (\<exists>s \<in> fst ` set (existing_sims req d). s_id s = i)) (map fst req) = []"
    using assms(2) keeps_touches unfolding rows(2) registered_def filter_empty_conv by fastforce
  with reconcile_kept [OF kept] prov none prep show ?thesis
    by (simp add: register_sims_unfold Let_def)
qed

section \<open>The server's calls over any handler\<close>

lemma lift_h_Inr:
  "lift_h m s = (Inr x, s') \<longleftrightarrow> (\<exists>h. m (srv_h s) = (Inr x, h) \<and> s' = s\<lparr>srv_h := h\<rparr>)"
  by (auto simp: lift_h_def split: prod.splits)

lemma bnd_lift_h:
  "bnd (lift_h m) f s =
     (case m (srv_h s) of
        (Inl e, h) \<Rightarrow> (Inl e, s\<lparr>srv_h := h\<rparr>)
      | (Inr x, h) \<Rightarrow> f x (s\<lparr>srv_h := h\<rparr>))"
  by (auto simp: bnd_def lift_h_def split: prod.splits sum.splits)

context auth_handler begin

lemma register_provider_ok:
  assumes "register_provider H expiration now t sims_in s = (Inr modified, s')"
  shows "\<exists>pid h. known (srv_h s') t = Some pid \<and>
    allowed_sim_registration H t (sim_idents (sim_strings sims_in)) (srv_h s) = (Inr AR_Success, h) \<and>
    register_sims expiration now pid (sim_strings sims_in) (srv_db s) = Inr (modified, srv_db s')"
  using assms identity_learns
  by (fastforce simp: register_provider_def Let_def bnd_lift_h
      split: prod.splits sum.splits option.splits if_splits)

lemma register_provider_keeps_db:
  assumes "register_provider H expiration now t sims_in s = (Inl e, s')"
  shows "srv_db s' = srv_db s"
  using assms
  by (auto simp: register_provider_def Let_def bnd_lift_h
      split: prod.splits sum.splits option.splits if_splits)

lemma provider_registered_ok:
  assumes "provider_registered H t s = (Inr (), s')"
  shows "\<exists>pid. known (srv_h s') t = Some pid \<and> get_provider (srv_db s') pid \<noteq> None \<and>
    srv_db s' = srv_db s"
proof -
  obtain r1 h1 where reg: "allowed_provider_registration H t (srv_h s) = (r1, h1)" by fastforce
  obtain r2 h2 where ident: "identity H t h1 = (r2, h2)" by fastforce
  from assms reg ident obtain pid where
    "r2 = Inr (Some pid)" "get_provider (srv_db s) pid \<noteq> None" "s' = s\<lparr>srv_h := h2\<rparr>"
    by (auto simp: provider_registered_def bnd_lift_h simp del: not_None_eq
        split: sum.splits option.splits if_splits)
  with identity_learns [of t h1 "Some pid" h2] ident show ?thesis by auto
qed

end

context reporting_handler begin

lemma register_probe_error:
  assumes "register_probe H t s = (Inl (TokenError e), s')"
  shows "e \<noteq> AR_Success"
  using assms probe_registration_raises [of t "srv_h s" e]
  by (auto simp: register_probe_def bnd_lift_h split: prod.splits sum.splits if_splits)

lemma provider_registered_error:
  assumes "provider_registered H t s = (Inl (TokenError e), s')"
  shows "e \<noteq> AR_Success"
proof -
  obtain r1 h1 where reg: "allowed_provider_registration H t (srv_h s) = (r1, h1)" by fastforce
  obtain r2 h2 where ident: "identity H t h1 = (r2, h2)" by fastforce
  from assms reg ident provider_registration_raises [of t "srv_h s" e] identity_raises [of t h1 e]
  show ?thesis
    by (auto simp: provider_registered_def bnd_lift_h split: sum.splits option.splits if_splits)
qed

end

section \<open>Properties\<close>

text \<open>
  C1: Registering SIM cards, in the transaction the REST route opens and with the management
  server's handler, is all or nothing. When it succeeds the token's identity is cached, the
  provider exists, its SIM rows are exactly the requested (id, ICCID, IMSI) triples, every other
  provider's remaining SIM was there before, and the tables keep their keys; when it raises, the
  database is as it was.
\<close>

theorem register_provider_correct:
  assumes "wf_db (srv_db s)" "req_ok (sim_strings sims_in)"
    "in_transaction (register_provider (moat_handler env) expiration now t sims_in) s = (r, s')"
  shows "case r of
      Inl e \<Rightarrow> srv_db s' = srv_db s
    | Inr modified \<Rightarrow> wf_db (srv_db s') \<and>
        (\<exists>pid. id_cache (srv_h s') t = Some pid \<and> get_provider (srv_db s') pid \<noteq> None \<and>
          (\<lambda>sim. (s_id sim, s_iccid sim, s_imsi sim)) `
            {sim \<in> set (sims (srv_db s')). s_provider sim = pid} = set (sim_strings sims_in) \<and>
          (\<forall>sim \<in> set (sims (srv_db s')). s_provider sim \<noteq> pid \<longrightarrow> sim \<in> set (sims (srv_db s))))"
proof -
  obtain r0 s0 where run:
    "register_provider (moat_handler env) expiration now t sims_in s = (r0, s0)" by fastforce
  show ?thesis
  proof (cases r0)
    case (Inl e)
    with run assms(3) show ?thesis by (auto simp: in_transaction_def)
  next
    case (Inr modified)
    with run assms(3) have r: "r = Inr modified" "s' = s0" by (auto simp: in_transaction_def)
    from moat_auth.register_provider_ok [OF run [unfolded Inr]] obtain pid where pid:
      "id_cache (srv_h s0) t = Some pid"
      "register_sims expiration now pid (sim_strings sims_in) (srv_db s) = Inr (modified, srv_db s0)"
      by blast
    with register_sims_cases [OF assms(1,2), of expiration now pid]
    have "wf_db (srv_db s0)" "registered pid (sim_strings sims_in) (srv_db s0)"
      "\<forall>sim \<in> set (sims (srv_db s0)). sim \<in> set (sims (srv_db s)) \<or> s_provider sim = pid"
      by auto
    with pid(1) registered_rows [OF this(2) assms(2)] show ?thesis
      unfolding r by (auto simp: registered_def)
  qed
qed

text \<open>A management server that approves everything and knows one identity, for examples.\<close>

definition demo_env :: "unit mgmt_env" where
  "demo_env =
     \<lparr>env_post = (\<lambda>path body w.
        (Some \<lparr>res_status = 200,
           res_json = (if path = ''/identity'' then JStr ''id'' else JBool True)\<rparr>, w)),
      env_uuid_of_str = (\<lambda>s. if s = ''id'' then Some 7 else None),
      env_str_of_uuid = (\<lambda>u. ''id''), env_base64 = (\<lambda>bs. ''token'')\<rparr>"

definition demo_db :: database where
  "demo_db =
     \<lparr>providers = [\<lparr>p_id = 5, p_allow_reregistration = True, p_available = 0,
        p_last_active = Some 0\<rparr>],
      sims = [\<lparr>s_id = 1, s_iccid = Some ''8943'', s_imsi = None, s_in_use = False,
        s_provider = 5\<rparr>],
      apdu_logs = []\<rparr>"

definition demo_srv :: "unit moat_auth srv" where
  "demo_srv = \<lparr>srv_db = demo_db, srv_h = \<lparr>id_cache = (\<lambda>t. None), world = ()\<rparr>\<rparr>"

lemma demo_handler:
  "allowed_sim_registration (moat_handler demo_env) t si h = (Inr AR_Success, h)"
  "id_cache h t = None \<Longrightarrow>
     identity (moat_handler demo_env) t h = (Inr (Some 7), h\<lparr>id_cache := (id_cache h)(t \<mapsto> 7)\<rparr>)"
  by (simp_all add: moat_handler_def demo_env_def moat_allowed_sim_registration_def bnd_def
      moat_post_def http_success_def process_result_def moat_identity_def)

lemma demo_db_wf: "wf_db demo_db"
  by (simp add: wf_db_def demo_db_def sim_table_ok_def get_provider_def)

theorem register_provider_correct_witness:
  "\<exists>s'. in_transaction (register_provider (moat_handler demo_env) None 9 (Token (replicate 25 0))
       [(1, None, Some (Imsi ''001010000000001''))]) demo_srv = (Inr True, s') \<and>
     sims (srv_db s') = [\<lparr>s_id = 1, s_iccid = None, s_imsi = Some ''001010000000001'',
       s_in_use = False, s_provider = 7\<rparr>] \<and> wf_db (srv_db s')"
proof -
  let ?req = "[(1, None, Some (Imsi ''001010000000001''))]"
  obtain s' where run: "in_transaction (register_provider (moat_handler demo_env) None 9
      (Token (replicate 25 0)) ?req) demo_srv = (Inr True, s')"
    "sims (srv_db s') = [\<lparr>s_id = 1, s_iccid = None, s_imsi = Some ''001010000000001'',
       s_in_use = False, s_provider = 7\<rparr>]"
    by (simp add: in_transaction_def register_provider_def bnd_lift_h demo_handler demo_srv_def
        sim_strings_def register_sims_def demo_db_def get_provider_def add_provider_def
        removed_sims_def existing_sims_def reconcile_sim_def is_expired_def delete_sim_def
        insert_sim_def Let_def)
  have "wf_db (srv_db demo_srv)" "req_ok (sim_strings ?req)"
    using demo_db_wf by (simp_all add: demo_srv_def req_ok_def sim_strings_def somes_def)
  from register_provider_correct [OF this run(1)] run show ?thesis by auto
qed


text \<open>
  Registering the same SIM cards again changes nothing and reports it: after a
  successful registration, the same request answers \<^verbatim>\<open>False\<close> (not modified) and leaves every
  table as it is, at whatever later time.
\<close>

theorem register_sims_idempotent:
  assumes "wf_db d" "req_ok req" "register_sims expiration now pid req d = Inr (modified, d')"
  shows "register_sims expiration later pid req d' = Inr (False, d')"
  using register_sims_cases [OF assms(1,2), of expiration now pid] assms(3)
    register_sims_again [of d' pid req expiration later]
  by auto

theorem register_sims_idempotent_witness:
  "\<exists>d'. register_sims None 9 7 [(4, Some ''8944'', None)] demo_db = Inr (True, d') \<and>
     register_sims None 10 7 [(4, Some ''8944'', None)] d' = Inr (False, d')"
proof -
  obtain d' where run: "register_sims None 9 7 [(4, Some ''8944'', None)] demo_db = Inr (True, d')"
    by (simp add: register_sims_def demo_db_def get_provider_def add_provider_def
        removed_sims_def existing_sims_def insert_sim_def clashes_def Let_def)
  with register_sims_idempotent [OF demo_db_wf _ run, of 10] show ?thesis
    by (simp add: req_ok_def somes_def)
qed

text \<open>
  A registration that succeeds evicts every other SIM with a requested id, whatever its
  ICCID and IMSI and whoever owns it: the query for existing SIMs compares the ids, which are only
  unique within a provider, across all providers.
\<close>

theorem registration_evicts_same_id:
  assumes "wf_db d" "req_ok req" "register_sims expiration now pid req d = Inr (modified, d')"
    "s \<in> set (sims d)" "s_provider s \<noteq> pid" "s_id s \<in> fst ` set req"
  shows "s \<notin> set (sims d')"
proof -
  have "registered pid req d'"
    using register_sims_cases [OF assms(1,2), of expiration now pid] assms(3) by auto
  with assms(5,6) show ?thesis by (auto simp: registered_def touches_def keeps_def)
qed

theorem registration_evicts_same_id_witness:
  "\<exists>d'. register_sims None 9 7 [(1, Some ''8944'', None)] demo_db = Inr (True, d') \<and>
     hd (sims demo_db) \<notin> set (sims d')"
proof -
  obtain d' where run: "register_sims None 9 7 [(1, Some ''8944'', None)] demo_db = Inr (True, d')"
    by (simp add: register_sims_def demo_db_def get_provider_def add_provider_def
        removed_sims_def existing_sims_def insert_sim_def clashes_def reconcile_sim_def
        is_expired_def delete_sim_def Let_def)
  with registration_evicts_same_id [OF demo_db_wf _ run, of "hd (sims demo_db)"] show ?thesis
    by (simp add: req_ok_def somes_def demo_db_def)
qed

text \<open>
  What a SIM lookup answers, for every handler: \<^verbatim>\<open>AuthError\<close> exactly when no row matches
  (so an unknown SIM cannot be told from a forbidden one), the handler's exception when it raises
  one, and otherwise the row, whatever verdict the handler returned: the condition
  \<^verbatim>\<open>if not await allowed_sim_request(...)\<close> tests an \<^verbatim>\<open>AuthResult\<close> member, which is
  always true, so \<^verbatim>\<open>Forbidden\<close> never denies a request.
\<close>

theorem get_sim_ignores_verdict:
  "get_sim H t identifier s =
     (case select_sim identifier (srv_db s) of
        None \<Rightarrow> (Inl AuthError, s)
      | Some sim \<Rightarrow>
          (case allowed_sim_request H t (s_provider sim)
                  \<lparr>si_id = s_id sim, si_iccid = s_iccid sim, si_imsi = s_imsi sim\<rparr> (srv_h s) of
             (Inl e, h) \<Rightarrow> (Inl e, s\<lparr>srv_h := h\<rparr>)
           | (Inr verdict, h) \<Rightarrow> (Inr (Some sim), s\<lparr>srv_h := h\<rparr>)))"
  by (auto simp: get_sim_def bnd_lift_h auth_result_bool_def split: option.splits prod.splits sum.splits)

text \<open>
  A SIM asked for by index is found by its place among the SIMs of all providers, in the
  order of their ids: the provider named in the request makes no difference, and an index of
  the number of SIMs or more is answered with \<^verbatim>\<open>AuthError\<close>.
\<close>

theorem sim_index_ignores_provider:
  "get_sim H t (By_SimIndex (SimIndex p i)) s = get_sim H t (By_SimIndex (SimIndex q i)) s \<and>
   (get_sim H t (By_SimIndex (SimIndex p (int (length (sims (srv_db s)))))) s = (Inl AuthError, s))"
  by (simp add: get_sim_def offset_row_def)

end
