(* ===== verification/Connection_Queue.thy ===== *)
theory Connection_Queue
  imports Tunnel_Db "HOL-Library.Sublist" "HOL-Library.Multiset"
begin

text \<open>
  The queues that hand probe connections to waiting providers
  (\<^verbatim>\<open>tunnel/connection_queue.py\<close>): the class \<^verbatim>\<open>Queue\<close>, a subclass of \<^verbatim>\<open>asyncio.Queue\<close>, the
  module's dictionary of queues, and the garbage collection of idle queues.

  A queue object lives in a heap (a list; its index is the object's identity) because the
  dictionary may drop a queue that a task still waits on. A task that waits in \<^verbatim>\<open>get\<close> is a
  getter; \<^verbatim>\<open>asyncio\<close> runs a task until its next \<^verbatim>\<open>await\<close>, so \<^verbatim>\<open>get\<close> is cut into the part
  up to the waiting (\<open>q_get\<close>), the continuation once the getter is woken (\<open>q_resume\<close>) and the
  two halves of a cancellation. The relation \<open>cq_step\<close> interleaves these pieces in every order.
\<close>

section \<open>Connections\<close>

text \<open>
  What the server did to its peers: the bytes written to a connection, and whether its writer is
  closing. A write on a closing transport is discarded.
\<close>

type_synonym conn = nat

record net =
  written :: "conn \<Rightarrow> bytes"
  closing :: "conn \<Rightarrow> bool"

definition net_write :: "conn \<Rightarrow> bytes \<Rightarrow> net \<Rightarrow> net" where
  "net_write c bs n =
     (if closing n c then n else n\<lparr>written := (written n)(c := written n c @ bs)\<rparr>)"

definition net_close :: "conn \<Rightarrow> net \<Rightarrow> net" where
  "net_close c n = n\<lparr>closing := (closing n)(c := True)\<rparr>"

section \<open>Queue objects\<close>

record queue_entry =
  qe_sim :: sim_row
  qe_probe_id :: uuid
  qe_con_req :: connect_request
  qe_conn :: conn
  qe_immediate :: bool

text \<open>
  \<open>q_getters\<close> is the deque of the getters' futures, each with the flag that it is cancelled;
  \<open>q_woken\<close> are the tasks whose future has its result and which have not run since.
\<close>

record queue =
  q_maxsize :: int
  q_queue :: "queue_entry list"
  q_getters :: "(nat \<times> bool) list"
  q_woken :: "nat list"
  q_unfinished :: int
  q_last_active :: time
  q_active :: int
  q_gc_running :: bool

definition q_init :: "int \<Rightarrow> time \<Rightarrow> queue" where
  "q_init maxsize now =
     \<lparr>q_maxsize = maxsize, q_queue = [], q_getters = [], q_woken = [], q_unfinished = 0,
      q_last_active = now, q_active = 0, q_gc_running = True\<rparr>"

definition q_acquire :: "queue \<Rightarrow> queue" where
  "q_acquire q = q\<lparr>q_active := q_active q + 1\<rparr>"

definition q_release :: "time \<Rightarrow> queue \<Rightarrow> srv_error + queue" where
  "q_release now q =
     (if \<not> 0 < q_active q then Inl SrvAssertionError
      else let q = q\<lparr>q_active := q_active q - 1\<rparr> in
        Inr (if q_active q = 0 then q\<lparr>q_last_active := now\<rparr> else q))"

text \<open>\<^verbatim>\<open>_get\<close>: \<^verbatim>\<open>popleft\<close> between \<^verbatim>\<open>_acquire\<close> and \<^verbatim>\<open>_release\<close>; never called on an empty deque.\<close>

definition q_pop :: "time \<Rightarrow> queue \<Rightarrow> srv_error + (queue_entry \<times> queue)" where
  "q_pop now q =
     (let q = q_acquire q in
      case q_queue q of
        [] \<Rightarrow> bind_r (q_release now q) (\<lambda>_. Inl SrvValueError)
      | qe # rest \<Rightarrow> bind_r (q_release now (q\<lparr>q_queue := rest\<rparr>)) (\<lambda>q. Inr (qe, q)))"

definition q_push :: "queue_entry \<Rightarrow> queue \<Rightarrow> queue" where
  "q_push item q = q\<lparr>q_queue := q_queue q @ [item]\<rparr>"

definition q_last_active_opt :: "queue \<Rightarrow> time option" where
  "q_last_active_opt q = (if q_active q > 0 then None else Some (q_last_active q))"

section \<open>What the class inherits from \<^verbatim>\<open>asyncio.Queue\<close>\<close>

definition q_full :: "queue \<Rightarrow> bool" where
  "q_full q \<longleftrightarrow> 0 < q_maxsize q \<and> q_maxsize q \<le> int (length (q_queue q))"

fun wakeup_next :: "(nat \<times> bool) list \<Rightarrow> nat list \<times> (nat \<times> bool) list" where
  "wakeup_next [] = ([], [])"
| "wakeup_next ((t, cancelled) # gs) = (if cancelled then wakeup_next gs else ([t], gs))"

definition q_wakeup :: "queue \<Rightarrow> queue" where
  "q_wakeup q =
     (case wakeup_next (q_getters q) of
        (woken, gs) \<Rightarrow> q\<lparr>q_getters := gs, q_woken := q_woken q @ woken\<rparr>)"

definition q_put_nowait :: "queue_entry \<Rightarrow> queue \<Rightarrow> srv_error + queue" where
  "q_put_nowait item q =
     (if q_full q then Inl (QueueFull [])
      else Inr (q_wakeup (q_push item q\<lparr>q_unfinished := q_unfinished q + 1\<rparr>)))"

definition q_get :: "nat \<Rightarrow> time \<Rightarrow> queue \<Rightarrow> srv_error + (queue_entry option \<times> queue)" where
  "q_get t now q =
     (if q_queue q = [] then Inr (None, q\<lparr>q_getters := q_getters q @ [(t, False)]\<rparr>)
      else bind_r (q_pop now q) (\<lambda>(qe, q). Inr (Some qe, q)))"

definition q_resume :: "nat \<Rightarrow> time \<Rightarrow> queue \<Rightarrow> srv_error + (queue_entry option \<times> queue)" where
  "q_resume t now q = q_get t now (q\<lparr>q_woken := remove1 t (q_woken q)\<rparr>)"

text \<open>
  \<^verbatim>\<open>q_task.cancel()\<close> cancels the future the task waits for; when the task runs again, the
  handler in \<^verbatim>\<open>get\<close> removes the getter and, if it had already been woken, wakes another one.
\<close>

definition q_cancel :: "nat \<Rightarrow> queue \<Rightarrow> queue" where
  "q_cancel t q = q\<lparr>q_getters := map (\<lambda>(u, c). (u, c \<or> u = t)) (q_getters q)\<rparr>"

definition q_cancelled :: "nat \<Rightarrow> queue \<Rightarrow> queue" where
  "q_cancelled t q =
     (if t \<in> set (q_woken q) then
        let q = q\<lparr>q_woken := remove1 t (q_woken q)\<rparr> in
        if q_queue q \<noteq> [] then q_wakeup q else q
      else q\<lparr>q_getters := filter (\<lambda>(u, c). u \<noteq> t) (q_getters q)\<rparr>)"

definition q_task_done :: "queue \<Rightarrow> srv_error + queue" where
  "q_task_done q =
     (if q_unfinished q \<le> 0 then Inl SrvValueError
      else Inr (q\<lparr>q_unfinished := q_unfinished q - 1\<rparr>))"

section \<open>Garbage collection\<close>

text \<open>One round of the queue's own \<^verbatim>\<open>_gc\<close> task: entries whose probe is gone are dropped.\<close>

definition q_gc :: "(conn \<Rightarrow> bool) \<Rightarrow> queue \<Rightarrow> queue" where
  "q_gc is_closing q =
     (if length (q_queue q) \<noteq> 0
      then q\<lparr>q_queue := filter (\<lambda>qe. \<not> is_closing (qe_conn qe)) (q_queue q)\<rparr> else q)"

definition timed_out :: bytes where
  "timed_out = (case connect_response_encode (ConnectResponse Con_ProviderTimedOut) of
     Inl _ \<Rightarrow> [] | Inr bs \<Rightarrow> bs)"

text \<open>\<^verbatim>\<open>_cleanup\<close>: tell and close every queued probe; the number of connections closed.\<close>

function q_drain :: "time \<Rightarrow> queue \<times> net \<Rightarrow> nat \<Rightarrow> (queue \<times> net) \<times> nat" where
  "q_drain now (q, n) num_closed =
     (case q_pop now q of
        Inl _ \<Rightarrow> ((q, n), num_closed)
      | Inr (qe, q') \<Rightarrow>
          q_drain now (q', net_close (qe_conn qe) (net_write (qe_conn qe) timed_out n))
            (num_closed + 1))"
  by pat_completeness auto
termination
  by (relation "measure (\<lambda>(now, (q, n), k). length (q_queue q))")
    (auto simp: q_pop_def q_acquire_def q_release_def Let_def split: list.splits if_splits)

declare q_drain.simps [simp del]

definition q_cleanup :: "time \<Rightarrow> queue \<times> net \<Rightarrow> (queue \<times> net) \<times> nat" where
  "q_cleanup now qn = q_drain now ((fst qn)\<lparr>q_gc_running := False\<rparr>, snd qn) 0"

section \<open>The module's queues\<close>

record cq =
  cq_queues :: "(uuid \<times> nat) list"
  cq_heap :: "queue list"

definition cq_empty :: cq where
  "cq_empty = \<lparr>cq_queues = [], cq_heap = []\<rparr>"

definition get_queue :: "int \<Rightarrow> time \<Rightarrow> uuid \<Rightarrow> cq \<Rightarrow> nat \<times> cq" where
  "get_queue max_queue_size now i s =
     (case map_of (cq_queues s) i of
        Some a \<Rightarrow> (a, s)
      | None \<Rightarrow>
          (length (cq_heap s),
           \<lparr>cq_queues = cq_queues s @ [(i, length (cq_heap s))],
            cq_heap = cq_heap s @ [q_init max_queue_size now]\<rparr>))"

definition set_queue :: "nat \<Rightarrow> queue \<Rightarrow> cq \<Rightarrow> cq" where
  "set_queue a q s = s\<lparr>cq_heap := (cq_heap s)[a := q]\<rparr>"

text \<open>
  A refused request raises \<^verbatim>\<open>QueueFull\<close> with the entry as its argument; the queue may have been
  created on the way.
\<close>

definition cq_put_nowait :: "int \<Rightarrow> time \<Rightarrow> uuid \<Rightarrow> queue_entry \<Rightarrow> cq \<Rightarrow> (srv_error + unit) \<times> cq" where
  "cq_put_nowait max_queue_size now i qe s =
     (case get_queue max_queue_size now i s of
        (a, s) \<Rightarrow>
          let q = cq_heap s ! a in
          if qe_immediate qe \<and> length (q_queue q) \<ge> length (q_getters q)
          then (Inl (QueueFull [qe_conn qe]), s)
          else (case q_put_nowait qe q of
                  Inl _ \<Rightarrow> (Inl (QueueFull [qe_conn qe]), s)
                | Inr q' \<Rightarrow> (Inr (), set_queue a q' s)))"

text \<open>\<^verbatim>\<open>get\<close> up to the first suspension: the task \<open>t\<close> works on the queue object \<open>a\<close> from now on.\<close>

definition cq_get ::
  "int \<Rightarrow> time \<Rightarrow> nat \<Rightarrow> uuid \<Rightarrow> cq \<Rightarrow> nat \<times> (srv_error + queue_entry option) \<times> cq" where
  "cq_get max_queue_size now t i s =
     (case get_queue max_queue_size now i s of
        (a, s) \<Rightarrow>
          (case q_get t now (cq_heap s ! a) of
             Inl e \<Rightarrow> (a, Inl e, s)
           | Inr (r, q) \<Rightarrow> (a, Inr r, set_queue a q s)))"

definition cq_task_done :: "int \<Rightarrow> time \<Rightarrow> uuid \<Rightarrow> cq \<Rightarrow> (srv_error + unit) \<times> cq" where
  "cq_task_done max_queue_size now i s =
     (case get_queue max_queue_size now i s of
        (a, s) \<Rightarrow>
          (case q_task_done (cq_heap s ! a) of
             Inl e \<Rightarrow> (Inl e, s)
           | Inr q \<Rightarrow> (Inr (), set_queue a q s)))"

text \<open>
  \<^verbatim>\<open>queue_gc_coro_factory(timeout)\<close>: the loop over a copy of the dictionary's items. The
  result counts the queues removed and the connections closed.
\<close>

definition queue_gc_item ::
  "time \<Rightarrow> time \<Rightarrow> uuid \<times> nat \<Rightarrow> (cq \<times> net) \<times> nat \<times> nat \<Rightarrow> (cq \<times> net) \<times> nat \<times> nat" where
  "queue_gc_item timeout now item acc =
     (case (item, acc) of
        ((i, a), ((s, n), qs_removed, conns_closed)) \<Rightarrow>
          (case q_last_active_opt (cq_heap s ! a) of
             None \<Rightarrow> acc
           | Some last_active \<Rightarrow>
               if now - last_active > timeout then
                 let s = s\<lparr>cq_queues := filter (\<lambda>(j, b). j \<noteq> i) (cq_queues s)\<rparr>;
                     ((q, n), closed) = q_cleanup now (cq_heap s ! a, n) in
                 ((set_queue a q s, n), qs_removed + 1, conns_closed + closed)
               else acc))"

definition queue_gc :: "time \<Rightarrow> time \<Rightarrow> cq \<times> net \<Rightarrow> (cq \<times> net) \<times> nat \<times> nat" where
  "queue_gc timeout now sn =
     fold (queue_gc_item timeout now) (cq_queues (fst sn)) (sn, 0, 0)"

section \<open>Invariants of a queue object\<close>

definition wf_queue :: "int \<Rightarrow> queue \<Rightarrow> bool" where
  "wf_queue m q \<longleftrightarrow> q_maxsize q = m \<and> q_active q = 0 \<and> (0 < m \<longrightarrow> int (length (q_queue q)) \<le> m)"

lemma q_pop_eq:
  assumes "q_active q = 0"
  shows "q_pop now q =
    (case q_queue q of
       [] \<Rightarrow> Inl SrvValueError
     | qe # rest \<Rightarrow> Inr (qe, q\<lparr>q_queue := rest, q_last_active := now\<rparr>))"
  using assms by (cases q) (auto simp: q_pop_def q_acquire_def q_release_def Let_def split: list.splits)

lemma q_wakeup_simps [simp]:
  "q_queue (q_wakeup q) = q_queue q" "q_maxsize (q_wakeup q) = q_maxsize q"
  "q_active (q_wakeup q) = q_active q" "q_unfinished (q_wakeup q) = q_unfinished q"
  "q_last_active (q_wakeup q) = q_last_active q"
  by (auto simp: q_wakeup_def split: prod.splits)

lemma wf_queue_init [simp]: "wf_queue m (q_init m now)"
  by (simp add: wf_queue_def q_init_def)

lemma q_put_ok:
  assumes "wf_queue m q" "q_put_nowait qe q = Inr q'"
  shows "wf_queue m q'" "q_queue q' = q_queue q @ [qe]"
  using assms by (auto simp: wf_queue_def q_put_nowait_def q_push_def q_full_def split: if_splits)

lemma q_get_ok:
  assumes "wf_queue m q" "q_get t now q = Inr (r, q')"
  shows "wf_queue m q'" "r = None \<Longrightarrow> q_queue q' = q_queue q"
    "r = Some qe \<Longrightarrow> q_queue q = qe # q_queue q'"
  using assms
  by (auto simp: wf_queue_def q_get_def q_pop_eq bind_r_Inr_iff split: if_splits list.splits)

lemma q_resume_ok:
  assumes "wf_queue m q" "q_resume t now q = Inr (r, q')"
  shows "wf_queue m q'" "r = None \<Longrightarrow> q_queue q' = q_queue q"
    "r = Some qe \<Longrightarrow> q_queue q = qe # q_queue q'"
proof -
  have wf: "wf_queue m (q\<lparr>q_woken := remove1 t (q_woken q)\<rparr>)"
    using assms(1) by (simp add: wf_queue_def)
  note get = q_get_ok [OF wf assms(2) [unfolded q_resume_def]]
  show "wf_queue m q'" "r = None \<Longrightarrow> q_queue q' = q_queue q"
    "r = Some qe \<Longrightarrow> q_queue q = qe # q_queue q'"
    using get by simp_all
qed

lemma q_cancel_ok [simp]:
  "q_queue (q_cancel t q) = q_queue q" "q_queue (q_cancelled t q) = q_queue q"
  "wf_queue m (q_cancel t q) = wf_queue m q" "wf_queue m (q_cancelled t q) = wf_queue m q"
  by (auto simp: q_cancel_def q_cancelled_def wf_queue_def Let_def)

lemma q_task_done_ok:
  "q_task_done q = Inr q' \<Longrightarrow> q_queue q' = q_queue q \<and> (wf_queue m q' \<longleftrightarrow> wf_queue m q)"
  by (auto simp: q_task_done_def wf_queue_def split: if_splits)

lemma q_gc_ok:
  "q_queue (q_gc closed q) = filter (\<lambda>qe. \<not> closed (qe_conn qe)) (q_queue q)"
  "wf_queue m q \<Longrightarrow> wf_queue m (q_gc closed q)"
proof -
  show "q_queue (q_gc closed q) = filter (\<lambda>qe. \<not> closed (qe_conn qe)) (q_queue q)"
    by (simp add: q_gc_def)
  then have "length (q_queue (q_gc closed q)) \<le> length (q_queue q)" by simp
  moreover have "q_maxsize (q_gc closed q) = q_maxsize q" "q_active (q_gc closed q) = q_active q"
    by (simp_all add: q_gc_def)
  ultimately show "wf_queue m q \<Longrightarrow> wf_queue m (q_gc closed q)"
    by (auto simp: wf_queue_def)
qed

text \<open>\<^verbatim>\<open>_cleanup\<close> empties the queue and tells every probe in it, first come first.\<close>

definition drop_probe :: "queue_entry \<Rightarrow> net \<Rightarrow> net" where
  "drop_probe qe n = net_close (qe_conn qe) (net_write (qe_conn qe) timed_out n)"

lemma q_drain_eq:
  assumes "q_active q = 0"
  shows "q_drain now (q, n) k =
    ((q\<lparr>q_queue := [], q_last_active := if q_queue q = [] then q_last_active q else now\<rparr>,
      fold drop_probe (q_queue q) n), k + length (q_queue q))"
  using assms
proof (induction "q_queue q" arbitrary: q n k)
  case Nil
  then show ?case
    using q_drain.simps [of now q n k] by (cases q) (simp add: q_pop_eq)
next
  case (Cons qe rest)
  let ?q = "q\<lparr>q_queue := rest, q_last_active := now\<rparr>"
  have "q_drain now (q, n) k = q_drain now (?q, drop_probe qe n) (k + 1)"
    using Cons.hyps(2) [symmetric] Cons.prems q_drain.simps [of now q n k]
    by (simp add: q_pop_eq drop_probe_def)
  also have "\<dots> = ((?q\<lparr>q_queue := [], q_last_active := if rest = [] then now else now\<rparr>,
      fold drop_probe rest (drop_probe qe n)), k + 1 + length rest)"
    using Cons.hyps(1) [of ?q] Cons.prems by simp
  finally show ?case using Cons.hyps(2) [symmetric] by (cases q) simp
qed

lemma q_cleanup_ok:
  assumes "wf_queue m q" "q_cleanup now (q, n) = ((q', n'), k)"
  shows "wf_queue m q'" "q_queue q' = []" "n' = fold drop_probe (q_queue q) n"
    "k = length (q_queue q)"
  using assms by (auto simp: wf_queue_def q_cleanup_def q_drain_eq)

section \<open>The pool of queues as a transition system\<close>

definition wf_cq :: "int \<Rightarrow> cq \<Rightarrow> bool" where
  "wf_cq m s \<longleftrightarrow>
     distinct (map fst (cq_queues s)) \<and> distinct (map snd (cq_queues s)) \<and>
     snd ` set (cq_queues s) \<subseteq> {..< length (cq_heap s)} \<and> list_all (wf_queue m) (cq_heap s)"

text \<open>The entries in a queue object.\<close>

definition contents :: "cq \<Rightarrow> nat \<Rightarrow> queue_entry list" where
  "contents s a = (if a < length (cq_heap s) then q_queue (cq_heap s ! a) else [])"

lemma get_queue_ok:
  assumes "wf_cq m s" "get_queue m now i s = (a, s')"
  shows "wf_cq m s'" "contents s' = contents s" "a < length (cq_heap s')"
    "map_of (cq_queues s') i = Some a" "length (cq_heap s) \<le> length (cq_heap s')"
    "\<And>b. b < length (cq_heap s) \<Longrightarrow> cq_heap s' ! b = cq_heap s ! b"
    "set (cq_queues s') = insert (i, a) (set (cq_queues s))"
    "(i, a) \<in> set (cq_queues s) \<or> a = length (cq_heap s)"
proof -
  have "wf_cq m s' \<and> contents s' = contents s \<and> a < length (cq_heap s') \<and>
    map_of (cq_queues s') i = Some a \<and> length (cq_heap s) \<le> length (cq_heap s') \<and>
    (\<forall>b < length (cq_heap s). cq_heap s' ! b = cq_heap s ! b) \<and>
    set (cq_queues s') = insert (i, a) (set (cq_queues s)) \<and>
    ((i, a) \<in> set (cq_queues s) \<or> a = length (cq_heap s))"
  proof (cases "map_of (cq_queues s) i")
    case None
    have "i \<notin> fst ` set (cq_queues s)" using None by (simp add: map_of_eq_None_iff)
    moreover have "length (cq_heap s) \<notin> snd ` set (cq_queues s)"
      using assms(1) by (auto simp: wf_cq_def)
    moreover have "b < length (cq_heap s)" if "(j, b) \<in> set (cq_queues s)" for j b
      using assms(1) that by (auto simp: wf_cq_def)
    ultimately show ?thesis
      using None assms
      by (auto simp: get_queue_def wf_cq_def contents_def nth_append fun_eq_iff q_init_def
          wf_queue_def map_add_def less_Suc_eq)
  next
    case (Some b)
    then have "(i, b) \<in> set (cq_queues s)" by (rule map_of_SomeD)
    with Some assms show ?thesis by (force simp: get_queue_def wf_cq_def)
  qed
  then show "wf_cq m s'" "contents s' = contents s" "a < length (cq_heap s')"
    "map_of (cq_queues s') i = Some a" "length (cq_heap s) \<le> length (cq_heap s')"
    "\<And>b. b < length (cq_heap s) \<Longrightarrow> cq_heap s' ! b = cq_heap s ! b"
    "set (cq_queues s') = insert (i, a) (set (cq_queues s))"
    "(i, a) \<in> set (cq_queues s) \<or> a = length (cq_heap s)"
    by blast+
qed

lemma set_queue_simps [simp]:
  "cq_queues (set_queue a q s) = cq_queues s"
  "length (cq_heap (set_queue a q s)) = length (cq_heap s)"
  by (simp_all add: set_queue_def)

lemma wf_cq_queue: "wf_cq m s \<Longrightarrow> a < length (cq_heap s) \<Longrightarrow> wf_queue m (cq_heap s ! a)"
  by (simp add: wf_cq_def list_all_length)

lemma set_queue_wf: "wf_cq m s \<Longrightarrow> wf_queue m q \<Longrightarrow> wf_cq m (set_queue a q s)"
  by (auto simp: wf_cq_def set_queue_def list_all_iff dest!: set_update_subset_insert [THEN subsetD])

lemma contents_set_queue:
  "a < length (cq_heap s) \<Longrightarrow> contents (set_queue a q s) = (contents s)(a := q_queue q)"
  by (auto simp: contents_def set_queue_def fun_eq_iff nth_list_update)

lemma contents_nth: "a < length (cq_heap s) \<Longrightarrow> contents s a = q_queue (cq_heap s ! a)"
  by (simp add: contents_def)

text \<open>What an observer sees of a step: which entry entered or left which queue object.\<close>

datatype cq_out =
    Accepted nat queue_entry
  | Delivered nat queue_entry
  | Dropped nat queue_entry
  | Pruned nat queue_entry

definition delivered :: "nat \<Rightarrow> queue_entry option \<Rightarrow> cq_out list" where
  "delivered a r = (case r of None \<Rightarrow> [] | Some qe \<Rightarrow> [Delivered a qe])"

inductive cq_step :: "int \<Rightarrow> cq \<Rightarrow> cq_out list \<Rightarrow> cq \<Rightarrow> bool" for m where
  Put: "cq_put_nowait m now i qe s = (Inr (), s') \<Longrightarrow> map_of (cq_queues s') i = Some a \<Longrightarrow>
    cq_step m s [Accepted a qe] s'"
| Refuse: "cq_put_nowait m now i qe s = (Inl e, s') \<Longrightarrow> cq_step m s [] s'"
| Get: "cq_get m now t i s = (a, Inr r, s') \<Longrightarrow> cq_step m s (delivered a r) s'"
| Resume: "a < length (cq_heap s) \<Longrightarrow> t \<in> set (q_woken (cq_heap s ! a)) \<Longrightarrow>
    q_resume t now (cq_heap s ! a) = Inr (r, q) \<Longrightarrow>
    cq_step m s (delivered a r) (set_queue a q s)"
| Cancel: "a < length (cq_heap s) \<Longrightarrow>
    cq_step m s [] (set_queue a (q_cancel t (cq_heap s ! a)) s)"
| Cancelled: "a < length (cq_heap s) \<Longrightarrow>
    cq_step m s [] (set_queue a (q_cancelled t (cq_heap s ! a)) s)"
| TaskDone: "cq_task_done m now i s = (r, s') \<Longrightarrow> cq_step m s [] s'"
| Gc: "a < length (cq_heap s) \<Longrightarrow>
    cq_step m s (map (Pruned a) (filter (\<lambda>qe. is_closing (qe_conn qe)) (q_queue (cq_heap s ! a))))
      (set_queue a (q_gc is_closing (cq_heap s ! a)) s)"
| QueueGc: "(i, a) \<in> set (cq_queues s) \<Longrightarrow>
    queue_gc_item timeout now (i, a) ((s, n), qs, cs) = ((s', n'), qs + 1, cs') \<Longrightarrow>
    cq_step m s (map (Dropped a) (q_queue (cq_heap s ! a))) s'"

inductive cq_run :: "int \<Rightarrow> cq \<Rightarrow> cq_out list \<Rightarrow> cq \<Rightarrow> bool" for m where
  Run_refl: "cq_run m s [] s"
| Run_step: "cq_run m s outs t \<Longrightarrow> cq_step m t os u \<Longrightarrow> cq_run m s (outs @ os) u"

section \<open>The abstract pool of first-in first-out channels\<close>

inductive fifo_step ::
  "(nat \<Rightarrow> queue_entry list) \<Rightarrow> cq_out list \<Rightarrow> (nat \<Rightarrow> queue_entry list) \<Rightarrow> bool" where
  Idle: "fifo_step f [] f"
| Push: "fifo_step f [Accepted a qe] (f(a := f a @ [qe]))"
| Pop: "f a = qe # rest \<Longrightarrow> fifo_step f [Delivered a qe] (f(a := rest))"
| Drain: "fifo_step f (map (Dropped a) (f a)) (f(a := []))"
| Prune: "fifo_step f (map (Pruned a) (filter P (f a))) (f(a := filter (\<lambda>x. \<not> P x) (f a)))"

inductive_cases fifo_stepE: "fifo_step f os g"

lemma fifo_delivered:
  assumes "r = None \<Longrightarrow> g = f" "\<And>qe. r = Some qe \<Longrightarrow> f a = qe # g a \<and> g = f(a := g a)"
  shows "fifo_step f (delivered a r) g"
proof (cases r)
  case None
  with assms(1) show ?thesis by (simp add: delivered_def fifo_step.Idle)
next
  case (Some qe)
  with assms(2) fifo_step.Pop [of f a qe "g a"] show ?thesis by (simp add: delivered_def)
qed

lemma queue_gc_item_ok:
  assumes "wf_cq m s" "(i, a) \<in> set (cq_queues s)"
    "queue_gc_item timeout now (i, a) ((s, n), qs, cs) = ((s', n'), qs', cs')"
  shows "(now - q_last_active (cq_heap s ! a) > timeout \<and> wf_cq m s' \<and>
      contents s' = (contents s)(a := []) \<and> n' = fold drop_probe (contents s a) n \<and>
      qs' = qs + 1 \<and> cs' = cs + length (contents s a) \<and>
      cq_queues s' = filter (\<lambda>(j, b). j \<noteq> i) (cq_queues s) \<and>
      length (cq_heap s') = length (cq_heap s) \<and>
      (\<forall>b. b \<noteq> a \<longrightarrow> cq_heap s' ! b = cq_heap s ! b)) \<or>
    (now - q_last_active (cq_heap s ! a) \<le> timeout \<and> s' = s \<and> n' = n \<and> qs' = qs \<and> cs' = cs)"
proof -
  let ?q = "cq_heap s ! a"
  have a: "a < length (cq_heap s)" using assms(1,2) by (auto simp: wf_cq_def)
  note wf = wf_cq_queue [OF assms(1) a]
  obtain q2 n2 k where clean: "q_cleanup now (?q, n) = ((q2, n2), k)" by (metis prod.exhaust)
  note facts = q_cleanup_ok [OF wf clean]
  have active: "q_last_active_opt ?q = Some (q_last_active ?q)"
    using wf by (simp add: q_last_active_opt_def wf_queue_def)
  show ?thesis
  proof (cases "now - q_last_active ?q > timeout")
    case True
    let ?s = "s\<lparr>cq_queues := filter (\<lambda>(j, b). j \<noteq> i) (cq_queues s)\<rparr>"
    have s': "s' = set_queue a q2 ?s" "n' = n2" "qs' = qs + 1" "cs' = cs + k"
      using assms(3) True active clean by (auto simp: queue_gc_item_def Let_def)
    have "wf_cq m ?s"
      using assms(1) by (auto simp: wf_cq_def distinct_map_filter split_beta)
    with facts(1) have "wf_cq m s'" unfolding s' by (intro set_queue_wf) auto
    moreover have "contents s' = (contents s)(a := [])"
      unfolding s' using contents_set_queue [of a ?s q2] a facts(2)
      by (simp add: contents_def fun_eq_iff)
    ultimately show ?thesis
      using True s' facts(3,4) a by (simp add: contents_nth set_queue_def)
  next
    case False
    then show ?thesis using assms(3) active by (simp add: queue_gc_item_def)
  qed
qed

section \<open>The module refines the abstract pool\<close>

lemma cq_put_ok:
  assumes "wf_cq m s" "cq_put_nowait m now i qe s = (r, s')"
  shows "wf_cq m s' \<and> (case r of
      Inl e \<Rightarrow> e = QueueFull [qe_conn qe] \<and> contents s' = contents s
    | Inr _ \<Rightarrow> \<exists>a. map_of (cq_queues s') i = Some a \<and>
        contents s' = (contents s)(a := contents s a @ [qe]))"
proof -
  obtain a t where get: "get_queue m now i s = (a, t)" by fastforce
  note facts = get_queue_ok [OF assms(1) get]
  note wf = wf_cq_queue [OF facts(1,3)]
  show ?thesis
  proof (cases "qe_immediate qe \<and> length (q_queue (cq_heap t ! a)) \<ge> length (q_getters (cq_heap t ! a))")
    case True
    with assms(2) get facts(1,2) show ?thesis by (auto simp: cq_put_nowait_def Let_def)
  next
    case False
    show ?thesis
    proof (cases "q_put_nowait qe (cq_heap t ! a)")
      case (Inl e)
      with assms(2) get facts(1,2) False show ?thesis
        by (auto simp: cq_put_nowait_def Let_def)
    next
      case (Inr q)
      note put = q_put_ok [OF wf Inr]
      from Inr assms(2) get False have s': "r = Inr ()" "s' = set_queue a q t"
        by (auto simp: cq_put_nowait_def Let_def)
      have "contents s' = (contents t)(a := contents t a @ [qe])"
        unfolding s' using contents_set_queue [OF facts(3)] put(2) contents_nth [OF facts(3)] by simp
      with s' facts set_queue_wf [OF facts(1) put(1)] show ?thesis by auto
    qed
  qed
qed

lemma cq_get_ok:
  assumes "wf_cq m s" "cq_get m now t i s = (a, Inr r, s')"
  shows "wf_cq m s'" "fifo_step (contents s) (delivered a r) (contents s')"
proof -
  obtain s1 where get: "get_queue m now i s = (a, s1)"
    and q: "\<exists>q. q_get t now (cq_heap s1 ! a) = Inr (r, q) \<and> s' = set_queue a q s1"
    using assms(2) by (auto simp: cq_get_def split: prod.splits sum.splits)
  from q obtain q where q: "q_get t now (cq_heap s1 ! a) = Inr (r, q)" "s' = set_queue a q s1"
    by blast
  note facts = get_queue_ok [OF assms(1) get]
  note ok = q_get_ok [OF wf_cq_queue [OF facts(1,3)] q(1)]
  show "wf_cq m s'" unfolding q(2) using facts(1) ok(1) by (rule set_queue_wf)
  show "fifo_step (contents s) (delivered a r) (contents s')"
    unfolding q(2) contents_set_queue [OF facts(3)] facts(2) [symmetric]
    by (rule fifo_delivered) (use ok contents_nth [OF facts(3)] in \<open>auto simp: fun_eq_iff\<close>)
qed

lemma cq_task_done_ok:
  assumes "wf_cq m s" "cq_task_done m now i s = (r, s')"
  shows "wf_cq m s'" "contents s' = contents s"
proof -
  obtain a t where get: "get_queue m now i s = (a, t)" by fastforce
  note facts = get_queue_ok [OF assms(1) get]
  note wf = wf_cq_queue [OF facts(1,3)]
  have "wf_cq m s' \<and> contents s' = contents s"
  proof (cases "q_task_done (cq_heap t ! a)")
    case (Inl e)
    with assms(2) get facts(1,2) show ?thesis by (simp add: cq_task_done_def)
  next
    case (Inr q)
    note kept = q_task_done_ok [OF Inr, of m]
    from Inr assms(2) get have "s' = set_queue a q t" by (simp add: cq_task_done_def)
    moreover have "contents (set_queue a q t) = contents t"
      using contents_set_queue [OF facts(3)] kept contents_nth [OF facts(3)] by (simp add: fun_eq_iff)
    moreover have "wf_cq m (set_queue a q t)"
      using facts(1) kept wf by (intro set_queue_wf) auto
    ultimately show ?thesis using facts(2) by simp
  qed
  then show "wf_cq m s'" "contents s' = contents s" by blast+
qed

lemma cq_step_refines:
  assumes "cq_step m s os s'" "wf_cq m s"
  shows "wf_cq m s' \<and> fifo_step (contents s) os (contents s')"
  using assms
proof cases
  case (Put now i qe a)
  with cq_put_ok [OF assms(2) Put(2)] show ?thesis by (auto intro: fifo_step.Push)
next
  case (Refuse now i qe e)
  with cq_put_ok [OF assms(2) Refuse(2)] show ?thesis by (auto intro: fifo_step.Idle)
next
  case (Get now t i a r)
  with cq_get_ok [OF assms(2) Get(2)] show ?thesis by simp
next
  case (Resume a t now r q)
  note ok = q_resume_ok [OF wf_cq_queue [OF assms(2) Resume(3)] Resume(5)]
  have "fifo_step (contents s) (delivered a r) (contents (set_queue a q s))"
    unfolding contents_set_queue [OF Resume(3)]
    by (rule fifo_delivered) (use ok contents_nth [OF Resume(3)] in \<open>auto simp: fun_eq_iff\<close>)
  with Resume set_queue_wf [OF assms(2) ok(1)] show ?thesis by simp
next
  case (Cancel a t)
  have "contents s' = contents s"
    using Cancel contents_set_queue [OF Cancel(3)] by (simp add: contents_nth fun_eq_iff)
  with Cancel set_queue_wf [OF assms(2)] wf_cq_queue [OF assms(2) Cancel(3)]
  show ?thesis by (auto intro: fifo_step.Idle)
next
  case (Cancelled a t)
  have "contents s' = contents s"
    using Cancelled contents_set_queue [OF Cancelled(3)] by (simp add: contents_nth fun_eq_iff)
  with Cancelled set_queue_wf [OF assms(2)] wf_cq_queue [OF assms(2) Cancelled(3)]
  show ?thesis by (auto intro: fifo_step.Idle)
next
  case (TaskDone now i r)
  with cq_task_done_ok [OF assms(2) TaskDone(2)] show ?thesis by (auto intro: fifo_step.Idle)
next
  case (Gc a closed)
  note wf = set_queue_wf [OF assms(2) q_gc_ok(2) [OF wf_cq_queue [OF assms(2) Gc(3)]], of a closed]
  show ?thesis
    using Gc wf fifo_step.Prune [of "contents s" a "\<lambda>qe. closed (qe_conn qe)"]
    by (simp add: contents_set_queue [OF Gc(3)] contents_nth [OF Gc(3)] q_gc_ok(1))
next
  case (QueueGc i a timeout now n qs cs n' cs')
  have a: "a < length (cq_heap s)" using assms(2) QueueGc(2) by (auto simp: wf_cq_def)
  from queue_gc_item_ok [OF assms(2) QueueGc(2,3)] have
    "wf_cq m s'" "contents s' = (contents s)(a := [])" by auto
  with QueueGc(1) fifo_step.Drain [of "contents s" a] contents_nth [OF a] show ?thesis by simp
qed

section \<open>What the abstract pool guarantees\<close>

fun accepted_at :: "nat \<Rightarrow> cq_out \<Rightarrow> queue_entry list" where
  "accepted_at a (Accepted b qe) = (if a = b then [qe] else [])"
| "accepted_at a _ = []"

fun served_at :: "nat \<Rightarrow> cq_out \<Rightarrow> queue_entry list" where
  "served_at a (Delivered b qe) = (if a = b then [qe] else [])"
| "served_at a (Dropped b qe) = (if a = b then [qe] else [])"
| "served_at a _ = []"

fun pruned_at :: "nat \<Rightarrow> cq_out \<Rightarrow> queue_entry list" where
  "pruned_at a (Pruned b qe) = (if a = b then [qe] else [])"
| "pruned_at a _ = []"

definition accepted :: "nat \<Rightarrow> cq_out list \<Rightarrow> queue_entry list" where
  "accepted a os = concat (map (accepted_at a) os)"

definition served :: "nat \<Rightarrow> cq_out list \<Rightarrow> queue_entry list" where
  "served a os = concat (map (served_at a) os)"

definition pruned :: "nat \<Rightarrow> cq_out list \<Rightarrow> queue_entry list" where
  "pruned a os = concat (map (pruned_at a) os)"

lemma observations_append [simp]:
  "accepted a (os @ ps) = accepted a os @ accepted a ps"
  "served a (os @ ps) = served a os @ served a ps"
  "pruned a (os @ ps) = pruned a os @ pruned a ps"
  "accepted a [] = []" "served a [] = []" "pruned a [] = []"
  by (simp_all add: accepted_def served_def pruned_def)

lemma observations_one [simp]:
  "accepted a [Accepted b qe] = (if a = b then [qe] else [])" "accepted a [Delivered b qe] = []"
  "served a [Accepted b qe] = []" "served a [Delivered b qe] = (if a = b then [qe] else [])"
  "pruned a [Accepted b qe] = []" "pruned a [Delivered b qe] = []"
  by (simp_all add: accepted_def served_def pruned_def)

lemma observations_map [simp]:
  "accepted a (map (Dropped b) xs) = []" "accepted a (map (Pruned b) xs) = []"
  "served a (map (Dropped b) xs) = (if a = b then xs else [])" "served a (map (Pruned b) xs) = []"
  "pruned a (map (Dropped b) xs) = []" "pruned a (map (Pruned b) xs) = (if a = b then xs else [])"
  by (induction xs) (auto simp: accepted_def served_def pruned_def)

lemma fifo_step_order:
  assumes "fifo_step f os g" "subseq (served a outs @ f a) (accepted a outs)"
  shows "subseq (served a (outs @ os) @ g a) (accepted a (outs @ os))"
  using assms(1)
proof cases
  case (Prune b P)
  have "subseq (served a outs @ filter (\<lambda>x. \<not> P x) (f a)) (served a outs @ f a)"
    by (intro list_emb_append_mono) auto
  with Prune assms(2) show ?thesis by (auto intro: subseq_order.order_trans)
next
  case (Push b qe)
  have "subseq ((served a outs @ f a) @ [qe]) (accepted a outs @ [qe])"
    using assms(2) by (intro list_emb_append_mono) auto
  with Push assms(2) show ?thesis by (cases "a = b") auto
qed (use assms(2) in auto)

lemma fifo_step_conserves:
  assumes "fifo_step f os g"
    "mset (accepted a outs) = mset (served a outs) + mset (pruned a outs) + mset (f a)"
  shows "mset (accepted a (outs @ os)) =
    mset (served a (outs @ os)) + mset (pruned a (outs @ os)) + mset (g a)"
  using assms(1)
proof cases
  case (Prune b P)
  then show ?thesis using assms(2) multiset_partition [of "mset (f a)" P] by simp
qed (use assms(2) in auto)

lemma cq_run_invariant:
  assumes "cq_run m s outs s'" "wf_cq m s" "contents s = (\<lambda>a. [])"
  shows "wf_cq m s' \<and> subseq (served a outs @ contents s' a) (accepted a outs) \<and>
    mset (accepted a outs) = mset (served a outs) + mset (pruned a outs) + mset (contents s' a)"
  using assms
proof (induction rule: cq_run.induct)
  case (Run_step s outs t os u)
  then have IH: "wf_cq m t" "subseq (served a outs @ contents t a) (accepted a outs)"
    "mset (accepted a outs) = mset (served a outs) + mset (pruned a outs) + mset (contents t a)"
    by blast+
  from cq_step_refines [OF Run_step.hyps(2) IH(1)]
  have ref: "wf_cq m u" "fifo_step (contents t) os (contents u)" by blast+
  with fifo_step_order [OF ref(2) IH(2)] fifo_step_conserves [OF ref(2) IH(3)] show ?case by blast
qed simp

lemma cq_empty_ok: "wf_cq m cq_empty" "contents cq_empty = (\<lambda>a. [])"
  by (simp_all add: wf_cq_def cq_empty_def contents_def fun_eq_iff)

lemmas cq_run_empty = cq_run_invariant [OF _ cq_empty_ok]

section \<open>Queues the garbage collection forgot\<close>

text \<open>A queue object no provider id leads to any more.\<close>

definition orphan :: "cq \<Rightarrow> nat \<Rightarrow> bool" where
  "orphan s a \<longleftrightarrow> a < length (cq_heap s) \<and> a \<notin> snd ` set (cq_queues s)"

lemma get_queue_orphan:
  assumes "wf_cq m s" "get_queue m now i s = (b, t)" "orphan s a"
  shows "orphan t a" "b \<noteq> a"
  using get_queue_ok [OF assms(1,2)] assms(3) by (force simp: orphan_def)+

lemma orphan_set_queue [simp]: "orphan (set_queue b q s) a \<longleftrightarrow> orphan s a"
  by (simp add: orphan_def)

lemma cq_put_orphan:
  assumes "wf_cq m s" "cq_put_nowait m now i qe s = (r, s')" "orphan s a"
  shows "orphan s' a"
proof -
  obtain b t where get: "get_queue m now i s = (b, t)" by fastforce
  with assms(2) get_queue_orphan [OF assms(1) get assms(3)] show ?thesis
    by (auto simp: cq_put_nowait_def Let_def split: if_splits sum.splits)
qed

lemma cq_get_orphan:
  assumes "wf_cq m s" "cq_get m now t i s = (b, r, s')" "orphan s a"
  shows "orphan s' a" "b \<noteq> a"
proof -
  obtain b' u where get: "get_queue m now i s = (b', u)" by fastforce
  with assms(2) get_queue_orphan [OF assms(1) get assms(3)] show "orphan s' a" "b \<noteq> a"
    by (auto simp: cq_get_def split: sum.splits)
qed

lemma cq_task_done_orphan:
  assumes "wf_cq m s" "cq_task_done m now i s = (r, s')" "orphan s a"
  shows "orphan s' a"
proof -
  obtain b t where get: "get_queue m now i s = (b, t)" by fastforce
  with assms(2) get_queue_orphan [OF assms(1) get assms(3)] show ?thesis
    by (auto simp: cq_task_done_def split: sum.splits)
qed

lemma cq_step_orphan:
  assumes "cq_step m s os s'" "wf_cq m s" "orphan s a"
  shows "orphan s' a \<and> accepted a os = []"
  using assms
proof cases
  case (Put now i qe b)
  note orphan = cq_put_orphan [OF assms(2) Put(2) assms(3)]
  have "b \<in> snd ` set (cq_queues s')" using map_of_SomeD [OF Put(3)] by force
  then have "b \<noteq> a" using orphan by (auto simp: orphan_def)
  with orphan Put(1) show ?thesis by simp
next
  case (Refuse now i qe e)
  with cq_put_orphan [OF assms(2) Refuse(2) assms(3)] show ?thesis by simp
next
  case (Get now t i b r)
  with cq_get_orphan [OF assms(2) Get(2) assms(3)] show ?thesis
    by (auto simp: delivered_def split: option.splits)
next
  case (Resume b t now r q)
  with assms(3) show ?thesis by (auto simp: delivered_def split: option.splits)
next
  case (TaskDone now i r)
  with cq_task_done_orphan [OF assms(2) TaskDone(2) assms(3)] show ?thesis by simp
next
  case (QueueGc i b timeout now n qs cs n' cs')
  from queue_gc_item_ok [OF assms(2) QueueGc(2,3)] have
    "length (cq_heap s') = length (cq_heap s)"
    "cq_queues s' = filter (\<lambda>(j, b). j \<noteq> i) (cq_queues s)" by auto
  with assms(3) QueueGc(1) show ?thesis by (auto simp: orphan_def)
qed (use assms(3) in simp_all)

lemma orphan_run:
  assumes "cq_run m s outs s'" "wf_cq m s" "orphan s a" "contents s a = []"
  shows "wf_cq m s' \<and> orphan s' a \<and> contents s' a = [] \<and> served a outs = []"
  using assms
proof (induction rule: cq_run.induct)
  case (Run_step s outs t os u)
  then have t: "wf_cq m t" "orphan t a" "contents t a = []" "served a outs = []" by blast+
  from cq_step_refines [OF Run_step.hyps(2) t(1)]
  have ref: "wf_cq m u" "fifo_step (contents t) os (contents u)" by blast+
  from cq_step_orphan [OF Run_step.hyps(2) t(1,2)]
  have quiet: "orphan u a" "accepted a os = []" by blast+
  from ref(2) quiet(2) t(3) have "contents u a = [] \<and> served a os = []"
    by (cases rule: fifo_stepE) (auto split: if_splits)
  with ref(1) quiet t(4) show ?case by simp
qed simp

section \<open>Properties\<close>


text \<open>
  C5: No connection request is lost or handed out twice: in every run the requests accepted
  by a queue are, with multiplicities, those handed to a provider or told that it timed out, those
  whose probe had disconnected, and those still waiting.
\<close>

theorem queue_conserves:
  assumes "cq_run m cq_empty outs s"
  shows "mset (accepted a outs) =
    mset (served a outs) + mset (pruned a outs) + mset (contents s a)"
  using cq_run_empty [OF assms] by blast

text \<open>
  No queue ever holds more than \<^verbatim>\<open>MAX_QUEUE_SIZE\<close> requests, in any run, when that is
  positive.
\<close>

theorem queue_bounded:
  assumes "cq_run m cq_empty outs s" "0 < m"
  shows "int (length (contents s a)) \<le> m"
proof (cases "a < length (cq_heap s)")
  case True
  from cq_run_empty [OF assms(1)] have "wf_cq m s" by blast
  with wf_cq_queue [OF _ True] assms(2) contents_nth [OF True] show ?thesis
    by (auto simp: wf_queue_def)
next
  case False
  with assms(2) show ?thesis by (simp add: contents_def)
qed


text \<open>Examples: a provider waits, a request arrives, the provider's task runs again.\<close>

definition demo_entry :: "conn \<Rightarrow> queue_entry" where
  "demo_entry c =
     \<lparr>qe_sim = \<lparr>s_id = 1, s_iccid = None, s_imsi = None, s_in_use = False, s_provider = 5\<rparr>,
      qe_probe_id = 6,
      qe_con_req = \<lparr>cr_identifier = By_Iccid (Iccid ''894301''), cr_flags = DEFAULT\<rparr>,
      qe_conn = c, qe_immediate = False\<rparr>"

lemmas cq_eval = cq_put_nowait_def cq_get_def get_queue_def q_get_def q_put_nowait_def
  q_full_def q_push_def q_wakeup_def q_resume_def q_pop_def q_acquire_def q_release_def
  set_queue_def cq_empty_def q_init_def demo_entry_def Let_def

definition demo_waiting :: "nat \<Rightarrow> cq" where
  "demo_waiting t = \<lparr>cq_queues = [(5, 0)],
     cq_heap = [(q_init 2 0)\<lparr>q_getters := [(t, False)]\<rparr>]\<rparr>"

definition demo_put :: "nat \<Rightarrow> cq" where
  "demo_put t = \<lparr>cq_queues = [(5, 0)],
     cq_heap = [(q_init 2 0)\<lparr>q_queue := [demo_entry 1], q_woken := [t], q_unfinished := 1\<rparr>]\<rparr>"

lemma demo_run:
  "cq_run 2 cq_empty [] (demo_waiting 9)"
  "cq_run 2 cq_empty [Accepted 0 (demo_entry 1)] (demo_put 9)"
proof -
  have "cq_get 2 0 9 5 cq_empty = (0, Inr None, demo_waiting 9)"
    by (simp add: cq_eval demo_waiting_def)
  from cq_step.Get [OF this] have step: "cq_step 2 cq_empty [] (demo_waiting 9)"
    by (simp add: delivered_def)
  from cq_run.Run_step [OF cq_run.Run_refl this]
  show run: "cq_run 2 cq_empty [] (demo_waiting 9)" by simp
  have "cq_put_nowait 2 1 5 (demo_entry 1) (demo_waiting 9) = (Inr (), demo_put 9)"
    by (simp add: cq_eval demo_waiting_def demo_put_def)
  from cq_step.Put [OF this, of 0] have "cq_step 2 (demo_waiting 9) [Accepted 0 (demo_entry 1)] (demo_put 9)"
    by (simp add: demo_put_def)
  from cq_run.Run_step [OF run this]
  show "cq_run 2 cq_empty [Accepted 0 (demo_entry 1)] (demo_put 9)" by simp
qed


theorem queue_conserves_witness: "mset (contents (demo_put 9) 0) = {#demo_entry 1#}"
  using queue_conserves [OF demo_run(2), of 0] by simp

theorem queue_bounded_witness: "int (length (contents (demo_put 9) 0)) \<le> 2"
  using queue_bounded [OF demo_run(2), of 0] by simp


end
