(* ===== verification/Tunnel_Server.thy ===== *)
theory Tunnel_Server
  imports Byte_Streams Tunnel_Auth Connection_Queue
begin

text \<open>
  The tunnel server's connection handlers: \<^verbatim>\<open>Server._dispatch\<close> and \<^verbatim>\<open>Server._handle\<close>
  (\<^verbatim>\<open>tunnel/server.py\<close>), \<^verbatim>\<open>ProbeHandler\<close> (\<^verbatim>\<open>tunnel/probe_handler.py\<close>) and
  \<^verbatim>\<open>ProviderHandler\<close> with its relay (\<^verbatim>\<open>tunnel/provider_handler.py\<close>).

  A handler is a function over the server's whole state. What the outside decides is part of
  that state or a script: the bytes each peer will send (\<open>t_in\<close>), whether \<^verbatim>\<open>drain\<close> raises
  (\<open>t_drain\<close>), whether a timed read expires (\<open>t_timeout\<close>), and, where a task waits for one of
  several things, a list of events saying which came first and what other tasks did meanwhile.
  A handler whose script ends while it waits is reported as \<open>Waiting\<close>.
\<close>

section \<open>The server's state\<close>

record 'h tunnel =
  t_srv :: "'h srv"
  t_cq :: cq
  t_net :: net
  t_in :: "conn \<Rightarrow> reader"
  t_drain :: "conn \<Rightarrow> srv_error option"
  t_timeout :: "conn \<Rightarrow> bool"
  t_bg :: "conn \<Rightarrow> apdu_packet list"
  t_callbacks :: "uuid list"

record tunnel_config =
  authmsg_timeout :: "time option"
  probe_request_timeout :: "time option"
  provider_response_timeout :: "time option"
  max_queue_size :: int

definition with_srv :: "('h srv, 'a) act \<Rightarrow> ('h tunnel, 'a) act" where
  "with_srv m s = (case m (t_srv s) of (r, d) \<Rightarrow> (r, s\<lparr>t_srv := d\<rparr>))"

definition on_net :: "(net \<Rightarrow> net) \<Rightarrow> 'h tunnel \<Rightarrow> 'h tunnel" where
  "on_net f s = s\<lparr>t_net := f (t_net s)\<rparr>"

definition is_closing :: "'h tunnel \<Rightarrow> conn \<Rightarrow> bool" where
  "is_closing s c = closing (t_net s) c"

text \<open>\<^verbatim>\<open>write_msg\<close>: encode, write, and wait until the transport takes more.\<close>

definition write_msg :: "conn \<Rightarrow> py_error + bytes \<Rightarrow> ('h tunnel, unit) act" where
  "write_msg c msg s =
     (case msg of
        Inl e \<Rightarrow> (Inl (Wire e), s)
      | Inr bs \<Rightarrow>
          ((case t_drain s c of None \<Rightarrow> Inr () | Some e \<Rightarrow> Inl e), on_net (net_write c bs) s))"

text \<open>\<^verbatim>\<open>writer.close()\<close>; the \<^verbatim>\<open>wait_closed()\<close> that follows it only waits.\<close>

definition close_conn :: "conn \<Rightarrow> ('h tunnel, unit) act" where
  "close_conn c s = (Inr (), on_net (net_close c) s)"

definition read_message :: "conn \<Rightarrow> (bytes \<Rightarrow> py_error + 'm) \<Rightarrow> ('h tunnel, 'm) act" where
  "read_message c parser s =
     (case read_msg parser (t_in s c) of
        None \<Rightarrow> (Inl SrvAssertionError, s)
      | Some (r, rd) \<Rightarrow>
          ((case r of Inl e \<Rightarrow> Inl (Wire e) | Inr m \<Rightarrow> Inr m), s\<lparr>t_in := (t_in s)(c := rd)\<rparr>))"

text \<open>\<^verbatim>\<open>asyncio.timeout(limit)\<close>; no limit never expires.\<close>

definition with_timeout :: "time option \<Rightarrow> conn \<Rightarrow> ('h tunnel, 'a) act \<Rightarrow> ('h tunnel, 'a) act" where
  "with_timeout limit c m s =
     (if limit \<noteq> None \<and> t_timeout s c then (Inl SrvTimeoutError, s) else m s)"

definition respond :: "conn \<Rightarrow> connect_status \<Rightarrow> ('h tunnel, unit) act" where
  "respond c status = write_msg c (connect_response_encode (ConnectResponse status))"

definition refuse :: "conn \<Rightarrow> connect_status \<Rightarrow> ('h tunnel, unit) act" where
  "refuse c status = bnd (respond c status) (\<lambda>_. close_conn c)"

definition put_request :: "tunnel_config \<Rightarrow> time \<Rightarrow> uuid \<Rightarrow> queue_entry \<Rightarrow> ('h tunnel, unit) act" where
  "put_request cfg now pid qe s =
     (case cq_put_nowait (max_queue_size cfg) now pid qe (t_cq s) of (r, q) \<Rightarrow> (r, s\<lparr>t_cq := q\<rparr>))"

definition request_done :: "tunnel_config \<Rightarrow> time \<Rightarrow> uuid \<Rightarrow> ('h tunnel, unit) act" where
  "request_done cfg now pid s =
     (case cq_task_done (max_queue_size cfg) now pid (t_cq s) of (r, q) \<Rightarrow> (r, s\<lparr>t_cq := q\<rparr>))"

section \<open>The probe's side\<close>

text \<open>
  \<^verbatim>\<open>auth.get_sim\<close> in its transaction; \<open>None\<close> is the \<^verbatim>\<open>AuthError\<close> the handler catches, other
  exceptions go on.
\<close>

definition find_sim ::
  "'h handler \<Rightarrow> token \<Rightarrow> sim_identifier \<Rightarrow> ('h tunnel, sim_row option option) act" where
  "find_sim H t identifier s =
     (case with_srv (in_transaction (get_sim H t identifier)) s of
        (Inr sim, s') \<Rightarrow> (Inr (Some sim), s')
      | (Inl e, s') \<Rightarrow> if e = AuthError then (Inr None, s') else (Inl e, s'))"

text \<open>The hand-over to the provider's queue; a full queue is answered.\<close>

fun is_queue_full :: "srv_error \<Rightarrow> bool" where
  "is_queue_full (QueueFull cs) = True"
| "is_queue_full _ = False"

definition enqueue_request :: "tunnel_config \<Rightarrow> time \<Rightarrow> uuid \<Rightarrow> queue_entry \<Rightarrow> ('h tunnel, unit) act" where
  "enqueue_request cfg now pid qe s =
     (case put_request cfg now pid qe s of
        (Inl e, s') \<Rightarrow>
          if is_queue_full e then refuse (qe_conn qe) Con_NotAvailable s' else (Inl e, s')
      | (Inr x, s') \<Rightarrow> (Inr x, s'))"

text \<open>
  \<^verbatim>\<open>read_msg\<close> raises on a malformed request and never returns \<^verbatim>\<open>None\<close>, so the branch for
  \<^verbatim>\<open>con_req is None\<close> has no counterpart.
\<close>

definition answer_lookup ::
  "tunnel_config \<Rightarrow> time \<Rightarrow> 'h handler \<Rightarrow> conn \<Rightarrow> token \<Rightarrow> connect_request \<Rightarrow> sim_row option option \<Rightarrow>
    ('h tunnel, unit) act" where
  "answer_lookup cfg now H c session_token con_req found =
     (case found of
        None \<Rightarrow> refuse c Con_Forbidden
      | Some None \<Rightarrow> refuse c Con_NotFound
      | Some (Some sim) \<Rightarrow>
          bnd (with_srv (query (\<lambda>d. get_provider d (s_provider sim)))) (\<lambda>provider.
          if provider = None then refuse c Con_NotAvailable
          else
            bnd (with_srv (lift_h (identity H session_token))) (\<lambda>probe_id.
              case probe_id of
                None \<Rightarrow> throw SrvAssertionError
              | Some probe_id \<Rightarrow>
                  enqueue_request cfg now (s_provider sim)
                    \<lparr>qe_sim = sim, qe_probe_id = probe_id, qe_con_req = con_req,
                     qe_conn = c, qe_immediate = (cr_flags con_req = NO_WAIT)\<rparr>)))"

definition probe_handle_request ::
  "tunnel_config \<Rightarrow> time \<Rightarrow> 'h handler \<Rightarrow> conn \<Rightarrow> token \<Rightarrow> ('h tunnel, unit) act" where
  "probe_handle_request cfg now H c session_token =
     bnd (with_timeout (probe_request_timeout cfg) c (read_message c connect_request_decode)) (\<lambda>con_req.
     bnd (find_sim H session_token (cr_identifier con_req)) (\<lambda>found.
       answer_lookup cfg now H c session_token con_req found))"

definition close_if_open :: "conn \<Rightarrow> 'h tunnel \<Rightarrow> 'h tunnel" where
  "close_if_open c s = (if is_closing s c then s else on_net (net_close c) s)"

text \<open>\<^verbatim>\<open>ProbeHandler.handle\<close> catches every exception and closes the connection.\<close>

definition probe_handle ::
  "tunnel_config \<Rightarrow> time \<Rightarrow> 'h handler \<Rightarrow> conn \<Rightarrow> token \<Rightarrow> ('h tunnel, unit) act" where
  "probe_handle cfg now H c t s =
     (case probe_handle_request cfg now H c t s of
        (Inr _, s') \<Rightarrow> (Inr (), s')
      | (Inl e, s') \<Rightarrow> (Inr (), close_if_open c s'))"

section \<open>The relay\<close>

datatype side = Probe_side | Provider_side

fun other_side :: "side \<Rightarrow> side" where
  "other_side Probe_side = Provider_side"
| "other_side Provider_side = Probe_side"

fun side_sender :: "side \<Rightarrow> sender" where
  "side_sender Probe_side = Sender_Probe"
| "side_sender Provider_side = Sender_Provider"

text \<open>The two \<^verbatim>\<open>ApduStream\<close> objects: their connections, the client ids they carry, and the SIM.\<close>

record session =
  ss_conn :: "side \<Rightarrow> conn"
  ss_client_id :: "side \<Rightarrow> uuid"
  ss_sim :: sim_row

text \<open>
  \<open>R_done sides\<close>: \<^verbatim>\<open>asyncio.wait\<close> returns with these receive tasks finished, in the order the
  loop takes them. \<open>R_send side\<close>: one round of that stream's \<^verbatim>\<open>_send_bg_task\<close>.
\<close>

datatype relay_event = R_done "side list" | R_send side

datatype progress = Finished | Waiting

definition send_background :: "conn \<Rightarrow> apdu_packet \<Rightarrow> 'h tunnel \<Rightarrow> 'h tunnel" where
  "send_background c p s = s\<lparr>t_bg := (t_bg s)(c := t_bg s c @ [p])\<rparr>"

definition send_bg_task :: "conn \<Rightarrow> 'h tunnel \<Rightarrow> 'h tunnel" where
  "send_bg_task c s =
     (case t_bg s c of
        [] \<Rightarrow> s
      | p # ps \<Rightarrow> snd (write_msg c (apdu_encode p) (s\<lparr>t_bg := (t_bg s)(c := ps)\<rparr>)))"

definition log_packet :: "session \<Rightarrow> side \<Rightarrow> apdu_packet \<Rightarrow> 'h tunnel \<Rightarrow> 'h tunnel" where
  "log_packet ses side p s =
     s\<lparr>t_srv := (t_srv s)\<lparr>srv_db := log_apdu (ss_client_id ses Provider_side)
       (ss_client_id ses Probe_side) (ss_sim ses) p (side_sender side) (srv_db (t_srv s))\<rparr>\<rparr>"

text \<open>The loop over \<^verbatim>\<open>done\<close>; the result says whether the relay goes on.\<close>

fun relay_done :: "session \<Rightarrow> side list \<Rightarrow> ('h tunnel, bool) act" where
  "relay_done ses [] s = (Inr True, s)"
| "relay_done ses (t # ts) s =
     (case srv_recv (t_in s (ss_conn ses t)) of
        None \<Rightarrow> (Inl SrvAssertionError, s)
      | Some (res, rd) \<Rightarrow>
          let s = s\<lparr>t_in := (t_in s)(ss_conn ses t := rd)\<rparr> in
          (case res of
             Inl e \<Rightarrow>
               if e = IncompleteReadError \<or> e = ValueError then (Inr False, s) else (Inl (Wire e), s)
           | Inr None \<Rightarrow> (Inr False, s)
           | Inr (Some p) \<Rightarrow>
               relay_done ses ts
                 (send_background (ss_conn ses (other_side t)) p (log_packet ses t p s))))"

fun relay_loop :: "session \<Rightarrow> relay_event list \<Rightarrow> ('h tunnel, progress) act" where
  "relay_loop ses [] s = (Inr Waiting, s)"
| "relay_loop ses (R_send side # es) s = relay_loop ses es (send_bg_task (ss_conn ses side) s)"
| "relay_loop ses (R_done ts # es) s =
     (case relay_done ses ts s of
        (Inl e, s') \<Rightarrow> (Inl e, s')
      | (Inr True, s') \<Rightarrow> relay_loop ses es s'
      | (Inr False, s') \<Rightarrow> (Inr Finished, s'))"

definition close_session :: "session \<Rightarrow> 'h tunnel \<Rightarrow> 'h tunnel" where
  "close_session ses s =
     on_net (net_close (ss_conn ses Provider_side)) (on_net (net_close (ss_conn ses Probe_side)) s)"

definition handle_established_connection ::
  "session \<Rightarrow> relay_event list \<Rightarrow> ('h tunnel, progress) act" where
  "handle_established_connection ses es s =
     (case relay_loop ses es s of
        (Inr Waiting, s') \<Rightarrow> (Inr Waiting, s')
      | (r, s') \<Rightarrow> (r, close_session ses s'))"

section \<open>The provider's side\<close>

text \<open>
  How the wait for \<^verbatim>\<open>q_task\<close> and \<^verbatim>\<open>eof_task\<close> ends: a request was handed over, the provider
  had gone, or both; the request is the queue's, if \<^verbatim>\<open>get\<close> returned at once. The second
  component of a script entry is what the other tasks did while this one waited.
\<close>

datatype wakeup = W_queue queue_entry | W_both queue_entry | W_eof

datatype wait_result = Request queue_entry | Disconnected | Suspended

fun settle :: "queue_entry option \<Rightarrow> wakeup \<Rightarrow> wakeup" where
  "settle None w = w"
| "settle (Some qe) (W_queue _) = W_queue qe"
| "settle (Some qe) (W_both _) = W_both qe"
| "settle (Some qe) W_eof = W_both qe"

definition cancel_get :: "nat \<Rightarrow> nat \<Rightarrow> 'h tunnel \<Rightarrow> 'h tunnel" where
  "cancel_get a tid s =
     s\<lparr>t_cq := set_queue a (q_cancelled tid (q_cancel tid (cq_heap (t_cq s) ! a))) (t_cq s)\<rparr>"

fun provider_wait ::
  "tunnel_config \<Rightarrow> time \<Rightarrow> nat \<Rightarrow> uuid \<Rightarrow> (wakeup \<times> ('h tunnel \<Rightarrow> 'h tunnel)) list \<Rightarrow>
    ('h tunnel, wait_result) act" where
  "provider_wait cfg now tid pid script s =
     (case cq_get (max_queue_size cfg) now tid pid (t_cq s) of
        (a, Inl e, q) \<Rightarrow> (Inl e, s\<lparr>t_cq := q\<rparr>)
      | (a, Inr r, q) \<Rightarrow>
          (case script of
             [] \<Rightarrow> (Inr Suspended, s\<lparr>t_cq := q\<rparr>)
           | (w, env) # script' \<Rightarrow>
               let s = env (s\<lparr>t_cq := q\<rparr>) in
               (case settle r w of
                  W_queue qe \<Rightarrow>
                    let s = s\<lparr>t_callbacks := t_callbacks s @ [pid]\<rparr> in
                    if is_closing s (qe_conn qe) then
                      bnd (close_conn (qe_conn qe)) (\<lambda>_. provider_wait cfg now tid pid script') s
                    else (Inr (Request qe), s)
                | W_both qe \<Rightarrow>
                    bnd (put_request cfg now pid qe) (\<lambda>_.
                    bnd (request_done cfg now pid) (\<lambda>_. ret Disconnected)) s
                | W_eof \<Rightarrow> (Inr Disconnected, cancel_get a tid s))))"

text \<open>
  From the provider's agreement to the end of the session. Both streams are created with the
  probe's id as their client id.
\<close>

definition session_of :: "queue_entry \<Rightarrow> conn \<Rightarrow> session" where
  "session_of qe c =
     \<lparr>ss_conn = (\<lambda>side. case side of Probe_side \<Rightarrow> qe_conn qe | Provider_side \<Rightarrow> c),
      ss_client_id = (\<lambda>side. case side of Probe_side \<Rightarrow> qe_probe_id qe
                                        | Provider_side \<Rightarrow> qe_probe_id qe),
      ss_sim = qe_sim qe\<rparr>"

definition session_body ::
  "uuid \<Rightarrow> queue_entry \<Rightarrow> session \<Rightarrow> relay_event list \<Rightarrow> ('h tunnel, progress) act" where
  "session_body pid qe ses es =
     bnd (with_srv (in_transaction (try_update (sim_used pid (s_id (qe_sim qe)))))) (\<lambda>_.
       handle_established_connection ses es)"

definition run_session ::
  "uuid \<Rightarrow> queue_entry \<Rightarrow> conn \<Rightarrow> relay_event list \<Rightarrow> ('h tunnel, progress) act" where
  "run_session pid qe c es s =
     (case session_body pid qe (session_of qe c) es s of
        (Inr Waiting, s') \<Rightarrow> (Inr Waiting, s')
      | (res, s') \<Rightarrow>
          bnd (with_srv (in_transaction (try_update (sim_unused pid (s_id (qe_sim qe))))))
            (\<lambda>_ s''. (res, s'')) (close_session (session_of qe c) s'))"

definition close_both :: "conn \<Rightarrow> conn \<Rightarrow> ('h tunnel, progress) act" where
  "close_both c d = bnd (close_conn c) (\<lambda>_. bnd (close_conn d) (\<lambda>_. ret Finished))"

definition serve_request ::
  "tunnel_config \<Rightarrow> time \<Rightarrow> uuid \<Rightarrow> queue_entry \<Rightarrow> conn \<Rightarrow> relay_event list \<Rightarrow>
    ('h tunnel, progress) act" where
  "serve_request cfg now pid qe c es s =
     (case write_msg c (connect_request_encode (qe_con_req qe)) s of
        (Inl e, s1) \<Rightarrow>
          (case put_request cfg now pid qe s1 of
             (Inl e', s2) \<Rightarrow> (Inl e', s2)
           | (Inr _, s2) \<Rightarrow> (Inl e, s2))
      | (Inr _, s1) \<Rightarrow>
          (case with_timeout (provider_response_timeout cfg) c
                  (read_message c connect_response_decode) s1 of
             (Inl e, s2) \<Rightarrow>
               if e = SrvTimeoutError then
                 bnd (refuse (qe_conn qe) Con_ProviderTimedOut) (\<lambda>_. ret Finished) s2
               else (Inl e, s2)
           | (Inr con_res, s2) \<Rightarrow>
               bnd (respond (qe_conn qe) (cr_status con_res)) (\<lambda>_.
                 if cr_status con_res \<noteq> Con_Success then close_both c (qe_conn qe)
                 else run_session pid qe c es) s2))"

definition provider_handle_requests ::
  "tunnel_config \<Rightarrow> time \<Rightarrow> 'h handler \<Rightarrow> nat \<Rightarrow> conn \<Rightarrow> token \<Rightarrow>
    (wakeup \<times> ('h tunnel \<Rightarrow> 'h tunnel)) list \<Rightarrow> relay_event list \<Rightarrow> ('h tunnel, progress) act" where
  "provider_handle_requests cfg now H tid c session_token script es =
     bnd (with_srv (lift_h (identity H session_token))) (\<lambda>provider_id.
       case provider_id of
         None \<Rightarrow> throw SrvAssertionError
       | Some pid \<Rightarrow>
           bnd (with_srv (in_transaction (try_update (mark_provider_available pid)))) (\<lambda>_ s.
             case provider_wait cfg now tid pid script s of
               (Inr Suspended, s1) \<Rightarrow> (Inr Waiting, s1)
             | (res, s1) \<Rightarrow>
                 bnd (with_srv (in_transaction (try_update (mark_provider_unavailable pid)))) (\<lambda>_ s2.
                   case res of
                     Inl e \<Rightarrow> (Inl e, s2)
                   | Inr (Request qe) \<Rightarrow> serve_request cfg now pid qe c es s2
                   | Inr _ \<Rightarrow> (Inr Finished, s2)) s1))"

text \<open>\<^verbatim>\<open>ProviderHandler.handle\<close>.\<close>

fun reject_queued :: "nat list \<Rightarrow> ('h tunnel, unit) act" where
  "reject_queued [] s = (Inl SrvValueError, s)"
| "reject_queued (c # cs) s = refuse c Con_ProviderTimedOut s"

definition provider_handle ::
  "tunnel_config \<Rightarrow> time \<Rightarrow> 'h handler \<Rightarrow> nat \<Rightarrow> conn \<Rightarrow> token \<Rightarrow>
    (wakeup \<times> ('h tunnel \<Rightarrow> 'h tunnel)) list \<Rightarrow> relay_event list \<Rightarrow> ('h tunnel, progress) act" where
  "provider_handle cfg now H tid c t script es s =
     (case provider_handle_requests cfg now H tid c t script es s of
        (Inr Waiting, s') \<Rightarrow> (Inr Waiting, s')
      | (Inr Finished, s') \<Rightarrow> (Inr Finished, close_if_open c s')
      | (Inl e, s') \<Rightarrow>
          (case e of
             QueueFull cs \<Rightarrow>
               (case reject_queued cs s' of
                  (Inl e', s'') \<Rightarrow> (Inl e', close_if_open c s'')
                | (Inr _, s'') \<Rightarrow> (Inr Finished, close_if_open c s''))
           | _ \<Rightarrow> (Inr Finished, close_if_open c s')))"

section \<open>Dispatching a connection\<close>

definition valid_token :: "'h handler \<Rightarrow> auth_type \<Rightarrow> token \<Rightarrow> ('h tunnel, unit) act" where
  "valid_token H auth_type t =
     (case auth_type of
        Auth_Provider \<Rightarrow> with_srv (in_transaction (provider_registered H t))
      | Auth_Probe \<Rightarrow> with_srv (register_probe H t))"

definition dispatch ::
  "tunnel_config \<Rightarrow> time \<Rightarrow> 'h handler \<Rightarrow> nat \<Rightarrow> conn \<Rightarrow>
    (wakeup \<times> ('h tunnel \<Rightarrow> 'h tunnel)) list \<Rightarrow> relay_event list \<Rightarrow> ('h tunnel, progress) act" where
  "dispatch cfg now H tid c script es =
     bnd (with_timeout (authmsg_timeout cfg) c (read_message c auth_request_decode)) (\<lambda>auth_req s.
       case valid_token H (ar_type auth_req) (ar_token auth_req) s of
         (Inl (TokenError etype), s') \<Rightarrow>
           (case to_auth_status etype of
              Inl e \<Rightarrow> (Inl e, s')
            | Inr status \<Rightarrow>
                bnd (write_msg c (auth_response_encode (AuthResponse status))) (\<lambda>_.
                bnd (close_conn c) (\<lambda>_. ret Finished)) s')
       | (Inl e, s') \<Rightarrow> (Inl e, s')
       | (Inr _, s') \<Rightarrow>
           bnd (write_msg c (auth_response_encode (AuthResponse Auth_Success))) (\<lambda>_.
             case ar_type auth_req of
               Auth_Provider \<Rightarrow> provider_handle cfg now H tid c (ar_token auth_req) script es
             | Auth_Probe \<Rightarrow>
                 bnd (probe_handle cfg now H c (ar_token auth_req)) (\<lambda>_. ret Finished)) s')"

text \<open>\<^verbatim>\<open>Server._handle\<close>, the callback of every connection.\<close>

definition handle_connection ::
  "tunnel_config \<Rightarrow> time \<Rightarrow> 'h handler \<Rightarrow> nat \<Rightarrow> conn \<Rightarrow>
    (wakeup \<times> ('h tunnel \<Rightarrow> 'h tunnel)) list \<Rightarrow> relay_event list \<Rightarrow> ('h tunnel, progress) act" where
  "handle_connection cfg now H tid c script es s =
     (case dispatch cfg now H tid c script es s of
        (Inl e, s') \<Rightarrow>
          (case e of
             QueueFull cs \<Rightarrow>
               (case reject_queued cs s' of
                  (Inl e', s'') \<Rightarrow> (Inl e', s'')
                | (Inr _, s'') \<Rightarrow> (Inr Finished, close_if_open c s''))
           | _ \<Rightarrow> (Inr Finished, close_if_open c s'))
      | r \<Rightarrow> r)"

text \<open>
  The task of a connection: when it ends, the callbacks \<^verbatim>\<open>add_done_callback\<close> registered
  run; the event loop only reports an exception raised in one.
\<close>

definition run_callbacks :: "tunnel_config \<Rightarrow> time \<Rightarrow> 'h tunnel \<Rightarrow> 'h tunnel" where
  "run_callbacks cfg now s =
     fold (\<lambda>pid s. snd (request_done cfg now pid s)) (t_callbacks s) (s\<lparr>t_callbacks := []\<rparr>)"

definition connection_task ::
  "tunnel_config \<Rightarrow> time \<Rightarrow> 'h handler \<Rightarrow> nat \<Rightarrow> conn \<Rightarrow>
    (wakeup \<times> ('h tunnel \<Rightarrow> 'h tunnel)) list \<Rightarrow> relay_event list \<Rightarrow> ('h tunnel, progress) act" where
  "connection_task cfg now H tid c script es s =
     (case handle_connection cfg now H tid c script es (s\<lparr>t_callbacks := []\<rparr>) of
        (Inr Waiting, s') \<Rightarrow> (Inr Waiting, s')
      | (r, s') \<Rightarrow> (r, run_callbacks cfg now s'))"

section \<open>Basic facts\<close>

lemma bnd_Inl:
  "bnd m f s = (Inl e, t) \<longleftrightarrow>
     m s = (Inl e, t) \<or> (\<exists>x s'. m s = (Inr x, s') \<and> f x s' = (Inl e, t))"
  by (auto simp: bnd_def split: prod.splits sum.splits)

lemma on_net_simps [simp]:
  "t_srv (on_net f s) = t_srv s" "t_cq (on_net f s) = t_cq s" "t_in (on_net f s) = t_in s"
  "t_bg (on_net f s) = t_bg s" "t_net (on_net f s) = f (t_net s)"
  "t_drain (on_net f s) = t_drain s" "t_timeout (on_net f s) = t_timeout s"
  "t_callbacks (on_net f s) = t_callbacks s"
  by (simp_all add: on_net_def)

lemma net_simps [simp]:
  "closing (net_close c n) d \<longleftrightarrow> d = c \<or> closing n d"
  "written (net_close c n) = written n"
  "closing (net_write c bs n) = closing n"
  "\<not> closing n c \<Longrightarrow> written (net_write c bs n) = (written n)(c := written n c @ bs)"
  by (auto simp: net_close_def net_write_def)

lemma close_conn_simps [simp]:
  "close_conn c s = (Inr (), on_net (net_close c) s)"
  "is_closing (on_net (net_close c) s) d \<longleftrightarrow> d = c \<or> is_closing s d"
  "is_closing (close_if_open c s) c"
  by (auto simp: close_conn_def is_closing_def close_if_open_def)

lemma read_msg_Some: "\<exists>r rd'. read_msg parser rd = Some (r, rd')"
  unfolding read_msg_def by (rule server_fetch.msg_loop_total)

lemma write_msg_frame:
  assumes "write_msg c msg s = (r, s')"
  shows "t_srv s' = t_srv s \<and> t_cq s' = t_cq s \<and> t_in s' = t_in s \<and> t_bg s' = t_bg s \<and>
    t_drain s' = t_drain s \<and> t_timeout s' = t_timeout s \<and>
    closing (t_net s') = closing (t_net s) \<and>
    (\<forall>d. d \<noteq> c \<longrightarrow> written (t_net s') d = written (t_net s) d)"
  using assms by (auto simp: write_msg_def net_write_def split: sum.splits)

lemma refuse_closes:
  assumes "refuse c status s = (Inr (), s')"
  shows "is_closing s' c"
  using assms by (auto simp: refuse_def respond_def bnd_Inr)

section \<open>The probe's side\<close>

lemma put_request_ok:
  assumes "wf_cq (max_queue_size cfg) (t_cq s)" "put_request cfg now pid qe s = (r, s')"
  shows "r = Inr () \<and> (\<exists>a. map_of (cq_queues (t_cq s')) pid = Some a \<and> qe \<in> set (contents (t_cq s') a)) \<or>
    r = Inl (QueueFull [qe_conn qe]) \<and> contents (t_cq s') = contents (t_cq s)"
proof -
  obtain q where put: "cq_put_nowait (max_queue_size cfg) now pid qe (t_cq s) = (r, q)"
    "s' = s\<lparr>t_cq := q\<rparr>"
    using assms(2) by (auto simp: put_request_def split: prod.splits)
  with cq_put_ok [OF assms(1) put(1)] show ?thesis by (cases r) auto
qed

definition waits :: "'h tunnel \<Rightarrow> conn \<Rightarrow> bool" where
  "waits s c \<longleftrightarrow> (\<exists>pid a qe. map_of (cq_queues (t_cq s)) pid = Some a \<and>
     qe \<in> set (contents (t_cq s) a) \<and> qe_conn qe = c \<and> s_provider (qe_sim qe) = pid)"

lemma enqueue_settles:
  assumes "wf_cq (max_queue_size cfg) (t_cq s)" "enqueue_request cfg now pid qe s = (Inr (), s')"
    "s_provider (qe_sim qe) = pid" "qe_conn qe = c"
  shows "is_closing s' c \<or> waits s' c"
proof -
  obtain r s1 where put: "put_request cfg now pid qe s = (r, s1)" by fastforce
  from put_request_ok [OF assms(1) put] show ?thesis
  proof
    assume ok: "r = Inr () \<and> (\<exists>a. map_of (cq_queues (t_cq s1)) pid = Some a \<and>
      qe \<in> set (contents (t_cq s1) a))"
    then have "s' = s1" using assms(2) put by (simp add: enqueue_request_def)
    with ok assms(3,4) show ?thesis unfolding waits_def by blast
  next
    assume "r = Inl (QueueFull [qe_conn qe]) \<and> contents (t_cq s1) = contents (t_cq s)"
    then have "refuse c Con_NotAvailable s1 = (Inr (), s')"
      using assms(2,4) put by (simp add: enqueue_request_def)
    then show ?thesis using refuse_closes by blast
  qed
qed

lemma answer_settles:
  assumes "wf_cq (max_queue_size cfg) (t_cq s)"
    "answer_lookup cfg now H c t req found s = (Inr (), s')"
  shows "is_closing s' c \<or> waits s' c"
proof (cases "\<exists>sim. found = Some (Some sim)")
  case False
  with assms(2) show ?thesis
    using refuse_closes by (auto simp: answer_lookup_def split: option.splits)
next
  case True
  then obtain sim where found: "found = Some (Some sim)" by blast
  show ?thesis
  proof (cases "get_provider (srv_db (t_srv s)) (s_provider sim) = None")
    case True
    with assms(2) found have "refuse c Con_NotAvailable s = (Inr (), s')"
      by (simp add: answer_lookup_def with_srv_def bnd_def)
    then show ?thesis using refuse_closes by blast
  next
    case False
    obtain r h where ident: "identity H t (srv_h (t_srv s)) = (r, h)" by fastforce
    let ?s = "s\<lparr>t_srv := (t_srv s)\<lparr>srv_h := h\<rparr>\<rparr>"
    from assms(2) found False ident obtain pid where
      put: "enqueue_request cfg now (s_provider sim)
        \<lparr>qe_sim = sim, qe_probe_id = pid, qe_con_req = req, qe_conn = c,
         qe_immediate = (cr_flags req = NO_WAIT)\<rparr> ?s = (Inr (), s')"
      by (auto simp: answer_lookup_def with_srv_def bnd_def lift_h_def simp del: not_None_eq
          split: sum.splits option.splits)
    have "wf_cq (max_queue_size cfg) (t_cq ?s)" using assms(1) by simp
    from enqueue_settles [OF this put] show ?thesis by simp
  qed
qed

lemma read_message_cq: "read_message c parser s = (r, s') \<Longrightarrow> t_cq s' = t_cq s"
  by (auto simp: read_message_def split: option.splits)

lemma find_sim_cq: "find_sim H t i s = (r, s') \<Longrightarrow> t_cq s' = t_cq s"
  by (auto simp: find_sim_def with_srv_def split: prod.splits sum.splits if_splits)

lemma with_timeout_cases:
  "with_timeout limit c m s = (Inr x, s') \<Longrightarrow> m s = (Inr x, s')"
  by (simp add: with_timeout_def split: if_splits)

lemma probe_request_settles:
  assumes "probe_handle_request cfg now H c t s = (Inr (), s')"
    "wf_cq (max_queue_size cfg) (t_cq s)"
  shows "is_closing s' c \<or> waits s' c"
proof -
  from assms(1) obtain req s1 found s2 where steps:
    "with_timeout (probe_request_timeout cfg) c (read_message c connect_request_decode) s = (Inr req, s1)"
    "find_sim H t (cr_identifier req) s1 = (Inr found, s2)"
    "answer_lookup cfg now H c t req found s2 = (Inr (), s')"
    by (auto simp: probe_handle_request_def bnd_Inr)
  have "t_cq s2 = t_cq s"
    using find_sim_cq [OF steps(2)] read_message_cq [OF with_timeout_cases [OF steps(1)]] by simp
  with answer_settles [of cfg s2] assms(2) steps(3) show ?thesis by simp
qed

section \<open>The relay\<close>

definition log_row :: "session \<Rightarrow> side \<times> apdu_packet \<Rightarrow> apdu_log" where
  "log_row ses sp =
     (case sp of (side, p) \<Rightarrow>
        \<lparr>l_provider = ss_client_id ses Provider_side, l_probe = ss_client_id ses Probe_side,
         l_sim_id = s_id (ss_sim ses), l_sim_iccid = s_iccid (ss_sim ses),
         l_sim_imsi = s_imsi (ss_sim ses), l_command = apdu_op p, l_payload = apdu_payload p,
         l_sender = side_sender side\<rparr>)"

definition from_side :: "side \<Rightarrow> (side \<times> apdu_packet) list \<Rightarrow> apdu_packet list" where
  "from_side side tr = map snd (filter (\<lambda>x. fst x = side) tr)"

definition packet_bytes :: "apdu_packet \<Rightarrow> bytes" where
  "packet_bytes p = (case apdu_encode p of Inl e \<Rightarrow> [] | Inr bs \<Rightarrow> bs)"

lemma from_side_simps [simp]:
  "from_side side [] = []"
  "from_side side (tr @ [(t, p)]) = from_side side tr @ (if t = side then [p] else [])"
  by (simp_all add: from_side_def)

definition db_of :: "'h tunnel \<Rightarrow> database" where
  "db_of s = srv_db (t_srv s)"

text \<open>
  \<open>relayed ses s0 tr sent s\<close>: from \<open>s0\<close> to \<open>s\<close> the packets \<open>tr\<close> arrived, in this order; each
  is logged; those from one side are what that side's bytes say, and are sent to the other side:
  \<open>sent\<close> already written, the rest in its background queue.
\<close>

definition relayed ::
  "session \<Rightarrow> 'h tunnel \<Rightarrow> (side \<times> apdu_packet) list \<Rightarrow> (side \<Rightarrow> apdu_packet list) \<Rightarrow> 'h tunnel \<Rightarrow> bool"
where
  "relayed ses s0 tr sent s \<longleftrightarrow>
     apdu_logs (db_of s) = apdu_logs (db_of s0) @ map (log_row ses) tr \<and>
     providers (db_of s) = providers (db_of s0) \<and> sims (db_of s) = sims (db_of s0) \<and>
     (\<forall>side. \<not> is_closing s (ss_conn ses side)) \<and>
     (\<forall>side. concat (t_in s0 (ss_conn ses side)) =
        concat (map packet_bytes (from_side side tr)) @ concat (t_in s (ss_conn ses side))) \<and>
     (\<forall>side. from_side side tr = sent side @ t_bg s (ss_conn ses (other_side side))) \<and>
     (\<forall>side. written (t_net s) (ss_conn ses (other_side side)) =
        written (t_net s0) (ss_conn ses (other_side side)) @ concat (map packet_bytes (sent side)))"

definition session_ok :: "session \<Rightarrow> 'h tunnel \<Rightarrow> bool" where
  "session_ok ses s \<longleftrightarrow> ss_conn ses Probe_side \<noteq> ss_conn ses Provider_side \<and>
     (\<forall>side. \<not> is_closing s (ss_conn ses side) \<and> t_bg s (ss_conn ses side) = [])"

lemma other_side_simps [simp]: "other_side (other_side t) = t" "other_side t \<noteq> t" "t \<noteq> other_side t"
  by (cases t; simp)+

lemma other_side_eq [simp]: "other_side t = other_side u \<longleftrightarrow> t = u"
  by (cases t; cases u; simp)

lemma session_conn_eq:
  "ss_conn ses Probe_side \<noteq> ss_conn ses Provider_side \<Longrightarrow> ss_conn ses t = ss_conn ses u \<longleftrightarrow> t = u"
  by (cases t; cases u; auto)

lemma relayed_start: "session_ok ses s \<Longrightarrow> relayed ses s [] (\<lambda>side. []) s"
  by (simp add: relayed_def session_ok_def)

text \<open>One packet received.\<close>

lemma relayed_recv:
  assumes "relayed ses s0 tr sent s" "ss_conn ses Probe_side \<noteq> ss_conn ses Provider_side"
    "srv_recv (t_in s (ss_conn ses t)) = Some (Inr (Some p), rd)"
  shows "relayed ses s0 (tr @ [(t, p)]) sent
    (send_background (ss_conn ses (other_side t)) p
      (log_packet ses t p (s\<lparr>t_in := (t_in s)(ss_conn ses t := rd)\<rparr>)))"
proof -
  from server_source.apdu_recv_sound [OF assms(3) [unfolded srv_recv_def]]
  have bytes: "concat (t_in s (ss_conn ses t)) = packet_bytes p @ concat rd"
    by (auto simp: packet_bytes_def)
  note eq = session_conn_eq [OF assms(2)]
  show ?thesis
    using assms(1) bytes
    by (auto simp: relayed_def send_background_def log_packet_def log_apdu_def log_row_def db_of_def
        is_closing_def eq)
qed

text \<open>One packet sent by the background task.\<close>

lemma packet_bytes_wf: "apdu_encode p = Inr bs \<Longrightarrow> packet_bytes p = bs"
  by (simp add: packet_bytes_def)

lemma apdu_encode_cases:
  obtains bs where "apdu_encode p = Inr bs" | e where "apdu_encode p = Inl e" "packet_bytes p = []"
  by (cases "apdu_encode p") (auto simp: packet_bytes_def)

lemma relayed_send:
  assumes "relayed ses s0 tr sent s" "ss_conn ses Probe_side \<noteq> ss_conn ses Provider_side"
  shows "\<exists>sent'. relayed ses s0 tr sent' (send_bg_task (ss_conn ses t) s)"
proof (cases "t_bg s (ss_conn ses t)")
  case Nil
  then show ?thesis using assms(1) by (auto simp: send_bg_task_def)
next
  case (Cons p ps)
  note eq = session_conn_eq [OF assms(2)]
  let ?s = "s\<lparr>t_bg := (t_bg s)(ss_conn ses t := ps)\<rparr>"
  obtain r s' where w: "write_msg (ss_conn ses t) (apdu_encode p) ?s = (r, s')" by fastforce
  have open_t: "\<not> closing (t_net s) (ss_conn ses t)"
    using assms(1) by (simp add: relayed_def is_closing_def)
  have wr: "written (t_net s') = (written (t_net s))(ss_conn ses t :=
      written (t_net s) (ss_conn ses t) @ packet_bytes p)"
    using w open_t by (auto simp: write_msg_def packet_bytes_def split: sum.splits)
  note frame = write_msg_frame [OF w]
  have "relayed ses s0 tr (sent(other_side t := sent (other_side t) @ [p])) s'"
    using assms(1) frame wr Cons
    by (auto simp: relayed_def db_of_def is_closing_def eq split: if_splits)
      (metis other_side_simps(1))+
  then show ?thesis using Cons w by (auto simp: send_bg_task_def)
qed

lemma relay_done_relayed:
  assumes "relayed ses s0 tr sent s" "ss_conn ses Probe_side \<noteq> ss_conn ses Provider_side"
    "relay_done ses ts s = (r, s')"
  shows "\<exists>tr' s1. relayed ses s0 tr' sent s1 \<and> (r = Inr True \<longrightarrow> s1 = s') \<and>
    t_srv s' = t_srv s1 \<and> t_bg s' = t_bg s1 \<and> t_net s' = t_net s1"
  using assms(1,3)
proof (induction ts arbitrary: tr s)
  case Nil
  then show ?case by auto
next
  case (Cons t ts)
  obtain res rd where recv: "srv_recv (t_in s (ss_conn ses t)) = Some (res, rd)"
    unfolding srv_recv_def using server_source.apdu_recv_total by blast
  show ?case
  proof (cases "\<exists>p. res = Inr (Some p)")
    case True
    then obtain p where p: "res = Inr (Some p)" by blast
    from Cons.IH [OF relayed_recv [OF Cons.prems(1) assms(2) recv [unfolded p]]] Cons.prems(2) recv p
    show ?thesis by (simp add: Let_def)
  next
    case False
    then have "r \<noteq> Inr True \<and> s' = s\<lparr>t_in := (t_in s)(ss_conn ses t := rd)\<rparr>"
      using Cons.prems(2) recv by (auto simp: Let_def split: sum.splits if_splits option.splits)
    with Cons.prems(1) show ?thesis by (intro exI [of _ tr] exI [of _ s]) simp
  qed
qed

lemma relay_loop_relayed:
  assumes "relayed ses s0 tr sent s" "ss_conn ses Probe_side \<noteq> ss_conn ses Provider_side"
    "relay_loop ses es s = (r, s')"
  shows "\<exists>tr' sent' s1. relayed ses s0 tr' sent' s1 \<and>
    t_srv s' = t_srv s1 \<and> t_bg s' = t_bg s1 \<and> t_net s' = t_net s1"
  using assms(1,3)
proof (induction es arbitrary: tr sent s)
  case Nil
  then show ?case by auto
next
  case (Cons e es)
  show ?case
  proof (cases e)
    case (R_send side)
    from relayed_send [OF Cons.prems(1) assms(2), of side] obtain sent' where
      "relayed ses s0 tr sent' (send_bg_task (ss_conn ses side) s)" by blast
    from Cons.IH [OF this] Cons.prems(2) R_send show ?thesis by simp
  next
    case (R_done ts)
    obtain r1 s1 where one: "relay_done ses ts s = (r1, s1)" by fastforce
    from relay_done_relayed [OF Cons.prems(1) assms(2) one] obtain tr' s2 where
      d: "relayed ses s0 tr' sent s2" "r1 = Inr True \<longrightarrow> s2 = s1"
      "t_srv s1 = t_srv s2" "t_bg s1 = t_bg s2" "t_net s1 = t_net s2" by blast
    show ?thesis
    proof (cases "r1 = Inr True")
      case True
      with d(1,2) have "relayed ses s0 tr' sent s1" by simp
      from Cons.IH [OF this] Cons.prems(2) R_done one True show ?thesis by simp
    next
      case False
      then have "s' = s1"
        using Cons.prems(2) R_done one by (cases r1) (auto split: bool.splits)
      with d show ?thesis by blast
    qed
  qed
qed

lemma close_session_frame [simp]:
  "t_srv (close_session ses s) = t_srv s" "t_bg (close_session ses s) = t_bg s"
  "written (t_net (close_session ses s)) = written (t_net s)"
  "is_closing (close_session ses s) (ss_conn ses side)"
  by (cases side; auto simp: close_session_def is_closing_def)+

lemma handle_established_frame:
  assumes "handle_established_connection ses es s = (r, s')"
  shows "\<exists>s1. relay_loop ses es s = (r, s1) \<and>
    (if r = Inr Waiting then s' = s1 else s' = close_session ses s1)"
proof -
  obtain r1 s1 where loop: "relay_loop ses es s = (r1, s1)" by fastforce
  with assms show ?thesis
    by (cases r1) (auto simp: handle_established_connection_def split: progress.splits)
qed

lemma handle_established_relayed:
  assumes "session_ok ses s" "handle_established_connection ses es s = (r, s')"
  shows "\<exists>tr sent s1. relayed ses s tr sent s1 \<and> t_srv s' = t_srv s1 \<and> t_bg s' = t_bg s1 \<and>
    written (t_net s') = written (t_net s1)"
proof -
  from handle_established_frame [OF assms(2)] obtain s2 where
    loop: "relay_loop ses es s = (r, s2)"
    and s': "if r = Inr Waiting then s' = s2 else s' = close_session ses s2" by blast
  have distinct: "ss_conn ses Probe_side \<noteq> ss_conn ses Provider_side"
    using assms(1) by (simp add: session_ok_def)
  from relay_loop_relayed [OF relayed_start [OF assms(1)] distinct loop] obtain tr sent s1 where
    "relayed ses s tr sent s1" "t_srv s2 = t_srv s1" "t_bg s2 = t_bg s1" "t_net s2 = t_net s1"
    by blast
  with s' show ?thesis
    by (intro exI [of _ tr] exI [of _ sent] exI [of _ s1]) (auto split: if_splits)
qed

section \<open>The provider's side\<close>

definition db_counts :: "'h tunnel \<Rightarrow> uuid \<Rightarrow> int option" where
  "db_counts s pid = map_option p_available (get_provider (db_of s) pid)"

lemma with_srv_update:
  "with_srv (in_transaction (try_update f)) s =
     (case f (db_of s) of
        Inl e \<Rightarrow> (Inl e, s)
      | Inr d \<Rightarrow> (Inr (), s\<lparr>t_srv := (t_srv s)\<lparr>srv_db := d\<rparr>\<rparr>))"
  by (auto simp: with_srv_def in_transaction_def try_update_def db_of_def split: sum.splits)

lemma get_provider_cong: "providers d = providers e \<Longrightarrow> get_provider d = get_provider e"
  by (simp add: get_provider_def fun_eq_iff)

lemma sim_ops_providers:
  "sim_used pid i d = Inr d' \<Longrightarrow> providers d' = providers d"
  "sim_unused pid i d = Inr d' \<Longrightarrow> providers d' = providers d"
  by (auto simp: sim_used_def sim_unused_def update_sim_def split: option.splits)

lemma send_bg_task_srv: "t_srv (send_bg_task c s) = t_srv s"
proof (cases "t_bg s c")
  case (Cons p ps)
  obtain r s' where w: "write_msg c (apdu_encode p) (s\<lparr>t_bg := (t_bg s)(c := ps)\<rparr>) = (r, s')"
    by fastforce
  from write_msg_frame [OF w] w Cons show ?thesis by (simp add: send_bg_task_def)
qed (simp add: send_bg_task_def)

lemma relay_done_providers:
  "relay_done ses ts s = (r, s') \<Longrightarrow> providers (db_of s') = providers (db_of s)"
proof (induction ts arbitrary: s)
  case (Cons t ts)
  show ?case
  proof (cases "srv_recv (t_in s (ss_conn ses t))")
    case None
    with Cons.prems show ?thesis by auto
  next
    case (Some x)
    obtain res rd where x: "x = (res, rd)" by fastforce
    let ?s = "s\<lparr>t_in := (t_in s)(ss_conn ses t := rd)\<rparr>"
    show ?thesis
    proof (cases "\<exists>p. res = Inr (Some p)")
      case True
      then obtain p where p: "res = Inr (Some p)" by blast
      with Cons.prems Some x have "relay_done ses ts
          (send_background (ss_conn ses (other_side t)) p (log_packet ses t p ?s)) = (r, s')"
        by (simp add: Let_def)
      from Cons.IH [OF this] show ?thesis
        by (simp add: send_background_def log_packet_def log_apdu_def db_of_def)
    next
      case False
      with Cons.prems Some x show ?thesis
        by (auto simp: Let_def db_of_def split: sum.splits if_splits option.splits)
    qed
  qed
qed auto

lemma relay_loop_providers:
  "relay_loop ses es s = (r, s') \<Longrightarrow> providers (db_of s') = providers (db_of s)"
proof (induction es arbitrary: s)
  case (Cons e es)
  show ?case
  proof (cases e)
    case (R_send side)
    with Cons.prems Cons.IH [of "send_bg_task (ss_conn ses side) s"] show ?thesis
      by (simp add: db_of_def send_bg_task_srv)
  next
    case (R_done ts)
    obtain r1 s1 where one: "relay_done ses ts s = (r1, s1)" by fastforce
    show ?thesis
    proof (cases "r1 = Inr True")
      case True
      with Cons.prems R_done one Cons.IH [of s1] relay_done_providers [OF one] show ?thesis by simp
    next
      case False
      with Cons.prems R_done one have "s' = s1" by (cases r1) (auto split: bool.splits)
      with relay_done_providers [OF one] show ?thesis by simp
    qed
  qed
qed auto

lemma sim_unused_ok: "\<exists>d'. sim_unused pid i d = Inr d'"
  by (simp add: sim_unused_def split: option.splits)

lemma session_body_cases:
  assumes "session_body pid qe ses es s = (r, s')"
  obtains e where "sim_used pid (s_id (qe_sim qe)) (db_of s) = Inl e" "r = Inl e" "s' = s"
  | d where "sim_used pid (s_id (qe_sim qe)) (db_of s) = Inr d"
      "handle_established_connection ses es (s\<lparr>t_srv := (t_srv s)\<lparr>srv_db := d\<rparr>\<rparr>) = (r, s')"
  using assms
  by (cases "sim_used pid (s_id (qe_sim qe)) (db_of s)")
    (auto simp: session_body_def bnd_def with_srv_update)

lemma run_session_cases:
  assumes "run_session pid qe c es s = (r, s')"
  obtains s1 where "session_body pid qe (session_of qe c) es s = (r, s1)" "r = Inr Waiting" "s' = s1"
  | s1 d where "session_body pid qe (session_of qe c) es s = (r, s1)" "r \<noteq> Inr Waiting"
      "sim_unused pid (s_id (qe_sim qe)) (db_of s1) = Inr d"
      "s' = (close_session (session_of qe c) s1)\<lparr>t_srv := (t_srv s1)\<lparr>srv_db := d\<rparr>\<rparr>"
proof -
  obtain r1 s1 where body: "session_body pid qe (session_of qe c) es s = (r1, s1)" by fastforce
  obtain d where d: "sim_unused pid (s_id (qe_sim qe)) (db_of s1) = Inr d"
    using sim_unused_ok by blast
  have "db_of (close_session (session_of qe c) s1) = db_of s1" by (simp add: db_of_def)
  with body d assms that show thesis
    by (cases r1) (auto simp: run_session_def bnd_def with_srv_update split: progress.splits)
qed

lemma run_session_providers:
  assumes "run_session pid qe c es s = (r, s')"
  shows "providers (db_of s') = providers (db_of s)"
proof -
  have body: "providers (db_of s1) = providers (db_of s)"
    if "session_body pid qe (session_of qe c) es s = (r, s1)" for s1
    using that
  proof (cases rule: session_body_cases)
    case (2 d)
    from handle_established_frame [OF 2(2)] obtain s2 where
      "relay_loop (session_of qe c) es (s\<lparr>t_srv := (t_srv s)\<lparr>srv_db := d\<rparr>\<rparr>) = (r, s2)"
      "t_srv s1 = t_srv s2" by (auto split: if_splits)
    with relay_loop_providers [OF this(1)] sim_ops_providers(1) [OF 2(1)] show ?thesis
      by (simp add: db_of_def)
  qed simp
  from assms show ?thesis
  proof (cases rule: run_session_cases)
    case (2 s1 d)
    with body [OF 2(1)] sim_ops_providers(2) [OF 2(3)] show ?thesis by (simp add: db_of_def)
  qed (use body in simp)
qed

text \<open>What keeps the database.\<close>

lemma refuse_srv: "refuse c st s = (r, s') \<Longrightarrow> t_srv s' = t_srv s \<and> t_cq s' = t_cq s"
proof -
  assume run: "refuse c st s = (r, s')"
  obtain r1 s1 where w: "respond c st s = (r1, s1)" by fastforce
  from write_msg_frame [OF w [unfolded respond_def]] run w show ?thesis
    by (cases r1) (auto simp: refuse_def bnd_def)
qed

lemma put_request_srv: "put_request cfg now pid qe s = (r, s') \<Longrightarrow> t_srv s' = t_srv s \<and> t_net s' = t_net s"
  by (auto simp: put_request_def split: prod.splits)

lemma request_done_srv: "request_done cfg now pid s = (r, s') \<Longrightarrow> t_srv s' = t_srv s"
  by (auto simp: request_done_def split: prod.splits)

lemma read_message_srv:
  "read_message c parser s = (r, s') \<Longrightarrow> t_srv s' = t_srv s \<and> t_net s' = t_net s \<and> t_cq s' = t_cq s"
  by (auto simp: read_message_def split: option.splits)

lemma with_timeout_srv:
  assumes "with_timeout l c (read_message c parser) s = (r, s')"
  shows "t_srv s' = t_srv s \<and> t_net s' = t_net s \<and> t_cq s' = t_cq s"
  using assms read_message_srv [of c parser s r s'] by (auto simp: with_timeout_def split: if_splits)

lemma serve_request_providers:
  assumes "serve_request cfg now pid qe c es s = (r, s')"
  shows "providers (db_of s') = providers (db_of s)"
proof -
  obtain r1 s1 where w: "write_msg c (connect_request_encode (qe_con_req qe)) s = (r1, s1)" by fastforce
  note k1 = write_msg_frame [OF w]
  show ?thesis
  proof (cases r1)
    case (Inl e)
    obtain r2 s2 where put: "put_request cfg now pid qe s1 = (r2, s2)" by fastforce
    with assms w Inl have "s' = s2" by (cases r2) (auto simp: serve_request_def)
    with put_request_srv [OF put] k1 show ?thesis by (simp add: db_of_def)
  next
    case (Inr u)
    obtain r2 s2 where rd: "with_timeout (provider_response_timeout cfg) c
        (read_message c connect_response_decode) s1 = (r2, s2)" by fastforce
    note k2 = with_timeout_srv [OF rd]
    show ?thesis
    proof (cases r2)
      case (Inl e)
      obtain r3 s3 where ref: "refuse (qe_conn qe) Con_ProviderTimedOut s2 = (r3, s3)" by fastforce
      with assms w Inr rd Inl have "s' = s3 \<or> s' = s2"
        by (cases r3) (auto simp: serve_request_def bnd_def split: if_splits)
      with refuse_srv [OF ref] k1 k2 show ?thesis by (auto simp: db_of_def)
    next
      case res: (Inr con_res)
      obtain r3 s3 where fwd: "respond (qe_conn qe) (cr_status con_res) s2 = (r3, s3)" by fastforce
      note k3 = write_msg_frame [OF fwd [unfolded respond_def]]
      have s3: "db_of s3 = db_of s" using k1 k2 k3 by (simp add: db_of_def)
      show ?thesis
      proof (cases "r3 = Inr () \<and> cr_status con_res = Con_Success")
        case True
        with assms w Inr rd res fwd have "run_session pid qe c es s3 = (r, s')"
          by (simp add: serve_request_def bnd_def)
        from run_session_providers [OF this] s3 show ?thesis by simp
      next
        case False
        with assms w Inr rd res fwd have "db_of s' = db_of s3"
          by (cases r3) (auto simp: serve_request_def bnd_def close_both_def db_of_def)
        with s3 show ?thesis by simp
      qed
    qed
  qed
qed

lemma provider_wait_srv:
  assumes "provider_wait cfg now tid pid script s = (r, s')"
    "\<forall>x \<in> set script. \<forall>u. t_srv (snd x u) = t_srv u"
  shows "t_srv s' = t_srv s"
  using assms
proof (induction script arbitrary: s)
  case Nil
  then show ?case by (auto split: prod.splits sum.splits)
next
  case (Cons x script)
  obtain w env where x: "x = (w, env)" by fastforce
  have env: "t_srv (env u) = t_srv u" for u using Cons.prems(2) x by simp
  obtain a r1 q where get: "cq_get (max_queue_size cfg) now tid pid (t_cq s) = (a, r1, q)"
    by (metis prod.exhaust)
  show ?case
  proof (cases r1)
    case (Inl e)
    with Cons.prems(1) get x show ?thesis by auto
  next
    case (Inr r2)
    let ?s = "env (s\<lparr>t_cq := q\<rparr>)"
    have s1: "t_srv ?s = t_srv s" using env by simp
    show ?thesis
    proof (cases "settle r2 w")
      case (W_queue qe)
      let ?s2 = "?s\<lparr>t_callbacks := t_callbacks ?s @ [pid]\<rparr>"
      show ?thesis
      proof (cases "is_closing ?s2 (qe_conn qe)")
        case True
        then have "provider_wait cfg now tid pid script (on_net (net_close (qe_conn qe)) ?s2) = (r, s')"
          using Cons.prems(1) get x Inr W_queue by (simp add: Let_def bnd_def)
        from Cons.IH [OF this] Cons.prems(2) s1 show ?thesis by simp
      next
        case False
        with Cons.prems(1) get x Inr W_queue s1 show ?thesis by (auto simp: Let_def)
      qed
    next
      case (W_both qe)
      obtain r3 s3 where put: "put_request cfg now pid qe ?s = (r3, s3)" by fastforce
      obtain r4 s4 where d: "request_done cfg now pid s3 = (r4, s4)" by fastforce
      have "s' = s3 \<or> s' = s4"
        using Cons.prems(1) get x Inr W_both put d
        by (cases r3; cases r4) (auto simp: Let_def bnd_def)
      with put_request_srv [OF put] request_done_srv [OF d] s1 show ?thesis by auto
    next
      case W_eof
      with Cons.prems(1) get x Inr s1 show ?thesis by (auto simp: Let_def cancel_get_def)
    qed
  qed
qed

lemma mark_balanced:
  assumes "mark_provider_available pid d = Inr d'"
  shows "\<exists>d''. mark_provider_unavailable pid d' = Inr d'' \<and> providers d'' = providers d"
proof -
  have d': "d' = update_provider (\<lambda>p. p\<lparr>p_available := p_available p + 1\<rparr>) pid d"
    and some: "get_provider d pid \<noteq> None"
    using assms by (auto simp: mark_provider_available_def split: option.splits)
  then have "get_provider d' pid \<noteq> None" by simp
  then have "mark_provider_unavailable pid d' =
      Inr (update_provider (\<lambda>p. p\<lparr>p_available := p_available p - 1\<rparr>) pid d')"
    by (auto simp: mark_provider_unavailable_def)
  moreover have "providers (update_provider (\<lambda>p. p\<lparr>p_available := p_available p - 1\<rparr>) pid d') = providers d"
    unfolding d' by (simp add: update_provider_def comp_def map_idI)
  ultimately show ?thesis by blast
qed

lemma provider_requests_balanced:
  assumes "provider_handle_requests cfg now H tid c t script es s = (r, s')" "r \<noteq> Inr Waiting"
    "\<forall>x \<in> set script. \<forall>u. t_srv (snd x u) = t_srv u"
  shows "providers (db_of s') = providers (db_of s)"
proof -
  obtain r1 h where ident: "identity H t (srv_h (t_srv s)) = (r1, h)" by fastforce
  let ?s = "s\<lparr>t_srv := (t_srv s)\<lparr>srv_h := h\<rparr>\<rparr>"
  have lift: "with_srv (lift_h (identity H t)) s = (r1, ?s)"
    using ident by (simp add: with_srv_def lift_h_def)
  show ?thesis
  proof (cases "\<exists>pid. r1 = Inr (Some pid)")
    case False
    with assms(1) lift have "s' = ?s"
      by (cases r1) (auto simp: provider_handle_requests_def bnd_def split: option.splits)
    then show ?thesis by (simp add: db_of_def)
  next
    case True
    then obtain pid where pid: "r1 = Inr (Some pid)" by blast
    show ?thesis
    proof (cases "mark_provider_available pid (db_of ?s)")
      case (Inl e)
      with assms(1) lift pid have "s' = ?s"
        by (simp add: provider_handle_requests_def bnd_def with_srv_update)
      then show ?thesis by (simp add: db_of_def)
    next
      case (Inr d)
      let ?s1 = "?s\<lparr>t_srv := (t_srv ?s)\<lparr>srv_db := d\<rparr>\<rparr>"
      obtain r2 s2 where wait: "provider_wait cfg now tid pid script ?s1 = (r2, s2)" by fastforce
      from provider_wait_srv [OF wait assms(3)] have db2: "db_of s2 = d" by (simp add: db_of_def)
      from mark_balanced [OF Inr] obtain d2 where
        d2: "mark_provider_unavailable pid d = Inr d2" "providers d2 = providers (db_of s)"
        by (auto simp: db_of_def)
      let ?s3 = "s2\<lparr>t_srv := (t_srv s2)\<lparr>srv_db := d2\<rparr>\<rparr>"
      have "s' = ?s3 \<or> (\<exists>qe. serve_request cfg now pid qe c es ?s3 = (r, s'))"
        using assms(1,2) lift pid Inr wait d2(1) db2
        by (cases r2) (auto simp: provider_handle_requests_def bnd_def with_srv_update
            split: wait_result.splits)
      then show ?thesis
        using serve_request_providers [of cfg now pid _ c es ?s3 r s'] d2(2)
        by (auto simp: db_of_def)
    qed
  qed
qed

section \<open>The gate\<close>

definition authenticated :: "tunnel_config \<Rightarrow> 'h handler \<Rightarrow> conn \<Rightarrow> 'h tunnel \<Rightarrow> bool" where
  "authenticated cfg H c s \<longleftrightarrow>
     (case with_timeout (authmsg_timeout cfg) c (read_message c auth_request_decode) s of
        (Inl e, s1) \<Rightarrow> False
      | (Inr req, s1) \<Rightarrow>
          (case valid_token H (ar_type req) (ar_token req) s1 of
             (Inl e, s2) \<Rightarrow> False
           | (Inr x, s2) \<Rightarrow> True))"

text \<open>A refusal: the server wrote at most an answer other than success, to this peer only.\<close>

definition turned_away :: "conn \<Rightarrow> 'h tunnel \<Rightarrow> 'h tunnel \<Rightarrow> bool" where
  "turned_away c s s' \<longleftrightarrow>
     t_cq s' = t_cq s \<and> db_of s' = db_of s \<and>
     (\<forall>d. d \<noteq> c \<longrightarrow> written (t_net s') d = written (t_net s) d \<and> (is_closing s' d \<longleftrightarrow> is_closing s d)) \<and>
     (\<exists>bs. written (t_net s') c = written (t_net s) c @ bs \<and>
        (bs = [] \<or> (\<exists>st. st \<noteq> Auth_Success \<and> auth_response_encode (AuthResponse st) = Inr bs)))"

lemma with_srv_frame:
  "with_srv m s = (r, s') \<Longrightarrow> t_cq s' = t_cq s \<and> t_net s' = t_net s \<and> t_drain s' = t_drain s"
  by (auto simp: with_srv_def split: prod.splits)

lemma register_probe_db: "register_probe H t s = (r, s') \<Longrightarrow> srv_db s' = srv_db s"
  by (auto simp: register_probe_def bnd_lift_h split: prod.splits sum.splits if_splits)

lemma provider_registered_db:
  assumes "provider_registered H t s = (r, s')"
  shows "srv_db s' = srv_db s"
proof -
  obtain r1 h1 where reg: "allowed_provider_registration H t (srv_h s) = (r1, h1)" by fastforce
  obtain r2 h2 where ident: "identity H t h1 = (r2, h2)" by fastforce
  from assms reg ident show ?thesis
    by (auto simp: provider_registered_def bnd_lift_h split: sum.splits option.splits if_splits)
qed

lemma in_transaction_db:
  assumes "\<And>s r s'. m s = (r, s') \<Longrightarrow> srv_db s' = srv_db s"
  shows "in_transaction m s = m s"
proof -
  obtain r s' where "m s = (r, s')" by fastforce
  with assms [OF this] show ?thesis by (cases r) (auto simp: in_transaction_def)
qed

lemma in_transaction_registered:
  "in_transaction (provider_registered H t) = provider_registered H t"
proof
  show "in_transaction (provider_registered H t) u = provider_registered H t u" for u
    by (rule in_transaction_db) (rule provider_registered_db)
qed

lemma with_srv_cases:
  assumes "with_srv m s = (r, s')"
  obtains d where "m (t_srv s) = (r, d)" "s' = s\<lparr>t_srv := d\<rparr>"
  using assms that by (cases "m (t_srv s)") (auto simp: with_srv_def)

lemma valid_token_frame:
  assumes "valid_token H a t s = (r, s')"
  shows "t_cq s' = t_cq s \<and> t_net s' = t_net s \<and> db_of s' = db_of s"
proof (cases a)
  case Auth_Provider
  with assms have "with_srv (provider_registered H t) s = (r, s')"
    by (simp add: valid_token_def in_transaction_registered)
  then show ?thesis
    by (rule with_srv_cases) (simp add: db_of_def provider_registered_db)
next
  case Auth_Probe
  with assms have "with_srv (register_probe H t) s = (r, s')" by (simp add: valid_token_def)
  then show ?thesis
    by (rule with_srv_cases) (simp add: db_of_def register_probe_db)
qed

context reporting_handler begin

lemma valid_token_error:
  assumes "valid_token H a t s = (Inl (TokenError e), s')"
  shows "e \<noteq> AR_Success"
proof (cases a)
  case Auth_Provider
  with assms have "with_srv (provider_registered H t) s = (Inl (TokenError e), s')"
    by (simp add: valid_token_def in_transaction_registered)
  then show ?thesis by (rule with_srv_cases) (rule provider_registered_error)
next
  case Auth_Probe
  with assms have "with_srv (register_probe H t) s = (Inl (TokenError e), s')"
    by (simp add: valid_token_def)
  then show ?thesis by (rule with_srv_cases) (rule register_probe_error)
qed

lemma to_auth_status_failure:
  "to_auth_status e = Inr st \<Longrightarrow> e \<noteq> AR_Success \<Longrightarrow> st \<noteq> Auth_Success"
  by (cases e) auto

lemma refusal_turned_away:
  assumes "bnd (write_msg c (auth_response_encode (AuthResponse st))) (\<lambda>_.
      bnd (close_conn c) (\<lambda>_. ret Finished)) s1 = (r, s')"
    "st \<noteq> Auth_Success" "t_cq s1 = t_cq s" "t_net s1 = t_net s" "db_of s1 = db_of s"
  shows "turned_away c s s'"
proof -
  obtain r1 s2 where w: "write_msg c (auth_response_encode (AuthResponse st)) s1 = (r1, s2)"
    by fastforce
  obtain bs where bs: "auth_response_encode (AuthResponse st) = Inr bs"
    using auth_response_format.enc_total by blast
  note frame = write_msg_frame [OF w]
  have wr: "written (t_net s2) c = written (t_net s) c @ bs \<or> written (t_net s2) c = written (t_net s) c"
    using w bs assms(4) by (auto simp: write_msg_def net_write_def)
  have "s' = s2 \<or> s' = on_net (net_close c) s2"
    using assms(1) w by (cases r1) (auto simp: bnd_def)
  then show ?thesis
    using frame wr assms(2-5) bs
    by (auto simp: turned_away_def db_of_def is_closing_def)
qed

lemma dispatch_gate:
  assumes "\<not> authenticated cfg H c s" "dispatch cfg now H tid c script es s = (r, s')"
  shows "turned_away c s s'"
proof -
  obtain r1 s1 where rd: "with_timeout (authmsg_timeout cfg) c (read_message c auth_request_decode) s = (r1, s1)"
    by fastforce
  note k1 = with_timeout_srv [OF rd]
  show ?thesis
  proof (cases r1)
    case (Inl e)
    with assms(2) rd have "s' = s1" by (simp add: dispatch_def bnd_def)
    with k1 show ?thesis by (simp add: turned_away_def db_of_def is_closing_def)
  next
    case (Inr req)
    obtain r2 s2 where vt: "valid_token H (ar_type req) (ar_token req) s1 = (r2, s2)" by fastforce
    from valid_token_frame [OF vt] k1 have
      k2: "t_cq s2 = t_cq s" "t_net s2 = t_net s" "db_of s2 = db_of s" by (simp_all add: db_of_def)
    obtain e where e: "r2 = Inl e"
      using assms(1) rd Inr vt by (cases r2) (auto simp: authenticated_def)
    show ?thesis
    proof (cases "\<exists>etype st. e = TokenError etype \<and> to_auth_status etype = Inr st")
      case True
      then obtain etype st where et: "e = TokenError etype" "to_auth_status etype = Inr st" by blast
      have "etype \<noteq> AR_Success" using valid_token_error vt e et(1) by blast
      with et(2) have "st \<noteq> Auth_Success" by (rule to_auth_status_failure)
      moreover have "bnd (write_msg c (auth_response_encode (AuthResponse st))) (\<lambda>_.
          bnd (close_conn c) (\<lambda>_. ret Finished)) s2 = (r, s')"
        using assms(2) rd Inr vt e et by (simp add: dispatch_def bnd_def)
      ultimately show ?thesis using refusal_turned_away k2 by blast
    next
      case False
      have "s' = s2"
        using assms(2) rd Inr vt e False
        by (cases e) (auto simp: dispatch_def bnd_def split: sum.splits)
      with k2 show ?thesis by (simp add: turned_away_def is_closing_def)
    qed
  qed
qed

end

section \<open>Properties\<close>

text \<open>
  C6: A probe is never left hanging: whatever it sends, whatever the handler, the database
  and the queues answer, \<^verbatim>\<open>ProbeHandler.handle\<close> returns without an exception, and afterwards
  the probe's connection is closed or waits in the queue of the provider of its SIM.
\<close>

theorem probe_settled:
  assumes "probe_handle cfg now H c t s = (r, s')" "wf_cq (max_queue_size cfg) (t_cq s)"
  shows "r = Inr () \<and> (is_closing s' c \<or> waits s' c)"
proof -
  obtain r1 s1 where run: "probe_handle_request cfg now H c t s = (r1, s1)" by fastforce
  show ?thesis
  proof (cases r1)
    case (Inl e)
    with assms(1) run show ?thesis by (auto simp: probe_handle_def)
  next
    case (Inr u)
    with assms run probe_request_settles [of cfg now H c t s s1] show ?thesis
      by (auto simp: probe_handle_def)
  qed
qed

text \<open>A server that has just accepted a connection, for examples.\<close>

definition demo_tunnel :: "bytes \<Rightarrow> unit moat_auth tunnel" where
  "demo_tunnel input =
     \<lparr>t_srv = demo_srv, t_cq = cq_empty, t_net = \<lparr>written = (\<lambda>c. []), closing = (\<lambda>c. False)\<rparr>,
      t_in = (\<lambda>c. if c = 1 then [input] else []), t_drain = (\<lambda>c. None),
      t_timeout = (\<lambda>c. False), t_bg = (\<lambda>c. []), t_callbacks = []\<rparr>"

definition demo_cfg :: tunnel_config where
  "demo_cfg = \<lparr>authmsg_timeout = None, probe_request_timeout = None,
     provider_response_timeout = None, max_queue_size = 10\<rparr>"

theorem probe_settled_witness:
  "is_closing (snd (probe_handle demo_cfg 0 (moat_handler demo_env) 1 (Token [1]) (demo_tunnel [7]))) 1 \<or>
   waits (snd (probe_handle demo_cfg 0 (moat_handler demo_env) 1 (Token [1]) (demo_tunnel [7]))) 1"
proof -
  have "wf_cq (max_queue_size demo_cfg) (t_cq (demo_tunnel [7]))"
    by (simp add: demo_tunnel_def cq_empty_ok)
  from probe_settled [OF prod.collapse [symmetric] this] show ?thesis by blast
qed



text \<open>
  C3: The relay is faithful: up to any moment of a session there is a sequence of packets
  such that each side's packets are, in order, the packets in the bytes it sent; every packet of
  the sequence is logged, in the order of arrival and with its sender; and each is forwarded to
  the other side in order, as the bytes written so far followed by what waits to be sent.
\<close>

theorem relay_faithful:
  assumes "session_ok ses s" "handle_established_connection ses es s = (r, s')"
  shows "\<exists>tr sent.
    apdu_logs (db_of s') = apdu_logs (db_of s) @ map (log_row ses) tr \<and>
    (\<forall>side. \<exists>rest. concat (t_in s (ss_conn ses side)) =
       concat (map packet_bytes (from_side side tr)) @ rest) \<and>
    (\<forall>side. from_side side tr = sent side @ t_bg s' (ss_conn ses (other_side side)) \<and>
       written (t_net s') (ss_conn ses (other_side side)) =
         written (t_net s) (ss_conn ses (other_side side)) @ concat (map packet_bytes (sent side)))"
proof -
  from handle_established_relayed [OF assms] obtain tr sent s1 where
    r: "relayed ses s tr sent s1" "t_srv s' = t_srv s1" "t_bg s' = t_bg s1"
    "written (t_net s') = written (t_net s1)" by blast
  then show ?thesis
    by (intro exI [of _ tr] exI [of _ sent]) (auto simp: relayed_def db_of_def)
qed

definition demo_session :: session where
  "demo_session =
     \<lparr>ss_conn = (\<lambda>side. case side of Probe_side \<Rightarrow> 1 | Provider_side \<Rightarrow> 2),
      ss_client_id = (\<lambda>side. case side of Probe_side \<Rightarrow> 6 | Provider_side \<Rightarrow> 6),
      ss_sim = hd (sims demo_db)\<rparr>"

theorem relay_faithful_witness:
  "\<exists>tr sent s'. handle_established_connection demo_session [R_done [Probe_side], R_send Provider_side]
       (demo_tunnel [1, 1, 0, 0, 0, 0]) = (Inr Waiting, s') \<and>
     apdu_logs (db_of s') = map (log_row demo_session) tr \<and>
     from_side Probe_side tr = sent Probe_side @ t_bg s' 2"
proof -
  let ?s = "demo_tunnel [1, 1, 0, 0, 0, 0]"
  let ?es = "[R_done [Probe_side], R_send Provider_side]"
  have conn: "ss_conn demo_session Probe_side = 1" "ss_conn demo_session Provider_side = 2"
    by (simp_all add: demo_session_def)
  have ok: "session_ok demo_session ?s"
    by (auto simp: session_ok_def conn demo_tunnel_def is_closing_def)
  have enc: "wf_apdu (ApduPacket Op_Reset [])" "apdu_encode (ApduPacket Op_Reset []) = Inr [1, 1, 0, 0, 0, 0]"
    by (simp add: wf_apdu_def, code_simp)
  from server_source.apdu_recv_delivers [OF enc, of "[[1, 1, 0, 0, 0, 0]]" "[]" IncompleteReadError]
  obtain rd where "srv_recv [[1, 1, 0, 0, 0, 0]] = Some (Inr (Some (ApduPacket Op_Reset [])), rd)"
    by (auto simp: srv_recv_def)
  then obtain s' where run: "handle_established_connection demo_session ?es ?s = (Inr Waiting, s')"
    by (simp add: handle_established_connection_def conn demo_tunnel_def Let_def)
  from relay_faithful [OF ok run] obtain tr sent where
    "apdu_logs (db_of s') = apdu_logs (db_of ?s) @ map (log_row demo_session) tr"
    "from_side Probe_side tr = sent Probe_side @ t_bg s' (ss_conn demo_session (other_side Probe_side))"
    by blast
  then show ?thesis
    using run
    by (intro exI [of _ tr] exI [of _ sent] exI [of _ s'])
      (simp add: conn db_of_def demo_tunnel_def demo_srv_def demo_db_def)
qed


text \<open>
  A provider's count of available connections is balanced: when the handling of a
  provider's connection ends, normally or by any exception, the table of providers is exactly as
  before, if the other tasks that ran while it waited left the database alone.
\<close>

theorem availability_balanced:
  assumes "provider_handle_requests cfg now H tid c t script es s = (r, s')" "r \<noteq> Inr Waiting"
    "\<forall>x \<in> set script. \<forall>u. t_srv (snd x u) = t_srv u"
  shows "providers (db_of s') = providers (db_of s)"
  using assms by (rule provider_requests_balanced)

definition demo_provider_tunnel :: "unit moat_auth tunnel" where
  "demo_provider_tunnel = (demo_tunnel [])\<lparr>t_srv := demo_srv\<lparr>srv_db :=
     demo_db\<lparr>providers := [\<lparr>p_id = 7, p_allow_reregistration = True, p_available = 0,
       p_last_active = None\<rparr>], sims := []\<rparr>\<rparr>\<rparr>"

theorem availability_balanced_witness:
  "\<exists>s'. provider_handle_requests demo_cfg 0 (moat_handler demo_env) 9 3 (Token [1])
       [(W_eof, \<lambda>u. u)] [] demo_provider_tunnel = (Inr Finished, s') \<and>
     map p_available (providers (db_of s')) = [0]"
proof -
  obtain s' where run: "provider_handle_requests demo_cfg 0 (moat_handler demo_env) 9 3 (Token [1])
       [(W_eof, \<lambda>u. u)] [] demo_provider_tunnel = (Inr Finished, s')"
    by (simp add: provider_handle_requests_def bnd_def with_srv_def lift_h_def demo_handler
        in_transaction_def try_update_def mark_provider_available_def mark_provider_unavailable_def
        get_provider_def update_provider_def demo_provider_tunnel_def demo_tunnel_def demo_srv_def
        demo_db_def demo_cfg_def cancel_get_def cq_get_def get_queue_def cq_empty_def q_get_def
        q_init_def set_queue_def Let_def)
  from availability_balanced [OF run] have "providers (db_of s') = providers (db_of demo_provider_tunnel)"
    by simp
  with run show ?thesis
    by (simp add: demo_provider_tunnel_def demo_tunnel_def db_of_def)
qed

lemma sim_unused_frees:
  assumes "sim_unused pid i d = Inr d'" "sim \<in> set (sims d')" "s_provider sim = pid" "s_id sim = i"
  shows "\<not> s_in_use sim"
proof (cases "get_sim_row d pid i")
  case None
  then have "\<forall>s \<in> set (sims d). \<not> (s_provider s = pid \<and> s_id s = i)"
    by (simp add: get_sim_row_def find_None_iff)
  moreover have "d' = d" using None assms(1) by (simp add: sim_unused_def)
  ultimately show ?thesis using assms(2-4) by blast
next
  case (Some row)
  with assms(1) have "d' = update_sim (\<lambda>s. s\<lparr>s_in_use := False\<rparr>) pid i d"
    by (simp add: sim_unused_def)
  then have "sims d' = map (\<lambda>s. if s_provider s = pid \<and> s_id s = i then s\<lparr>s_in_use := False\<rparr> else s) (sims d)"
    by (simp add: update_sim_def)
  with assms(2) have "sim \<in> (\<lambda>s. if s_provider s = pid \<and> s_id s = i then s\<lparr>s_in_use := False\<rparr> else s) ` set (sims d)"
    by simp
  then obtain s where s: "sim = (if s_provider s = pid \<and> s_id s = i then s\<lparr>s_in_use := False\<rparr> else s)"
    by blast
  show ?thesis
  proof (cases "s_provider s = pid \<and> s_id s = i")
    case True
    with s have "sim = s\<lparr>s_in_use := False\<rparr>" by simp
    then show ?thesis by simp
  next
    case False
    with s assms(3,4) show ?thesis by simp
  qed
qed

lemma close_session_of:
  "is_closing (close_session (session_of qe c) s) (qe_conn qe)"
  "is_closing (close_session (session_of qe c) s) c"
  by (simp_all add: close_session_def session_of_def)



text \<open>
  A probe whose provider hangs up before it answers is forgotten: when the provider
  closes its connection after the request was sent to it, the handler ends with
  \<^verbatim>\<open>IncompleteReadError\<close>; nothing is written to the probe, its connection stays open, and the
  request is in no queue any more.
\<close>

theorem unanswered_probe_forgotten:
  assumes "connect_request_encode (qe_con_req qe) = Inr bs" "t_drain s c = None"
    "\<not> t_timeout s c" "concat (t_in s c) = []" "qe_conn qe \<noteq> c"
    "serve_request cfg now pid qe c es s = (r, s')"
  shows "r = Inl (Wire IncompleteReadError) \<and> t_cq s' = t_cq s \<and>
    written (t_net s') (qe_conn qe) = written (t_net s) (qe_conn qe) \<and>
    (is_closing s' (qe_conn qe) \<longleftrightarrow> is_closing s (qe_conn qe))"
proof -
  let ?s1 = "on_net (net_write c bs) s"
  have w: "write_msg c (connect_request_encode (qe_con_req qe)) s = (Inr (), ?s1)"
    using assms(1,2) by (simp add: write_msg_def)
  have sr: "\<exists>rd. sr_read k (t_in s c) = ([], rd)" for k
    using sr_read_content [of k "t_in s c"] assms(4) by (cases "sr_read k (t_in s c)") auto
  from sr [of 2] obtain rd where "sr_read 2 (t_in s c) = ([], rd)" by blast
  then have "msg_loop srv_fetch connect_response_decode [] (t_in s c) = Some (Inl IncompleteReadError, rd)"
    by (subst msg_loop.simps) (simp add: connect_response_decode_def srv_fetch_def numeral_2_eq_2)
  then have rd: "with_timeout (provider_response_timeout cfg) c (read_message c connect_response_decode) ?s1 =
      (Inl (Wire IncompleteReadError), ?s1\<lparr>t_in := (t_in s)(c := rd)\<rparr>)"
    using assms(3) by (simp add: with_timeout_def read_message_def read_msg_def)
  from assms(6) w rd have
    run: "r = Inl (Wire IncompleteReadError)" "s' = ?s1\<lparr>t_in := (t_in s)(c := rd)\<rparr>"
    by (simp_all add: serve_request_def)
  show ?thesis
    unfolding run using assms(5) by (simp add: is_closing_def net_write_def)
qed

theorem unanswered_probe_forgotten_witness:
  "fst (serve_request demo_cfg 0 5 (demo_entry 1) 2 [] (demo_tunnel [])) = Inl (Wire IncompleteReadError)"
proof -
  have wf: "wf_identifier (cr_identifier (qe_con_req (demo_entry 1)))"
    by (simp add: demo_entry_def wf_iccid_def only_digits_def str_encode_def)
  from connect_request_format.enc_total [OF wf] obtain bs where
    enc: "connect_request_encode (qe_con_req (demo_entry 1)) = Inr bs" by blast
  from unanswered_probe_forgotten [OF enc, of "demo_tunnel []" 2 demo_cfg 0 5 "[]", OF _ _ _ _ prod.collapse [symmetric]]
  show ?thesis by (simp add: demo_tunnel_def demo_entry_def)
qed

text \<open>
  The APDU log never names the provider: both streams of a session are created with the
  probe's id, so every row a session adds to the log has the probe's id in the column for the
  provider, too.
\<close>

theorem log_names_probe_twice:
  assumes "session_ok (session_of qe c) s"
    "handle_established_connection (session_of qe c) es s = (r, s')"
  shows "\<exists>rows. apdu_logs (db_of s') = apdu_logs (db_of s) @ rows \<and>
    (\<forall>row \<in> set rows. l_provider row = qe_probe_id qe \<and> l_probe row = qe_probe_id qe)"
proof -
  from handle_established_relayed [OF assms] obtain tr sent s1 where
    "relayed (session_of qe c) s tr sent s1" "t_srv s' = t_srv s1" by blast
  then have "apdu_logs (db_of s') = apdu_logs (db_of s) @ map (log_row (session_of qe c)) tr"
    by (simp add: relayed_def db_of_def)
  then show ?thesis by (auto simp: log_row_def session_of_def)
qed

theorem log_names_probe_twice_witness:
  "\<exists>rows. apdu_logs (db_of (snd (handle_established_connection (session_of (demo_entry 1) 2)
       [R_done [Probe_side]] (demo_tunnel [])))) = rows \<and> (\<forall>row \<in> set rows. l_provider row = 6)"
proof -
  have "session_ok (session_of (demo_entry 1) 2) (demo_tunnel [])"
    by (auto simp: session_ok_def session_of_def demo_entry_def demo_tunnel_def is_closing_def
        split: side.splits)
  from log_names_probe_twice [OF this prod.collapse [symmetric], of "[R_done [Probe_side]]"]
  show ?thesis by (auto simp: demo_entry_def demo_tunnel_def demo_srv_def demo_db_def db_of_def)
qed

end
