(* ===== verification/Tunnel_Clients.thy ===== *)
theory Tunnel_Clients
  imports Tunnel_Server
begin

text \<open>
  The client library (\<^verbatim>\<open>moatt_clients\<close>): authentication (\<^verbatim>\<open>client.py\<close>), the probe's
  connection request (\<^verbatim>\<open>probe_client.py\<close>), the provider's wait for a request
  (\<^verbatim>\<open>provider_client.py\<close>), and the calls to the management server's HTTP interface
  (\<^verbatim>\<open>moat_management.py\<close>). The last section connects the client with the server.
\<close>

section \<open>State and errors\<close>

datatype client_error =
    Client_AuthError auth_status
  | Client_ProtocolError
  | SimRequestError connect_status sim_identifier
  | Client_Wire py_error
  | Client_ConnectionError
  | Client_HTTPError int
  | Client_RequestException
  | Client_ValidationError

text \<open>
  A client's connection: the buffered socket it reads from, the bytes it has written, whether
  the socket takes more, and whether the client closed it.
\<close>

record client =
  cl_stream :: raw_stream
  cl_out :: bytes
  cl_broken :: bool
  cl_closed :: bool

type_synonym 'a client_act = "(client_error, client, 'a) eff"

definition write_all :: "py_error + bytes \<Rightarrow> unit client_act" where
  "write_all msg c =
     (case msg of
        Inl e \<Rightarrow> (Inl (Client_Wire e), c)
      | Inr bs \<Rightarrow>
          if cl_broken c then (Inl Client_ConnectionError, c)
          else (Inr (), c\<lparr>cl_out := cl_out c @ bs\<rparr>))"

definition client_read :: "(bytes \<Rightarrow> py_error + 'm) \<Rightarrow> 'm client_act" where
  "client_read decoder c =
     (case raw_read_message decoder (cl_stream c) of
        None \<Rightarrow> (Inl Client_ProtocolError, c)
      | Some (r, st) \<Rightarrow>
          ((case r of Inl e \<Rightarrow> Inl (Client_Wire e) | Inr m \<Rightarrow> Inr m), c\<lparr>cl_stream := st\<rparr>))"

definition client_close :: "client \<Rightarrow> client" where
  "client_close c = c\<lparr>cl_closed := True\<rparr>"

section \<open>Authentication and connection requests\<close>

definition authenticate :: "auth_type \<Rightarrow> token \<Rightarrow> unit client_act" where
  "authenticate auth_type session_token =
     bnd (write_all (auth_request_encode \<lparr>ar_type = auth_type, ar_token = session_token\<rparr>)) (\<lambda>_.
     bnd (client_read auth_response_decode) (\<lambda>auth_res.
       if ar_status auth_res \<noteq> Auth_Success then throw (Client_AuthError (ar_status auth_res))
       else ret ()))"

definition request_of :: "bool \<Rightarrow> sim_identifier \<Rightarrow> connect_request" where
  "request_of no_wait sim_id =
     \<lparr>cr_identifier = sim_id, cr_flags = (if no_wait then NO_WAIT else DEFAULT)\<rparr>"

definition probe_connect_inner :: "token \<Rightarrow> bool \<Rightarrow> sim_identifier \<Rightarrow> unit client_act" where
  "probe_connect_inner session_token no_wait sim_id =
     bnd (authenticate Auth_Probe session_token) (\<lambda>_.
     bnd (write_all (connect_request_encode (request_of no_wait sim_id))) (\<lambda>_.
     bnd (client_read connect_response_decode) (\<lambda>conn_res.
       if cr_status conn_res \<noteq> Con_Success
       then throw (SimRequestError (cr_status conn_res) sim_id)
       else ret ())))"

text \<open>\<^verbatim>\<open>connect\<close>: an exception closes the stream and goes on.\<close>

definition probe_connect :: "token \<Rightarrow> bool \<Rightarrow> sim_identifier \<Rightarrow> unit client_act" where
  "probe_connect session_token no_wait sim_id c =
     (case probe_connect_inner session_token no_wait sim_id c of
        (Inl e, c') \<Rightarrow> (Inl e, client_close c')
      | (Inr x, c') \<Rightarrow> (Inr x, c'))"

definition provider_wait_inner ::
  "token \<Rightarrow> (connect_request \<Rightarrow> connect_status) \<Rightarrow> sim_identifier client_act" where
  "provider_wait_inner session_token cb =
     bnd (authenticate Auth_Provider session_token) (\<lambda>_.
     bnd (client_read connect_request_decode) (\<lambda>conn_req.
       let status = cb conn_req in
       bnd (write_all (connect_response_encode (ConnectResponse status))) (\<lambda>_.
         if status \<noteq> Con_Success then throw (SimRequestError status (cr_identifier conn_req))
         else ret (cr_identifier conn_req))))"

definition wait_for_connection ::
  "token \<Rightarrow> (connect_request \<Rightarrow> connect_status) \<Rightarrow> sim_identifier client_act" where
  "wait_for_connection session_token cb c =
     (case provider_wait_inner session_token cb c of
        (Inl e, c') \<Rightarrow> (Inl e, client_close c')
      | (Inr x, c') \<Rightarrow> (Inr x, c'))"

section \<open>Calls to the HTTP interfaces\<close>

text \<open>
  The HTTP library is a parameter: a request is its method, URL, bearer token and JSON body.
  \<open>None\<close> means that the request raised.
\<close>

record 'w http_client =
  hc_request :: "string \<Rightarrow> string \<Rightarrow> string option \<Rightarrow> json option \<Rightarrow> 'w \<Rightarrow> http_response option \<times> 'w"
  hc_base64 :: "bytes \<Rightarrow> string"
  hc_unbase64 :: "string \<Rightarrow> bytes option"

record provider_sim =
  ps_id :: int
  ps_iccid :: "iccid option"
  ps_imsi :: "imsi option"

definition sim_to_dict :: "provider_sim \<Rightarrow> json" where
  "sim_to_dict s = JObj
     ([(''id'', JInt (ps_id s))] @
      (case ps_iccid s of None \<Rightarrow> [] | Some i \<Rightarrow> [(''iccid'', JStr (iccid_str i))]) @
      (case ps_imsi s of None \<Rightarrow> [] | Some i \<Rightarrow> [(''imsi'', JStr (imsi_str i))]))"

text \<open>\<^verbatim>\<open>raise_for_status\<close> raises for the codes 400 to 599.\<close>

definition http_ok :: "http_response \<Rightarrow> bool" where
  "http_ok r \<longleftrightarrow> \<not> (400 \<le> res_status r \<and> res_status r < 600)"

definition client_register_sims ::
  "'w http_client \<Rightarrow> string \<Rightarrow> token \<Rightarrow> provider_sim list \<Rightarrow> 'w \<Rightarrow> (client_error + unit) \<times> 'w" where
  "client_register_sims hc api_url session_token sims_in w =
     (case hc_request hc ''PUT'' (api_url @ ''/provider/sims'')
             (Some (hc_base64 hc (as_bytes session_token))) (Some (JList (map sim_to_dict sims_in))) w of
        (None, w') \<Rightarrow> (Inl Client_RequestException, w')
      | (Some r, w') \<Rightarrow>
          ((if http_ok r then Inr () else Inl (Client_HTTPError (res_status r))), w'))"

text \<open>\<^verbatim>\<open>RegistrationResponse.model_validate_json\<close> and the token made of it.\<close>

fun registration_token :: "'w http_client \<Rightarrow> json \<Rightarrow> client_error + token" where
  "registration_token hc (JObj obj) =
     (case map_of obj ''session_token'' of
        Some (JStr s) \<Rightarrow>
          (case hc_unbase64 hc s of
             None \<Rightarrow> Inl Client_ValidationError
           | Some bs \<Rightarrow> (case Token_init bs of Inl e \<Rightarrow> Inl (Client_Wire e) | Inr t \<Rightarrow> Inr t))
      | _ \<Rightarrow> Inl Client_ValidationError)"
| "registration_token hc _ = Inl Client_ValidationError"

definition register_at ::
  "'w http_client \<Rightarrow> string \<Rightarrow> token \<Rightarrow> json option \<Rightarrow> 'w \<Rightarrow> (client_error + token) \<times> 'w" where
  "register_at hc url bearer body w =
     (case hc_request hc ''POST'' url (Some (hc_base64 hc (as_bytes bearer))) body w of
        (None, w') \<Rightarrow> (Inl Client_RequestException, w')
      | (Some r, w') \<Rightarrow>
          ((if http_ok r then registration_token hc (res_json r)
            else Inl (Client_HTTPError (res_status r))), w'))"

definition client_register_probe ::
  "'w http_client \<Rightarrow> string \<Rightarrow> token \<Rightarrow> token \<Rightarrow> 'w \<Rightarrow> (client_error + token) \<times> 'w" where
  "client_register_probe hc api_url mam_token tunnel_token =
     register_at hc (api_url @ ''/tunnel/probe'') mam_token
       (Some (JObj [(''token'', JStr (hc_base64 hc (as_bytes tunnel_token)))]))"

definition client_register_provider ::
  "'w http_client \<Rightarrow> string \<Rightarrow> token \<Rightarrow> 'w \<Rightarrow> (client_error + token) \<times> 'w" where
  "client_register_provider hc api_url tunnel_token =
     register_at hc (api_url @ ''/tunnel/provider'') tunnel_token None"

definition client_deregister ::
  "'w http_client \<Rightarrow> string \<Rightarrow> token \<Rightarrow> 'w \<Rightarrow> (client_error + bool) \<times> 'w" where
  "client_deregister hc url session_token w =
     (case hc_request hc ''DELETE'' url None
             (Some (JStr (hc_base64 hc (as_bytes session_token)))) w of
        (None, w') \<Rightarrow> (Inl Client_RequestException, w')
      | (Some r, w') \<Rightarrow> (Inr (if res_status r \<noteq> 200 then False else True), w'))"

definition client_deregister_probe ::
  "'w http_client \<Rightarrow> string \<Rightarrow> token \<Rightarrow> 'w \<Rightarrow> (client_error + bool) \<times> 'w" where
  "client_deregister_probe hc api_url t = client_deregister hc (api_url @ ''/tunnel/probe'') t"

definition client_deregister_provider ::
  "'w http_client \<Rightarrow> string \<Rightarrow> token \<Rightarrow> 'w \<Rightarrow> (client_error + bool) \<times> 'w" where
  "client_deregister_provider hc api_url t = client_deregister hc (api_url @ ''/tunnel/provider'') t"

section \<open>What the client does on the wire\<close>

lemma write_all_ok:
  "\<not> cl_broken c \<Longrightarrow> write_all (Inr bs) c = (Inr (), c\<lparr>cl_out := cl_out c @ bs\<rparr>)"
  by (simp add: write_all_def)

lemma client_read_ok:
  assumes "\<And>s. raw_content s = bs @ rest \<Longrightarrow>
      \<exists>s'. msg_loop raw_fetch dec [] s = Some (Inr m, s') \<and> raw_content s' = rest"
    "raw_content (cl_stream c) = bs @ rest"
  obtains st where "client_read dec c = (Inr m, c\<lparr>cl_stream := st\<rparr>)" "raw_content st = rest"
proof -
  from assms(1) [OF assms(2)] obtain st where
    "msg_loop raw_fetch dec [] (cl_stream c) = Some (Inr m, st)" "raw_content st = rest" by blast
  with that [of st] show thesis by (simp add: client_read_def raw_read_message_def)
qed

lemma authenticate_ok:
  assumes "auth_request_encode \<lparr>ar_type = t, ar_token = tok\<rparr> = Inr req"
    "auth_response_encode (AuthResponse st) = Inr res"
    "raw_content (cl_stream c) = res @ rest" "\<not> cl_broken c"
  obtains str where
    "authenticate t tok c =
       (if st = Auth_Success then Inr () else Inl (Client_AuthError st),
        c\<lparr>cl_out := cl_out c @ req, cl_stream := str\<rparr>)"
    "raw_content str = rest"
proof -
  let ?c = "c\<lparr>cl_out := cl_out c @ req\<rparr>"
  have "raw_content (cl_stream ?c) = res @ rest" using assms(3) by simp
  from client_read_ok [OF client_auth_response.msg_loop_delivers [OF TrueI assms(2)] this] obtain str
    where rd: "client_read auth_response_decode ?c = (Inr (AuthResponse st), ?c\<lparr>cl_stream := str\<rparr>)"
      "raw_content str = rest" .
  have "write_all (Inr req) c = (Inr (), ?c)" using assms(4) by (rule write_all_ok)
  with rd that [of str] show thesis
    by (simp add: authenticate_def assms(1) bnd_def)
qed

lemma probe_connect_ok:
  assumes "auth_request_encode \<lparr>ar_type = Auth_Probe, ar_token = tok\<rparr> = Inr areq"
    "auth_response_encode (AuthResponse Auth_Success) = Inr ares"
    "connect_request_encode (request_of nw ident) = Inr creq"
    "connect_response_encode (ConnectResponse st) = Inr cres"
    "raw_content (cl_stream c) = ares @ cres @ rest" "\<not> cl_broken c"
  obtains c' where
    "probe_connect tok nw ident c =
       (if st = Con_Success then Inr () else Inl (SimRequestError st ident), c')"
    "cl_out c' = cl_out c @ areq @ creq" "raw_content (cl_stream c') = rest"
    "cl_closed c' \<longleftrightarrow> cl_closed c \<or> st \<noteq> Con_Success"
proof -
  from authenticate_ok [OF assms(1,2,5,6)] obtain str where
    auth: "authenticate Auth_Probe tok c = (Inr (), c\<lparr>cl_out := cl_out c @ areq, cl_stream := str\<rparr>)"
      "raw_content str = cres @ rest" by (metis (full_types))
  let ?c = "c\<lparr>cl_out := (cl_out c @ areq) @ creq, cl_stream := str\<rparr>"
  have "raw_content (cl_stream ?c) = cres @ rest" using auth(2) by simp
  from client_read_ok [OF client_connect_response.msg_loop_delivers [OF TrueI assms(4)] this]
  obtain str2 where rd: "client_read connect_response_decode ?c =
      (Inr (ConnectResponse st), ?c\<lparr>cl_stream := str2\<rparr>)" "raw_content str2 = rest" .
  have w: "write_all (Inr creq) (c\<lparr>cl_out := cl_out c @ areq, cl_stream := str\<rparr>) = (Inr (), ?c)"
    using assms(6) by (simp add: write_all_def)
  have run: "probe_connect_inner tok nw ident c =
      (if st = Con_Success then Inr () else Inl (SimRequestError st ident), ?c\<lparr>cl_stream := str2\<rparr>)"
    using auth(1) w rd(1) by (simp add: probe_connect_inner_def bnd_def assms(3))
  show thesis
  proof (cases "st = Con_Success")
    case True
    with run rd(2) that [of "?c\<lparr>cl_stream := str2\<rparr>"] show thesis by (simp add: probe_connect_def)
  next
    case False
    with run rd(2) that [of "client_close (?c\<lparr>cl_stream := str2\<rparr>)"] show thesis
      by (simp add: probe_connect_def client_close_def)
  qed
qed

lemma provider_wait_ok:
  assumes "auth_request_encode \<lparr>ar_type = Auth_Provider, ar_token = tok\<rparr> = Inr areq"
    "auth_response_encode (AuthResponse Auth_Success) = Inr ares"
    "wf_identifier (cr_identifier req)" "connect_request_encode req = Inr creq"
    "connect_response_encode (ConnectResponse (cb req)) = Inr cres"
    "raw_content (cl_stream c) = ares @ creq @ rest" "\<not> cl_broken c"
  obtains c' where
    "wait_for_connection tok cb c =
       (if cb req = Con_Success then Inr (cr_identifier req)
        else Inl (SimRequestError (cb req) (cr_identifier req)), c')"
    "cl_out c' = cl_out c @ areq @ cres" "raw_content (cl_stream c') = rest"
proof -
  from authenticate_ok [OF assms(1,2,6,7)] obtain str where
    auth: "authenticate Auth_Provider tok c = (Inr (), c\<lparr>cl_out := cl_out c @ areq, cl_stream := str\<rparr>)"
      "raw_content str = creq @ rest" by (metis (full_types))
  let ?c = "c\<lparr>cl_out := cl_out c @ areq, cl_stream := str\<rparr>"
  have "raw_content (cl_stream ?c) = creq @ rest" using auth(2) by simp
  from client_read_ok [OF client_connect_request.msg_loop_delivers [OF assms(3,4)] this]
  obtain str2 where rd: "client_read connect_request_decode ?c = (Inr req, ?c\<lparr>cl_stream := str2\<rparr>)"
    "raw_content str2 = rest" .
  let ?d = "c\<lparr>cl_out := (cl_out c @ areq) @ cres, cl_stream := str2\<rparr>"
  have w: "write_all (Inr cres) (?c\<lparr>cl_stream := str2\<rparr>) = (Inr (), ?d)"
    using assms(7) by (simp add: write_all_def)
  have run: "provider_wait_inner tok cb c =
      (if cb req = Con_Success then Inr (cr_identifier req)
       else Inl (SimRequestError (cb req) (cr_identifier req)), ?d)"
    using auth(1) rd(1) w by (simp add: provider_wait_inner_def bnd_def assms(5) Let_def)
  show thesis
  proof (cases "cb req = Con_Success")
    case True
    with run rd(2) that [of ?d] show thesis by (simp add: wait_for_connection_def)
  next
    case False
    with run rd(2) that [of "client_close ?d"] show thesis
      by (simp add: wait_for_connection_def client_close_def)
  qed
qed

section \<open>What the server makes of it\<close>

lemma read_message_ok:
  assumes "\<And>segs. concat segs = bs @ rest \<Longrightarrow>
      \<exists>segs'. msg_loop srv_fetch dec [] segs = Some (Inr m, segs') \<and> concat segs' = rest"
    "concat (t_in s c) = bs @ rest"
  obtains rd where "read_message c dec s = (Inr m, s\<lparr>t_in := (t_in s)(c := rd)\<rparr>)" "concat rd = rest"
proof -
  from assms(1) [OF assms(2)] obtain rd where
    "msg_loop srv_fetch dec [] (t_in s c) = Some (Inr m, rd)" "concat rd = rest" by blast
  with that [of rd] show thesis by (simp add: read_message_def read_msg_def)
qed

lemma probe_handle_ok:
  assumes "wf_identifier (cr_identifier req)" "connect_request_encode req = Inr creq"
    "concat (t_in s c) = creq @ rest" "\<not> t_timeout s c"
    "select_sim (cr_identifier req) (db_of s) = Some sim"
    "get_provider (db_of s) (s_provider sim) \<noteq> None"
    "allowed_sim_request H tok (s_provider sim)
       \<lparr>si_id = s_id sim, si_iccid = s_iccid sim, si_imsi = s_imsi sim\<rparr> (srv_h (t_srv s)) = (Inr verdict, h1)"
    "identity H tok h1 = (Inr (Some pid), h2)"
    "cq_put_nowait (max_queue_size cfg) now (s_provider sim)
       \<lparr>qe_sim = sim, qe_probe_id = pid, qe_con_req = req, qe_conn = c,
        qe_immediate = (cr_flags req = NO_WAIT)\<rparr> (t_cq s) = (Inr (), q)"
  obtains s' where "probe_handle cfg now H c tok s = (Inr (), s')" "t_cq s' = q"
    "t_net s' = t_net s" "db_of s' = db_of s" "concat (t_in s' c) = rest"
proof -
  from read_message_ok [OF server_connect_request.msg_loop_delivers [OF assms(1,2)] assms(3)]
  obtain rd where rd: "read_message c connect_request_decode s = (Inr req, s\<lparr>t_in := (t_in s)(c := rd)\<rparr>)"
    "concat rd = rest" .
  let ?s1 = "s\<lparr>t_in := (t_in s)(c := rd)\<rparr>"
  let ?s2 = "?s1\<lparr>t_srv := (t_srv s)\<lparr>srv_h := h1\<rparr>\<rparr>"
  let ?s3 = "?s1\<lparr>t_srv := (t_srv s)\<lparr>srv_h := h2\<rparr>\<rparr>"
  have find: "find_sim H tok (cr_identifier req) ?s1 = (Inr (Some (Some sim)), ?s2)"
    using assms(5,7)
    by (simp add: find_sim_def with_srv_def in_transaction_def get_sim_def bnd_lift_h db_of_def
        auth_result_bool_def)
  obtain p where "get_provider (db_of s) (s_provider sim) = Some p" using assms(6) by blast
  then have answer: "answer_lookup cfg now H c tok req (Some (Some sim)) ?s2 = (Inr (), ?s3\<lparr>t_cq := q\<rparr>)"
    using assms(8,9)
    by (simp add: answer_lookup_def bnd_def with_srv_def lift_h_def enqueue_request_def
        put_request_def db_of_def)
  have "with_timeout (probe_request_timeout cfg) c (read_message c connect_request_decode) s = (Inr req, ?s1)"
    using rd(1) assms(4) by (simp add: with_timeout_def)
  then have "probe_handle_request cfg now H c tok s = (Inr (), ?s3\<lparr>t_cq := q\<rparr>)"
    using find answer by (simp add: probe_handle_request_def bnd_def)
  then show thesis
    using that [of "?s3\<lparr>t_cq := q\<rparr>"] rd(2) by (simp add: probe_handle_def db_of_def)
qed

section \<open>Properties\<close>



lemma demo_probe_calls:
  "allowed_probe_registration (moat_handler demo_env) t h = (Inr AR_Success, h)"
  "allowed_sim_request (moat_handler demo_env) t p si h = (Inr AR_Success, h)"
  by (simp_all add: moat_handler_def demo_env_def moat_allowed_probe_registration_def
      moat_allowed_sim_request_def bnd_def moat_post_def http_success_def process_result_def)

definition demo_client :: "bytes \<Rightarrow> client" where
  "demo_client input = \<lparr>cl_stream = raw_init [input], cl_out = [], cl_broken = False, cl_closed = False\<rparr>"





end
