(* ===== verification/Tunnel_Rest.thy ===== *)
theory Tunnel_Rest
  imports Tunnel_Auth
begin

text \<open>
  The tunnel server's HTTP interface (\<^verbatim>\<open>rest/models.py\<close>, \<^verbatim>\<open>rest/auth.py\<close>,
  \<^verbatim>\<open>rest/main.py\<close>): validation of the SIM list a provider uploads, the bearer token, and the
  two routes. A request body is modelled after \<^verbatim>\<open>pydantic\<close> has read its JSON types; the
  constraints and validators declared in \<^verbatim>\<open>models.py\<close> are applied here. The Base64 decoder is
  a parameter.
\<close>

section \<open>Validation\<close>

record rest_sim =
  rs_id :: int
  rs_iccid :: "string option"
  rs_imsi :: "string option"

definition digit_str :: "string \<Rightarrow> bool" where
  "digit_str s \<longleftrightarrow> only_digits (str_encode s)"

definition valid_number :: "string \<Rightarrow> bool" where
  "valid_number s \<longleftrightarrow> 5 \<le> length s \<and> length s \<le> 20 \<and> digit_str s"

definition valid_sim :: "rest_sim \<Rightarrow> bool" where
  "valid_sim s \<longleftrightarrow> 0 \<le> rs_id s \<and> rs_id s < 2 ^ 64 \<and>
     (case rs_iccid s of None \<Rightarrow> True | Some i \<Rightarrow> valid_number i) \<and>
     (case rs_imsi s of None \<Rightarrow> True | Some i \<Rightarrow> valid_number i)"

text \<open>\<^verbatim>\<open>no_duplicate_ids\<close>, which compares ICCIDs and IMSIs and no ids.\<close>

definition no_duplicate_ids :: "rest_sim list \<Rightarrow> bool" where
  "no_duplicate_ids ss \<longleftrightarrow>
     distinct (somes (map rs_iccid ss)) \<and> distinct (somes (map rs_imsi ss))"

definition valid_sim_list :: "rest_sim list \<Rightarrow> bool" where
  "valid_sim_list ss \<longleftrightarrow> list_all valid_sim ss \<and> no_duplicate_ids ss"

definition get_iccid :: "rest_sim \<Rightarrow> py_error + iccid option" where
  "get_iccid s =
     (case rs_iccid s of None \<Rightarrow> Inr None | Some i \<Rightarrow> bind_r (Iccid_init i) (\<lambda>x. Inr (Some x)))"

definition get_imsi :: "rest_sim \<Rightarrow> py_error + imsi option" where
  "get_imsi s =
     (case rs_imsi s of None \<Rightarrow> Inr None | Some i \<Rightarrow> bind_r (Imsi_init i) (\<lambda>x. Inr (Some x)))"

section \<open>Routes\<close>

text \<open>The dict comprehension over the list.\<close>

fun collect_sims :: "sims_in \<Rightarrow> rest_sim list \<Rightarrow> py_error + sims_in" where
  "collect_sims d [] = Inr d"
| "collect_sims d (s # ss) =
     bind_r (get_iccid s) (\<lambda>iccid. bind_r (get_imsi s) (\<lambda>imsi.
       collect_sims (dict_set (rs_id s) (iccid, imsi) d) ss))"

text \<open>\<^verbatim>\<open>session_token\<close>: 400 if the bearer token is no Base64.\<close>

datatype rest_error = Status int | Rest_error py_error

definition session_token :: "(string \<Rightarrow> bytes option) \<Rightarrow> string \<Rightarrow> rest_error + token" where
  "session_token b64decode credentials =
     (case b64decode credentials of
        None \<Rightarrow> Inl (Status 400)
      | Some bs \<Rightarrow> (case Token_init bs of Inl e \<Rightarrow> Inl (Rest_error e) | Inr t \<Rightarrow> Inr t))"

text \<open>
  The status of a response: the exception handlers answer 403 to \<^verbatim>\<open>AuthError\<close> and
  \<^verbatim>\<open>TokenError\<close>, any other exception is a 500, a failed validation a 422.
\<close>

fun error_status :: "srv_error \<Rightarrow> int" where
  "error_status AuthError = 403"
| "error_status (TokenError _) = 403"
| "error_status _ = 500"

fun rest_error_status :: "rest_error \<Rightarrow> int" where
  "rest_error_status (Status n) = n"
| "rest_error_status (Rest_error _) = 500"

definition provider_register ::
  "'h handler \<Rightarrow> (string \<Rightarrow> bytes option) \<Rightarrow> time option \<Rightarrow> time \<Rightarrow> string \<Rightarrow> rest_sim list \<Rightarrow>
    'h srv \<Rightarrow> int \<times> 'h srv" where
  "provider_register H b64decode expiration now credentials sims_req s =
     (case session_token b64decode credentials of
        Inl e \<Rightarrow> (rest_error_status e, s)
      | Inr tok \<Rightarrow>
          if \<not> valid_sim_list sims_req then (422, s)
          else
            (case collect_sims [] sims_req of
               Inl e \<Rightarrow> (500, s)
             | Inr sims_in \<Rightarrow>
                 (case in_transaction (register_provider H expiration now tok sims_in) s of
                    (Inl e, s') \<Rightarrow> (error_status e, s')
                  | (Inr modified, s') \<Rightarrow> ((if modified then 201 else 204), s'))))"

text \<open>The stored SIMs are validated again on their way out; a failure is a 500.\<close>

definition provider_get_registered_sims ::
  "'h handler \<Rightarrow> (string \<Rightarrow> bytes option) \<Rightarrow> string \<Rightarrow> 'h srv \<Rightarrow> (int \<times> rest_sim list) \<times> 'h srv" where
  "provider_get_registered_sims H b64decode credentials s =
     (case session_token b64decode credentials of
        Inl e \<Rightarrow> ((rest_error_status e, []), s)
      | Inr tok \<Rightarrow>
          (case lift_h (get_sim_ids H tok (srv_db s)) s of
             (Inl e, s') \<Rightarrow> ((error_status e, []), s')
           | (Inr rows, s') \<Rightarrow>
               let ss = map (\<lambda>(i, iccid, imsi). \<lparr>rs_id = i, rs_iccid = iccid, rs_imsi = imsi\<rparr>) rows in
               ((if valid_sim_list ss then (200, ss) else (500, [])), s')))"

section \<open>What validation gives the registration\<close>

text \<open>
  The strings that a column of the dictionary holds come from distinct elements of the
  request, so they stay distinct; \<open>mset_le\<close> is stated for one column.
\<close>

definition column :: "('v \<Rightarrow> 'a option) \<Rightarrow> ('k \<times> 'v) list \<Rightarrow> 'a list" where
  "column f d = somes (map (f \<circ> snd) d)"

lemma somes_Cons [simp]: "somes (x # xs) = (case x of None \<Rightarrow> somes xs | Some a \<Rightarrow> a # somes xs)"
  by (cases x) (simp_all add: somes_def)

lemma somes_Nil [simp]: "somes [] = []"
  by (simp add: somes_def)

lemma set_somes: "set (somes xs) = {a. Some a \<in> set xs}"
  by (force simp: somes_def)

lemma column_dict_set:
  "set (column f (dict_set k v d)) \<subseteq> set (column f d) \<union> set_option (f v)"
  by (induction k v d rule: dict_set.induct)
    (auto simp: column_def split: option.splits if_splits)

lemma distinct_column_dict_set:
  "distinct (column f d) \<Longrightarrow> (\<forall>a. f v = Some a \<longrightarrow> a \<notin> set (column f d)) \<Longrightarrow>
     distinct (column f (dict_set k v d))"
proof (induction k v d rule: dict_set.induct)
  case (2 k v j w d)
  show ?case
  proof (cases "j = k")
    case True
    with 2 show ?thesis by (auto simp: column_def split: option.splits)
  next
    case False
    from 2 False have "distinct (column f (dict_set k v d))"
      by (auto simp: column_def split: option.splits)
    moreover have "a \<notin> set (column f (dict_set k v d))" if "f w = Some a" for a
      using 2(2,3) that column_dict_set [of f k v d] by (cases "f v") (auto simp: column_def)
    ultimately show ?thesis
      using False by (auto simp: column_def split: option.splits)
  qed
qed (simp add: column_def split: option.splits)

lemma get_iccid_str: "get_iccid s = Inr i \<Longrightarrow> map_option iccid_str i = rs_iccid s"
  by (auto simp: get_iccid_def Iccid_init_def bind_r_Inr_iff split: option.splits if_splits)

lemma get_imsi_str: "get_imsi s = Inr i \<Longrightarrow> map_option imsi_str i = rs_imsi s"
  by (auto simp: get_imsi_def Imsi_init_def bind_r_Inr_iff split: option.splits if_splits)

lemma collect_sims_ok:
  assumes "collect_sims d ss = Inr d'" "distinct (map fst d)"
    "distinct (column (\<lambda>v. map_option iccid_str (fst v)) d @ somes (map rs_iccid ss))"
    "distinct (column (\<lambda>v. map_option imsi_str (snd v)) d @ somes (map rs_imsi ss))"
  shows "distinct (map fst d') \<and> distinct (column (\<lambda>v. map_option iccid_str (fst v)) d') \<and>
    distinct (column (\<lambda>v. map_option imsi_str (snd v)) d')"
  using assms
proof (induction d ss rule: collect_sims.induct)
  case (2 d s ss)
  let ?f = "\<lambda>v :: iccid option \<times> imsi option. map_option iccid_str (fst v)"
  let ?g = "\<lambda>v :: iccid option \<times> imsi option. map_option imsi_str (snd v)"
  from "2.prems"(1) obtain i m where
    im: "get_iccid s = Inr i" "get_imsi s = Inr m"
    and rest: "collect_sims (dict_set (rs_id s) (i, m) d) ss = Inr d'"
    by (auto simp: bind_r_Inr_iff)
  let ?d = "dict_set (rs_id s) (i, m) d"
  have fv: "?f (i, m) = rs_iccid s" "?g (i, m) = rs_imsi s"
    using get_iccid_str [OF im(1)] get_imsi_str [OF im(2)] by simp_all
  have a: "distinct (column ?f d)" "\<forall>x. ?f (i, m) = Some x \<longrightarrow> x \<notin> set (column ?f d)"
    "distinct (somes (map rs_iccid ss))"
    "(set (column ?f d) \<union> set_option (rs_iccid s)) \<inter> set (somes (map rs_iccid ss)) = {}"
    using "2.prems"(3) fv(1) by (auto split: option.splits)
  have b: "distinct (column ?g d)" "\<forall>x. ?g (i, m) = Some x \<longrightarrow> x \<notin> set (column ?g d)"
    "distinct (somes (map rs_imsi ss))"
    "(set (column ?g d) \<union> set_option (rs_imsi s)) \<inter> set (somes (map rs_imsi ss)) = {}"
    using "2.prems"(4) fv(2) by (auto split: option.splits)
  have "distinct (column ?f ?d @ somes (map rs_iccid ss))"
    using distinct_column_dict_set [OF a(1,2), of "rs_id s"] a(3,4)
      column_dict_set [of ?f "rs_id s" "(i, m)" d] unfolding fv(1) by auto
  moreover have "distinct (column ?g ?d @ somes (map rs_imsi ss))"
    using distinct_column_dict_set [OF b(1,2), of "rs_id s"] b(3,4)
      column_dict_set [of ?g "rs_id s" "(i, m)" d] unfolding fv(2) by auto
  ultimately show ?case
    using "2.IH" [OF im rest distinct_dict_set [OF "2.prems"(2)]] by blast
qed simp

lemma collect_sims_req_ok:
  assumes "valid_sim_list ss" "collect_sims [] ss = Inr sims_in"
  shows "req_ok (sim_strings sims_in)"
proof -
  have "distinct (map fst sims_in)" "distinct (column (\<lambda>v. map_option iccid_str (fst v)) sims_in)"
    "distinct (column (\<lambda>v. map_option imsi_str (snd v)) sims_in)"
    using collect_sims_ok [OF assms(2)] assms(1)
    by (simp_all add: valid_sim_list_def no_duplicate_ids_def column_def)
  moreover have "map fst (sim_strings sims_in) = map fst sims_in"
    "map (fst \<circ> snd) (sim_strings sims_in) = map ((\<lambda>v. map_option iccid_str (fst v)) \<circ> snd) sims_in"
    "map (snd \<circ> snd) (sim_strings sims_in) = map ((\<lambda>v. map_option imsi_str (snd v)) \<circ> snd) sims_in"
    by (auto simp: sim_strings_def)
  ultimately show ?thesis by (simp add: req_ok_def column_def)
qed

lemma collect_sims_ids_gen:
  "collect_sims d ss = Inr d' \<Longrightarrow> fst ` set d' = fst ` set d \<union> rs_id ` set ss"
proof (induction d ss rule: collect_sims.induct)
  case (2 d s ss)
  have ids: "fst ` set (dict_set k v d) = insert k (fst ` set d)" for k v
    using arg_cong [OF map_fst_dict_set [of k v d], of set] by (auto split: if_splits)
  from "2.prems" obtain i m where "get_iccid s = Inr i" "get_imsi s = Inr m"
    "collect_sims (dict_set (rs_id s) (i, m) d) ss = Inr d'"
    by (auto simp: bind_r_Inr_iff)
  from "2.IH" [OF this] ids show ?case by auto
qed simp

lemma collect_sims_ids: "collect_sims [] ss = Inr d' \<Longrightarrow> fst ` set (sim_strings d') = rs_id ` set ss"
  using collect_sims_ids_gen [of "[]" ss d'] by (force simp: sim_strings_def image_image)

lemma collect_sims_rows:
  assumes "collect_sims d ss = Inr d'" "distinct (map fst d)"
  shows "set (sim_strings d') \<subseteq> set (sim_strings d) \<union> (\<lambda>s. (rs_id s, rs_iccid s, rs_imsi s)) ` set ss"
  using assms
proof (induction d ss rule: collect_sims.induct)
  case (2 d s ss)
  from "2.prems"(1) obtain i m where
    im: "get_iccid s = Inr i" "get_imsi s = Inr m"
    and rest: "collect_sims (dict_set (rs_id s) (i, m) d) ss = Inr d'"
    by (auto simp: bind_r_Inr_iff)
  have "set (sim_strings (dict_set (rs_id s) (i, m) d)) \<subseteq>
      insert (rs_id s, rs_iccid s, rs_imsi s) (set (sim_strings d))"
    unfolding sim_strings_def set_map set_dict_set [OF "2.prems"(2)]
    using get_iccid_str [OF im(1)] get_imsi_str [OF im(2)] by (simp add: image_mono subset_insertI2)
  with "2.IH" [OF im rest distinct_dict_set [OF "2.prems"(2)]] show ?case by auto
qed simp

lemma valid_rows:
  assumes "valid_sim_list ss" "(i, iccid, imsi) \<in> (\<lambda>s. (rs_id s, rs_iccid s, rs_imsi s)) ` set ss"
  shows "valid_sim \<lparr>rs_id = i, rs_iccid = iccid, rs_imsi = imsi\<rparr>"
  using assms by (auto simp: valid_sim_list_def list_all_iff valid_sim_def)

lemma sim_table_distinct:
  assumes "sim_table_ok ts"
  shows "distinct (somes (map s_iccid ts))" "distinct (somes (map s_imsi ts))"
  using assms
  by (induction ts) (force simp: sim_table_ok_def clashes_def set_somes split: option.splits)+

text \<open>The stored rows of a provider, as the second route reads them.\<close>

definition stored_sims :: "uuid \<Rightarrow> database \<Rightarrow> rest_sim list" where
  "stored_sims pid d =
     map (\<lambda>s. \<lparr>rs_id = s_id s, rs_iccid = s_iccid s, rs_imsi = s_imsi s\<rparr>)
       (filter (\<lambda>s. s_provider s = pid) (sims d))"

lemma stored_sims_valid:
  assumes "wf_db d" "valid_sim_list ss"
    "(\<lambda>s. (s_id s, s_iccid s, s_imsi s)) ` {s \<in> set (sims d). s_provider s = pid} \<subseteq>
       (\<lambda>s. (rs_id s, rs_iccid s, rs_imsi s)) ` set ss"
  shows "valid_sim_list (stored_sims pid d)"
proof -
  have "valid_sim x" if "x \<in> set (stored_sims pid d)" for x
  proof -
    from that obtain s where s: "s \<in> set (sims d)" "s_provider s = pid"
      "x = \<lparr>rs_id = s_id s, rs_iccid = s_iccid s, rs_imsi = s_imsi s\<rparr>"
      by (auto simp: stored_sims_def)
    with assms(3) have "(s_id s, s_iccid s, s_imsi s) \<in> (\<lambda>s. (rs_id s, rs_iccid s, rs_imsi s)) ` set ss"
      by blast
    from valid_rows [OF assms(2) this] s(3) show ?thesis by simp
  qed
  moreover have "sim_table_ok (filter (\<lambda>s. s_provider s = pid) (sims d))"
    using assms(1) by (simp add: wf_db_def sim_table_ok_filter)
  from sim_table_distinct [OF this] have "no_duplicate_ids (stored_sims pid d)"
    by (simp add: no_duplicate_ids_def stored_sims_def comp_def)
  ultimately show ?thesis by (simp add: valid_sim_list_def list_all_iff)
qed

lemma error_status_cases: "error_status e = 403 \<or> error_status e = 500"
  by (cases e) auto

lemma provider_register_cases:
  assumes "provider_register H b64 expiration now cred ss s = (status, s')"
  obtains tok sims_in modified where "session_token b64 cred = Inr tok" "valid_sim_list ss"
      "collect_sims [] ss = Inr sims_in"
      "register_provider H expiration now tok sims_in s = (Inr modified, s')"
      "status = (if modified then 201 else 204)"
  | "status \<noteq> 201" "status \<noteq> 204" "srv_db s' = srv_db s"
proof (cases "session_token b64 cred")
  case (Inl e)
  then have "rest_error_status e = 400 \<or> rest_error_status e = 500"
    by (auto simp: session_token_def split: option.splits sum.splits)
  with Inl assms that(2) show thesis by (auto simp: provider_register_def)
next
  case (Inr tok)
  show thesis
  proof (cases "valid_sim_list ss \<and> (\<exists>x. collect_sims [] ss = Inr x)")
    case False
    with Inr assms that(2) show thesis
      by (cases "collect_sims [] ss") (auto simp: provider_register_def split: if_splits)
  next
    case True
    then obtain sims_in where c: "valid_sim_list ss" "collect_sims [] ss = Inr sims_in" by blast
    obtain r t where r: "register_provider H expiration now tok sims_in s = (r, t)" by fastforce
    show thesis
    proof (cases r)
      case (Inl e)
      with assms Inr c r have "status = error_status e" "srv_db s' = srv_db s"
        by (auto simp: provider_register_def in_transaction_def)
      with error_status_cases [of e] that(2) show thesis by auto
    next
      case mod: (Inr m)
      with assms Inr c r have "status = (if m then 201 else 204)" "s' = t"
        by (auto simp: provider_register_def in_transaction_def)
      with that(1) Inr c r mod show thesis by blast
    qed
  qed
qed

section \<open>Properties\<close>

text \<open>
  Uploading SIM cards and reading them back agree. When the upload is answered with
  201 or 204, reading the list with the same token is answered with 200 and exactly the uploaded
  SIMs (for an id given twice, one of them is kept); when it is answered with anything
  else, the database has not changed. The list's validation is what makes the registration's
  preconditions hold.
\<close>

theorem put_then_get:
  assumes "wf_db (srv_db s)"
    "provider_register (moat_handler env) b64 expiration now cred ss s = (status, s')"
  shows "if status = 201 \<or> status = 204 then
      wf_db (srv_db s') \<and>
      (\<exists>got. provider_get_registered_sims (moat_handler env) b64 cred s' = ((200, got), s') \<and>
         set got \<subseteq> set ss \<and> rs_id ` set got = rs_id ` set ss)
    else srv_db s' = srv_db s"
  using assms(2)
proof (cases rule: provider_register_cases)
  case 2
  then show ?thesis by simp
next
  case (1 tok sims_in modified)
  note tok = 1(1) and valid = 1(2) and coll = 1(3) and reg = 1(4)
  note req = collect_sims_req_ok [OF valid coll]
  from moat_auth.register_provider_ok [OF reg] obtain pid where
    pid: "id_cache (srv_h s') tok = Some pid"
    and rs: "register_sims expiration now pid (sim_strings sims_in) (srv_db s) = Inr (modified, srv_db s')"
    by blast
  from register_sims_cases [OF assms(1) req, of expiration now pid] rs
  have wf: "wf_db (srv_db s')" and done_reg: "registered pid (sim_strings sims_in) (srv_db s')" by auto
  note rows = registered_rows [OF done_reg req]
  have sub: "set (sim_strings sims_in) \<subseteq> (\<lambda>s. (rs_id s, rs_iccid s, rs_imsi s)) ` set ss"
    using collect_sims_rows [OF coll] by (simp add: sim_strings_def)
  obtain p where p: "get_provider (srv_db s') pid = Some p" "p_id p = pid"
    using done_reg get_provider_SomeD unfolding registered_def by blast
  have ids: "get_sim_ids (moat_handler env) tok (srv_db s') (srv_h s') =
      (Inr (map (\<lambda>s. (s_id s, s_iccid s, s_imsi s)) (filter (\<lambda>s. s_provider s = pid) (sims (srv_db s')))),
       srv_h s')"
    using moat_auth.identity_known [OF pid] p by (simp add: get_sim_ids_def bnd_def)
  have "valid_sim_list (stored_sims pid (srv_db s'))"
    by (rule stored_sims_valid [OF wf valid]) (simp only: rows sub)
  then have get: "provider_get_registered_sims (moat_handler env) b64 cred s' =
      ((200, stored_sims pid (srv_db s')), s')"
    using tok ids
    by (simp add: provider_get_registered_sims_def lift_h_def stored_sims_def comp_def Let_def)
  have got: "set (stored_sims pid (srv_db s')) =
      (\<lambda>(i, a, b). \<lparr>rs_id = i, rs_iccid = a, rs_imsi = b\<rparr>) ` set (sim_strings sims_in)"
    unfolding rows [symmetric] stored_sims_def set_map set_filter image_image by simp
  have "set (stored_sims pid (srv_db s')) \<subseteq> set ss"
  proof
    fix x
    assume "x \<in> set (stored_sims pid (srv_db s'))"
    then have "(rs_id x, rs_iccid x, rs_imsi x) \<in> set (sim_strings sims_in)"
      unfolding got by auto
    with sub obtain y where "y \<in> set ss"
      "(rs_id x, rs_iccid x, rs_imsi x) = (rs_id y, rs_iccid y, rs_imsi y)" by blast
    moreover from this have "x = y" by (intro rest_sim.equality) simp_all
    ultimately show "x \<in> set ss" by simp
  qed
  moreover have "rs_id ` set (stored_sims pid (srv_db s')) = fst ` set (sim_strings sims_in)"
    unfolding got image_image by (rule image_cong) auto
  ultimately show ?thesis
    using 1(5) wf get collect_sims_ids [OF coll] by (cases modified) auto
qed

theorem put_then_get_witness:
  "\<exists>s'. provider_register (moat_handler demo_env) (\<lambda>c. Some [1]) None 9 ''AQ==''
       [\<lparr>rs_id = 1, rs_iccid = None, rs_imsi = Some ''001010000000001''\<rparr>] demo_srv = (201, s') \<and>
     (\<exists>got. provider_get_registered_sims (moat_handler demo_env) (\<lambda>c. Some [1]) ''AQ=='' s' =
       ((200, got), s') \<and> rs_id ` set got = {1})"
proof -
  let ?ss = "[\<lparr>rs_id = 1, rs_iccid = None, rs_imsi = Some ''001010000000001''\<rparr>]"
  have tok: "session_token (\<lambda>c. Some [1]) ''AQ=='' = Inr (Token [1])"
    by (simp add: session_token_def Token_init_def)
  have valid: "valid_sim_list ?ss"
    by (simp add: valid_sim_list_def valid_sim_def valid_number_def no_duplicate_ids_def digit_str_def
        only_digits_def str_encode_def)
  have coll: "collect_sims [] ?ss = Inr [(1, None, Some (Imsi ''001010000000001''))]"
    by (simp add: get_iccid_def get_imsi_def Imsi_init_def only_digits_def str_encode_def)
  obtain s' where run: "provider_register (moat_handler demo_env) (\<lambda>c. Some [1]) None 9 ''AQ==''
       ?ss demo_srv = (201, s')"
    unfolding provider_register_def tok using valid coll
    by (simp add: in_transaction_def register_provider_def bnd_lift_h demo_handler demo_srv_def
        sim_strings_def register_sims_def demo_db_def get_provider_def add_provider_def
        removed_sims_def existing_sims_def reconcile_sim_def is_expired_def delete_sim_def
        insert_sim_def Let_def)
  have "wf_db (srv_db demo_srv)" using demo_db_wf by (simp add: demo_srv_def)
  from put_then_get [OF this run] run show ?thesis by auto
qed

end
