(* ===== verification/Tunnel_Config.thy ===== *)
theory Tunnel_Config
  imports Tunnel_Auth
begin

text \<open>
  The tunnel server's configuration (\<^verbatim>\<open>config.py\<close>): ISO 8601 durations, the mapping of a TOML
  file and of environment variables to the fields of \<^verbatim>\<open>Config\<close>, the type check, and
  \<^verbatim>\<open>init_config\<close>. Strings are their UTF-8 bytes, so only ASCII white space is stripped. The
  TOML parser, the file system and the constructors of authorisation handlers are parameters.
\<close>

section \<open>Durations\<close>

definition is_digit_char :: "char \<Rightarrow> bool" where
  "is_digit_char c \<longleftrightarrow> 48 \<le> (of_char c :: nat) \<and> (of_char c :: nat) \<le> 57"

definition digit_value :: "char \<Rightarrow> nat" where
  "digit_value c = of_char c - 48"

definition dec_value :: "string \<Rightarrow> nat" where
  "dec_value s = foldl (\<lambda>n c. 10 * n + digit_value c) 0 s"

text \<open>
  One group \<^verbatim>\<open>(?:([0-9]+)U)?\<close> of the expression: digits and the unit's letter, or nothing. The
  digits must be followed by this letter, so the group matches in one way at most.
\<close>

definition parse_field :: "char \<Rightarrow> string \<Rightarrow> nat option \<times> string" where
  "parse_field u s =
     (let ds = takeWhile is_digit_char s; r = dropWhile is_digit_char s in
      if ds \<noteq> [] \<and> r \<noteq> [] \<and> hd r = u then (Some (dec_value ds), tl r) else (None, s))"

fun parse_fields :: "char list \<Rightarrow> string \<Rightarrow> nat option list \<times> string" where
  "parse_fields [] s = ([], s)"
| "parse_fields (u # us) s =
     (let (v, r) = parse_field u s; (vs, r') = parse_fields us r in (v # vs, r'))"

text \<open>A part introduced by a letter, as a whole optional; without it every group is unset.\<close>

definition parse_part :: "char \<Rightarrow> char list \<Rightarrow> string \<Rightarrow> nat option list \<times> string" where
  "parse_part c us s =
     (if s \<noteq> [] \<and> hd s = c then parse_fields us (tl s) else (map (\<lambda>u. None) us, s))"

datatype cfg_error =
    ConfigError | Cfg_AttributeError | Cfg_ValueError | Cfg_OverflowError | Cfg_HandlerError | Cfg_OSError

definition opt_int :: "nat option \<Rightarrow> int" where
  "opt_int n = (case n of None \<Rightarrow> 0 | Some k \<Rightarrow> int k)"

definition day :: int where "day = 86400000000"

text \<open>\<^verbatim>\<open>timedelta\<close> raises \<^verbatim>\<open>OverflowError\<close> beyond 999999999 days.\<close>

definition timedelta :: "int \<Rightarrow> cfg_error + time" where
  "timedelta us = (if us div day > 999999999 \<or> us div day < -999999999 then Inl Cfg_OverflowError else Inr us)"

definition match_duration :: "string \<Rightarrow> nat option list option" where
  "match_duration s =
     (let (date, r) = parse_part (CHR ''P'') ''YMWD'' s;
          (clock, r') = parse_part (CHR ''T'') ''HMS'' r in
      if r' = [] then Some (date @ clock) else None)"

definition duration_micros :: "nat option list \<Rightarrow> int" where
  "duration_micros gs =
     (opt_int (gs ! 3) + 365 * opt_int (gs ! 0) + 31 * opt_int (gs ! 1) + 7 * opt_int (gs ! 2)) * day +
     (opt_int (gs ! 4) * 3600 + opt_int (gs ! 5) * 60 + opt_int (gs ! 6)) * 1000000"

definition parse_iso8601_duration :: "string \<Rightarrow> cfg_error + time" where
  "parse_iso8601_duration value =
     (case match_duration value of
        None \<Rightarrow> Inl ConfigError
      | Some gs \<Rightarrow> timedelta (duration_micros gs))"

section \<open>Values and their types\<close>

datatype toml =
    T_str string | T_int int | T_bool bool | T_other | T_list "toml list"
  | T_table "(string \<times> toml) list"

datatype cfg_value = V_none | V_td time | V_toml toml | V_handler nat

datatype field_type =
    Opt_timedelta | Timedelta | Opt_int | Py_int | Py_bool | Py_str | Opt_str | Str_list | Handler

text \<open>
  \<^verbatim>\<open>isinstance\<close> with the field's declared type; \<^verbatim>\<open>bool\<close> is a subclass of \<^verbatim>\<open>int\<close>, and for
  \<^verbatim>\<open>list[str]\<close> only \<^verbatim>\<open>list\<close> is tested.
\<close>

fun is_instance :: "cfg_value \<Rightarrow> field_type \<Rightarrow> bool" where
  "is_instance V_none t \<longleftrightarrow> t = Opt_timedelta \<or> t = Opt_int \<or> t = Opt_str"
| "is_instance (V_td _) t \<longleftrightarrow> t = Opt_timedelta \<or> t = Timedelta"
| "is_instance (V_handler _) t \<longleftrightarrow> t = Handler"
| "is_instance (V_toml (T_str _)) t \<longleftrightarrow> t = Py_str \<or> t = Opt_str"
| "is_instance (V_toml (T_int _)) t \<longleftrightarrow> t = Py_int \<or> t = Opt_int"
| "is_instance (V_toml (T_bool _)) t \<longleftrightarrow> t = Py_bool \<or> t = Py_int \<or> t = Opt_int"
| "is_instance (V_toml (T_list _)) t \<longleftrightarrow> t = Str_list"
| "is_instance (V_toml T_other) t \<longleftrightarrow> False"
| "is_instance (V_toml (T_table _)) t \<longleftrightarrow> False"

definition minutes :: "int \<Rightarrow> cfg_value option" where
  "minutes n = Some (V_td (n * 60 * 1000000))"

text \<open>
  The fields of \<^verbatim>\<open>Config\<close> with their types and defaults. The default of \<^verbatim>\<open>TUNNEL_HOST\<close> is one
  string: the two literals in its list are adjacent, without a comma.
\<close>

definition config_fields :: "(string \<times> field_type \<times> cfg_value option) list" where
  "config_fields =
     [(''AUTHMSG_TIMEOUT'', Opt_timedelta, minutes 10),
      (''PROVIDER_RESPONSE_TIMEOUT'', Opt_timedelta, minutes 10),
      (''PROVIDER_EXPIRATION'', Opt_timedelta, minutes 10),
      (''PROBE_REQUEST_TIMEOUT'', Opt_timedelta, minutes 10),
      (''TCP_KEEPIDLE'', Opt_timedelta, minutes 10),
      (''TCP_KEEPINTVL'', Opt_timedelta, minutes 10),
      (''TCP_KEEPCNT'', Opt_int, Some (V_toml (T_int 10))),
      (''TCP_KEEPALIVE'', Py_bool, Some (V_toml (T_bool True))),
      (''MAX_QUEUE_SIZE'', Py_int, Some (V_toml (T_int 10))),
      (''MAX_PROBE_WAITTIME'', Opt_timedelta, minutes 5),
      (''GC_INTERVAL'', Timedelta, minutes 1),
      (''QUEUE_GC_INTERVAL'', Timedelta, minutes 1),
      (''DB_HOST'', Py_str, Some (V_toml (T_str ''localhost''))),
      (''DB_PORT'', Py_int, Some (V_toml (T_int 5432))),
      (''DB_USER'', Py_str, None),
      (''DB_PASSWORD'', Py_str, None),
      (''DB_NAME'', Py_str, None),
      (''TUNNEL_HOST'', Str_list, Some (V_toml (T_list [T_str ''127.0.0.1::1'']))),
      (''TUNNEL_PORT'', Py_int, Some (V_toml (T_int 6666))),
      (''TUNNEL_CERT'', Py_str, Some (V_toml (T_str ''ssl/server.crt''))),
      (''TUNNEL_CERT_KEY'', Py_str, Some (V_toml (T_str ''ssl/server.key''))),
      (''API_HOST'', Py_str, Some (V_toml (T_str ''localhost''))),
      (''API_PORT'', Py_int, Some (V_toml (T_int 8000))),
      (''API_DOCUMENTATION'', Py_bool, Some (V_toml (T_bool False))),
      (''LOGGING_CONF_FILE'', Opt_str, Some V_none),
      (''AUTH_HANDLER'', Handler, None)]"

type_synonym conf = "(string \<times> cfg_value) list"
type_synonym mapper = "toml \<Rightarrow> cfg_error + cfg_value"

section \<open>Mappers\<close>

definition is_space :: "char \<Rightarrow> bool" where
  "is_space c \<longleftrightarrow> (let n = (of_char c :: nat) in n = 32 \<or> (9 \<le> n \<and> n \<le> 13) \<or> (28 \<le> n \<and> n \<le> 31))"

definition strip :: "string \<Rightarrow> string" where
  "strip s = rev (dropWhile is_space (rev (dropWhile is_space s)))"

definition raw :: mapper where
  "raw v = Inr (V_toml v)"

definition opt_str :: mapper where
  "opt_str v = (if v = T_str '''' then Inr V_none else Inr (V_toml v))"

fun td :: mapper where
  "td (T_str s) = bind_r (parse_iso8601_duration (strip s)) (\<lambda>t. Inr (V_td t))"
| "td _ = Inl Cfg_AttributeError"

definition opt_td :: mapper where
  "opt_td v = (if v = T_str '''' then Inr V_none else td v)"

fun str_list :: mapper where
  "str_list (T_list xs) = Inr (V_toml (T_list xs))"
| "str_list v = Inr (V_toml (T_list [v]))"

definition keepcnt :: mapper where
  "keepcnt v = (if v = T_str '''' then Inr V_none else Inr (V_toml v))"

text \<open>
  The handler constructors: \<open>hp_moat\<close> is \<^verbatim>\<open>MoatManagementAuth(cfg)\<close>, \<open>hp_plugin\<close> the import and
  instantiation of a class named \<open>module:class\<close>; \<open>None\<close> when they raise.
\<close>

record handler_loader =
  hp_moat :: "toml \<Rightarrow> nat option"
  hp_plugin :: "string \<Rightarrow> toml \<Rightarrow> nat option"

definition load_handler :: "handler_loader \<Rightarrow> toml \<Rightarrow> bool \<Rightarrow> mapper" where
  "load_handler hl cfg allow_plugins cls =
     (case (if cls = T_str ''moat-management'' then hp_moat hl cfg
            else if \<not> allow_plugins then None
            else (case cls of T_str s \<Rightarrow> hp_plugin hl s cfg | _ \<Rightarrow> None)) of
        Some h \<Rightarrow> Inr (V_handler h)
      | None \<Rightarrow>
          Inl (if cls = T_str ''moat-management'' \<or> allow_plugins then Cfg_HandlerError else ConfigError))"

section \<open>The TOML file\<close>

text \<open>\<^verbatim>\<open>_set\<close>: nothing for an absent value.\<close>

definition set_field :: "string \<Rightarrow> toml option \<Rightarrow> mapper \<Rightarrow> conf \<Rightarrow> cfg_error + conf" where
  "set_field name value f d =
     (case value of
        None \<Rightarrow> Inr d
      | Some v \<Rightarrow> bind_r (f v) (\<lambda>x. Inr (dict_set name x d)))"

fun get_key :: "string \<Rightarrow> toml \<Rightarrow> toml option" where
  "get_key k (T_table kvs) = map_of kvs k"
| "get_key k _ = None"

definition is_table :: "toml option \<Rightarrow> bool" where
  "is_table t \<longleftrightarrow> (case t of Some (T_table _) \<Rightarrow> True | _ \<Rightarrow> False)"

text \<open>The calls of \<^verbatim>\<open>_set\<close>, in their order: table, key, field and mapper.\<close>

definition toml_settings :: "handler_loader \<Rightarrow> toml \<Rightarrow> bool \<Rightarrow> (string \<times> string \<times> string \<times> mapper) list" where
  "toml_settings hl cfg allowed =
     [(''db'', ''host'', ''DB_HOST'', raw),
      (''db'', ''port'', ''DB_PORT'', raw),
      (''db'', ''user'', ''DB_USER'', raw),
      (''db'', ''name'', ''DB_NAME'', raw),
      (''db'', ''password'', ''DB_PASSWORD'', raw),
      (''timeouts'', ''authmsg'', ''AUTHMSG_TIMEOUT'', opt_td),
      (''timeouts'', ''provider_response'', ''PROVIDER_RESPONSE_TIMEOUT'', opt_td),
      (''timeouts'', ''provider_expiration'', ''PROVIDER_EXPIRATION'', opt_td),
      (''timeouts'', ''probe_request'', ''PROBE_REQUEST_TIMEOUT'', opt_td),
      (''timeouts'', ''keepidle'', ''TCP_KEEPIDLE'', opt_td),
      (''timeouts'', ''keepintvl'', ''TCP_KEEPINTVL'', opt_td),
      (''timeouts'', ''keepcnt'', ''TCP_KEEPCNT'', keepcnt),
      (''timeouts'', ''keepalive'', ''TCP_KEEPALIVE'', raw),
      (''timeouts'', ''max_probe_wait'', ''MAX_PROBE_WAITTIME'', opt_td),
      (''limits'', ''max_queue_size'', ''MAX_QUEUE_SIZE'', raw),
      (''gc'', ''interval'', ''GC_INTERVAL'', td),
      (''gc'', ''queues_interval'', ''QUEUE_GC_INTERVAL'', td),
      (''auth'', ''handler'', ''AUTH_HANDLER'', load_handler hl cfg allowed),
      (''tunnel'', ''host'', ''TUNNEL_HOST'', str_list),
      (''tunnel'', ''port'', ''TUNNEL_PORT'', raw),
      (''tunnel'', ''certificate'', ''TUNNEL_CERT'', raw),
      (''tunnel'', ''cert_key'', ''TUNNEL_CERT_key'', raw),
      (''logging'', ''config_file'', ''LOGGING_CONF_FILE'', opt_str)]"

fun apply_settings ::
  "toml \<Rightarrow> (string \<times> string \<times> string \<times> mapper) list \<Rightarrow> conf \<Rightarrow> cfg_error + conf" where
  "apply_settings cfg [] d = Inr d"
| "apply_settings cfg ((table, key, name, f) # rest) d =
     (let t = get_key table cfg in
      bind_r (if is_table t then set_field name (get_key key (the t)) f d else Inr d)
        (apply_settings cfg rest))"

text \<open>\<^verbatim>\<open>_check_config\<close> looks at the declared fields only, and at no value that is \<^verbatim>\<open>None\<close>.\<close>

definition check_config :: "conf \<Rightarrow> cfg_error + conf" where
  "check_config d =
     (if list_all (\<lambda>(name, t, _). case map_of d name of
            None \<Rightarrow> True | Some v \<Rightarrow> v = V_none \<or> is_instance v t) config_fields
      then Inr d else Inl ConfigError)"

definition load_toml_config :: "handler_loader \<Rightarrow> toml \<Rightarrow> bool \<Rightarrow> cfg_error + conf" where
  "load_toml_config hl cfg allowed =
     bind_r (apply_settings cfg (toml_settings hl cfg allowed) []) check_config"

section \<open>The environment\<close>

text \<open>\<^verbatim>\<open>int(str)\<close>: white space around, a sign, digits with single underscores between them.\<close>

fun int_digits :: "string \<Rightarrow> bool" where
  "int_digits [] = False"
| "int_digits [c] = is_digit_char c"
| "int_digits (c # d # s) =
     (is_digit_char c \<and> (if d = CHR ''_'' then int_digits s else int_digits (d # s)))"

definition py_int :: "string \<Rightarrow> cfg_error + int" where
  "py_int str =
     (let s = strip str;
          neg = (s \<noteq> [] \<and> hd s = CHR ''-'');
          s = (if s \<noteq> [] \<and> (hd s = CHR ''-'' \<or> hd s = CHR ''+'') then tl s else s) in
      if \<not> int_digits s then Inl Cfg_ValueError
      else let n = int (dec_value (filter is_digit_char s)) in Inr (if neg then - n else n))"

fun env_value :: "handler_loader \<Rightarrow> toml \<Rightarrow> bool \<Rightarrow> field_type \<Rightarrow> string \<Rightarrow> cfg_error + cfg_value" where
  "env_value hl cfg allowed Opt_timedelta val = opt_td (T_str val)"
| "env_value hl cfg allowed Opt_str val = opt_str (T_str val)"
| "env_value hl cfg allowed Timedelta val = td (T_str val)"
| "env_value hl cfg allowed Str_list val = str_list (T_str val)"
| "env_value hl cfg allowed Opt_int val =
     (if val \<noteq> '''' then bind_r (py_int val) (\<lambda>n. Inr (V_toml (T_int n))) else Inr V_none)"
| "env_value hl cfg allowed Handler val = load_handler hl cfg allowed (T_str val)"
| "env_value hl cfg allowed Py_int val = bind_r (py_int val) (\<lambda>n. Inr (V_toml (T_int n)))"
| "env_value hl cfg allowed Py_bool val = Inr (V_toml (T_bool (val \<noteq> '''')))"
| "env_value hl cfg allowed Py_str val = Inr (V_toml (T_str val))"

fun env_fields ::
  "handler_loader \<Rightarrow> toml \<Rightarrow> bool \<Rightarrow> (string \<Rightarrow> string option) \<Rightarrow>
    (string \<times> field_type \<times> cfg_value option) list \<Rightarrow> conf \<Rightarrow> cfg_error + conf" where
  "env_fields hl cfg allowed environ [] d = Inr d"
| "env_fields hl cfg allowed environ ((name, t, _) # fs) d =
     bind_r (case environ name of
               None \<Rightarrow> Inr d
             | Some val \<Rightarrow> bind_r (env_value hl cfg allowed t val) (\<lambda>x. Inr (dict_set name x d)))
       (env_fields hl cfg allowed environ fs)"

definition load_env_config ::
  "handler_loader \<Rightarrow> toml \<Rightarrow> bool \<Rightarrow> (string \<Rightarrow> string option) \<Rightarrow> cfg_error + conf" where
  "load_env_config hl cfg allowed environ =
     bind_r (env_fields hl cfg allowed environ config_fields []) check_config"

section \<open>The configuration\<close>

text \<open>
  \<^verbatim>\<open>Config(**conf)\<close>: an unknown keyword or a missing field without default is a
  \<^verbatim>\<open>TypeError\<close>, which \<^verbatim>\<open>init_config\<close> turns into \<^verbatim>\<open>ConfigError\<close>.
\<close>

definition make_config :: "conf \<Rightarrow> cfg_error + conf" where
  "make_config d =
     (if list_all (\<lambda>(k, v). k \<in> fst ` set config_fields) d \<and>
         list_all (\<lambda>(name, t, default). map_of d name \<noteq> None \<or> default \<noteq> None) config_fields
      then Inr (map (\<lambda>(name, t, default).
             (name, case map_of d name of Some v \<Rightarrow> v | None \<Rightarrow> the default)) config_fields)
      else Inl ConfigError)"

text \<open>The command line's arguments that are set.\<close>

record cmd_args =
  ca_host :: "toml option"
  ca_port :: "toml option"
  ca_cert :: "toml option"
  ca_cert_key :: "toml option"

definition cmd_dict :: "cmd_args \<Rightarrow> conf" where
  "cmd_dict a =
     concat (map (\<lambda>(name, v). case v of None \<Rightarrow> [] | Some x \<Rightarrow> [(name, V_toml x)])
       [(''TUNNEL_HOST'', ca_host a), (''TUNNEL_PORT'', ca_port a),
        (''TUNNEL_CERT'', ca_cert a), (''TUNNEL_CERT_KEY'', ca_cert_key a)])"

definition cmd_settings :: "cmd_args option \<Rightarrow> conf \<Rightarrow> conf" where
  "cmd_settings args d = (case args of None \<Rightarrow> d | Some a \<Rightarrow> dict_update d (cmd_dict a))"

text \<open>
  \<^verbatim>\<open>init_config\<close>: \<open>load\<close> reads and parses a file, \<open>None\<close> when that raises. The state is
  \<^verbatim>\<open>_CONFIG\<close>.
\<close>

definition init_config ::
  "handler_loader \<Rightarrow> (string \<Rightarrow> string option) \<Rightarrow> (string \<Rightarrow> toml option) \<Rightarrow>
    string option \<Rightarrow> bool \<Rightarrow> cmd_args option \<Rightarrow> conf option \<Rightarrow> (cfg_error + conf) \<times> conf option" where
  "init_config hl environ load path allowed args current =
     (if current \<noteq> None then (Inl ConfigError, current)
      else
        (case (case path of Some p \<Rightarrow> Some p | None \<Rightarrow> environ ''MOAT_SIMTUNNEL_CONFIG'') of
           None \<Rightarrow> (Inl ConfigError, current)
         | Some p \<Rightarrow>
             (case load p of
                None \<Rightarrow> (Inl Cfg_OSError, current)
              | Some cfg \<Rightarrow>
                  (case bind_r (load_toml_config hl cfg allowed) (\<lambda>conf.
                        bind_r (load_env_config hl cfg allowed environ) (\<lambda>env.
                          make_config (cmd_settings args (dict_update conf env)))) of
                     Inl e \<Rightarrow> (Inl e, current)
                   | Inr c \<Rightarrow> (Inr c, Some c)))))"

definition get_config ::
  "handler_loader \<Rightarrow> (string \<Rightarrow> string option) \<Rightarrow> (string \<Rightarrow> toml option) \<Rightarrow>
    conf option \<Rightarrow> (cfg_error + conf) \<times> conf option" where
  "get_config hl environ load current =
     (case current of
        None \<Rightarrow> init_config hl environ load None (environ ''ALLOW_THIRD_PARTY_MODULES'' \<noteq> None) None None
      | Some c \<Rightarrow> (Inr c, current))"

section \<open>Printing durations\<close>

fun show_dec :: "nat \<Rightarrow> string" where
  "show_dec n =
     (if n < 10 then [char_of (48 + n)] else show_dec (n div 10) @ [char_of (48 + n mod 10)])"

declare show_dec.simps [simp del]

lemma digit_char:
  assumes "k < 10"
  shows "is_digit_char (char_of (48 + k))" "digit_value (char_of (48 + k)) = k"
  using assms by (simp_all add: is_digit_char_def digit_value_def)

lemma show_dec_digits: "show_dec n \<noteq> [] \<and> list_all is_digit_char (show_dec n)"
proof (induction n rule: show_dec.induct)
  case (1 n)
  then show ?case
    using digit_char(1) [of "n mod 10"] digit_char(1) [of n] by (subst (1 2) show_dec.simps) auto
qed

lemma dec_value_show [simp]: "dec_value (show_dec n) = n"
proof (induction n rule: show_dec.induct)
  case (1 n)
  then show ?case
    using digit_char(2) [of "n mod 10"] digit_char(2) [of n]
    by (subst show_dec.simps) (auto simp: dec_value_def)
qed

fun show_fields :: "char list \<Rightarrow> nat option list \<Rightarrow> string" where
  "show_fields (u # us) (v # vs) =
     (case v of None \<Rightarrow> [] | Some n \<Rightarrow> show_dec n @ [u]) @ show_fields us vs"
| "show_fields _ _ = []"

definition show_duration :: "nat option list \<Rightarrow> string" where
  "show_duration gs =
     ''P'' @ show_fields ''YMWD'' (take 4 gs) @ ''T'' @ show_fields ''HMS'' (drop 4 gs)"

lemma takeWhile_show:
  assumes "\<not> is_digit_char u"
  shows "takeWhile is_digit_char (show_dec n @ u # r) = show_dec n"
    "dropWhile is_digit_char (show_dec n @ u # r) = u # r"
  using show_dec_digits [of n] assms
  by (simp_all add: takeWhile_append2 dropWhile_append2 list_all_iff)

text \<open>What follows the digits at the start of a printed part: one of its letters, or the rest.\<close>

definition next_letter :: "string \<Rightarrow> char option" where
  "next_letter s = (let ds = takeWhile is_digit_char s; r = dropWhile is_digit_char s in
     if ds \<noteq> [] \<and> r \<noteq> [] then Some (hd r) else None)"

lemma parse_field_next: "parse_field u s = (None, s) \<longleftrightarrow> next_letter s \<noteq> Some u"
proof -
  have "tl (dropWhile is_digit_char s) \<noteq> s" if "dropWhile is_digit_char s \<noteq> []"
    using that length_dropWhile_le [of is_digit_char s]
    by (metis Suc_n_not_le_n length_Cons list.exhaust_sel)
  then show ?thesis by (auto simp: parse_field_def next_letter_def Let_def)
qed

lemma next_letter_show:
  assumes "length us = length vs" "list_all (\<lambda>u. \<not> is_digit_char u) us"
    "next_letter rest = None"
  shows "next_letter (show_fields us vs @ rest) = None \<or>
    (\<exists>u \<in> set us. next_letter (show_fields us vs @ rest) = Some u)"
  using assms
proof (induction us vs rule: show_fields.induct)
  case (1 u us v vs)
  then show ?case
  proof (cases v)
    case (Some n)
    with "1.prems"(2) show ?thesis
      using takeWhile_show [of u n "show_fields us vs @ rest"] show_dec_digits [of n]
      by (simp add: next_letter_def Let_def)
  qed auto
qed auto

lemma parse_show_fields:
  assumes "length us = length vs" "distinct us" "list_all (\<lambda>u. \<not> is_digit_char u) us"
    "next_letter rest = None"
  shows "parse_fields us (show_fields us vs @ rest) = (vs, rest)"
  using assms
proof (induction us vs rule: show_fields.induct)
  case (1 u us v vs)
  note IH = "1.IH"
  show ?case
  proof (cases v)
    case None
    have "next_letter (show_fields us vs @ rest) \<noteq> Some u"
      using next_letter_show [of us vs rest] "1.prems" by auto
    with None IH "1.prems" parse_field_next [of u "show_fields us vs @ rest"] show ?thesis by simp
  next
    case (Some n)
    have "parse_field u (show_dec n @ u # show_fields us vs @ rest) = (Some n, show_fields us vs @ rest)"
      using takeWhile_show [of u n "show_fields us vs @ rest"] "1.prems"(3) show_dec_digits [of n]
      by (simp add: parse_field_def Let_def)
    with Some IH "1.prems" show ?thesis by simp
  qed
qed auto

lemma letters_not_digits [simp]:
  "\<not> is_digit_char (CHR ''Y'')" "\<not> is_digit_char (CHR ''M'')" "\<not> is_digit_char (CHR ''W'')"
  "\<not> is_digit_char (CHR ''D'')" "\<not> is_digit_char (CHR ''H'')" "\<not> is_digit_char (CHR ''S'')"
  "\<not> is_digit_char (CHR ''T'')"
  by (simp_all add: is_digit_char_def)

section \<open>What the loaders store\<close>

definition typed :: "conf \<Rightarrow> bool" where
  "typed d \<longleftrightarrow> (\<forall>(name, t, dflt) \<in> set config_fields. \<forall>v. map_of d name = Some v \<longrightarrow> is_instance v t)"

text \<open>Only the mappers for optional fields yield \<^verbatim>\<open>None\<close>.\<close>

definition mapper_ok :: "string \<Rightarrow> mapper \<Rightarrow> bool" where
  "mapper_ok name f \<longleftrightarrow> (\<forall>v t dflt. (name, t, dflt) \<in> set config_fields \<longrightarrow> f v = Inr V_none \<longrightarrow> is_instance V_none t)"

lemma mappers_not_none: "raw v \<noteq> Inr V_none" "td v \<noteq> Inr V_none" "str_list v \<noteq> Inr V_none"
  "load_handler hl cfg a v \<noteq> Inr V_none"
proof -
  show "td v \<noteq> Inr V_none" by (cases v) (auto simp: bind_r_Inr_iff)
  show "str_list v \<noteq> Inr V_none" by (cases v) auto
qed (auto simp: raw_def load_handler_def split: option.splits)

definition none_ok :: "conf \<Rightarrow> bool" where
  "none_ok d \<longleftrightarrow> (\<forall>(name, t, dflt) \<in> set config_fields. map_of d name = Some V_none \<longrightarrow> is_instance V_none t)"

lemma set_field_none_ok:
  assumes "set_field name v f d = Inr d'" "none_ok d" "mapper_ok name f"
  shows "none_ok d'"
proof (cases v)
  case None
  with assms show ?thesis by (simp add: set_field_def)
next
  case (Some x)
  with assms(1) obtain y where y: "f x = Inr y" "d' = dict_set name y d"
    by (auto simp: set_field_def bind_r_Inr_iff)
  have "is_instance V_none t"
    if "(n, t, dflt) \<in> set config_fields" "map_of d' n = Some V_none" for n t dflt
  proof (cases "n = name")
    case True
    with that y have "f x = Inr V_none" by simp
    with assms(3) that(1) True show ?thesis unfolding mapper_ok_def by blast
  next
    case False
    with that y have "map_of d n = Some V_none" by simp
    with assms(2) that(1) show ?thesis unfolding none_ok_def by blast
  qed
  then show ?thesis unfolding none_ok_def by blast
qed

lemma apply_settings_none_ok:
  assumes "apply_settings cfg ss d = Inr d'" "none_ok d"
    "\<forall>(tab, key, name, f) \<in> set ss. mapper_ok name f"
  shows "none_ok d'"
  using assms
proof (induction ss arbitrary: d)
  case (Cons s ss)
  obtain tab key name f where s: "s = (tab, key, name, f)" by (cases s)
  let ?t = "get_key tab cfg"
  from Cons.prems(1) s obtain d1 where
    d1: "(if is_table ?t then set_field name (get_key key (the ?t)) f d else Inr d) = Inr d1"
    "apply_settings cfg ss d1 = Inr d'"
    by (auto simp: Let_def bind_r_Inr_iff)
  have "none_ok d1"
    using d1(1) Cons.prems(2,3) s set_field_none_ok [of name "get_key key (the ?t)" f d d1]
    by (auto split: if_splits)
  with Cons.IH d1(2) Cons.prems(3) show ?case by simp
qed simp

lemma check_config_typed:
  assumes "check_config d = Inr d'" "none_ok d"
  shows "d' = d" "typed d"
proof -
  show "d' = d" using assms(1) by (simp add: check_config_def split: if_splits)
  have all: "list_all (\<lambda>(name, t, _). case map_of d name of
      None \<Rightarrow> True | Some v \<Rightarrow> v = V_none \<or> is_instance v t) config_fields"
    using assms(1) by (simp add: check_config_def split: if_splits)
  have "is_instance v t" if "(n, t, dflt) \<in> set config_fields" "map_of d n = Some v" for n t dflt v
  proof -
    have "v = V_none \<or> is_instance v t" using all that by (fastforce simp: list_all_iff)
    then show ?thesis using assms(2) that by (auto simp: none_ok_def)
  qed
  then show "typed d" unfolding typed_def by blast
qed

lemma config_fields_distinct: "distinct (map fst config_fields)"
  by (simp add: config_fields_def)

lemma config_field_unique:
  "(n, t, d) \<in> set config_fields \<Longrightarrow> (n, t', d') \<in> set config_fields \<Longrightarrow> t = t' \<and> d = d'"
  using eq_key_imp_eq_value [OF config_fields_distinct, of n "(t, d)" "(t', d')"] by simp

lemma mapper_ok_never: "(\<And>v. f v \<noteq> Inr V_none) \<Longrightarrow> mapper_ok name f"
  by (simp add: mapper_ok_def)

lemma mapper_ok_optional:
  assumes "(name, t, d) \<in> set config_fields" "is_instance V_none t"
  shows "mapper_ok name f"
  using assms config_field_unique unfolding mapper_ok_def by blast

lemma optional_fields:
  "(''AUTHMSG_TIMEOUT'', Opt_timedelta, minutes 10) \<in> set config_fields"
  "(''PROVIDER_RESPONSE_TIMEOUT'', Opt_timedelta, minutes 10) \<in> set config_fields"
  "(''PROVIDER_EXPIRATION'', Opt_timedelta, minutes 10) \<in> set config_fields"
  "(''PROBE_REQUEST_TIMEOUT'', Opt_timedelta, minutes 10) \<in> set config_fields"
  "(''TCP_KEEPIDLE'', Opt_timedelta, minutes 10) \<in> set config_fields"
  "(''TCP_KEEPINTVL'', Opt_timedelta, minutes 10) \<in> set config_fields"
  "(''TCP_KEEPCNT'', Opt_int, Some (V_toml (T_int 10))) \<in> set config_fields"
  "(''MAX_PROBE_WAITTIME'', Opt_timedelta, minutes 5) \<in> set config_fields"
  "(''LOGGING_CONF_FILE'', Opt_str, Some V_none) \<in> set config_fields"
  unfolding config_fields_def
  by (rule list.set_intros(1) | rule list.set_intros(2))+

lemma toml_settings_ok: "\<forall>(tab, key, name, f) \<in> set (toml_settings hl cfg allowed). mapper_ok name f"
  using optional_fields [THEN mapper_ok_optional]
  by (simp add: toml_settings_def mapper_ok_never mappers_not_none)

lemma none_ok_Nil: "none_ok []"
  by (simp add: none_ok_def)

lemma load_toml_typed: "load_toml_config hl cfg allowed = Inr d \<Longrightarrow> typed d"
  using apply_settings_none_ok [OF _ none_ok_Nil toml_settings_ok] check_config_typed
  unfolding load_toml_config_def bind_r_Inr_iff by blast

lemma env_value_none: "env_value hl cfg allowed t val = Inr V_none \<Longrightarrow> is_instance V_none t"
  using mappers_not_none
  by (cases t) (auto simp: bind_r_Inr_iff split: if_splits)

lemma env_fields_none_ok:
  assumes "env_fields hl cfg allowed environ fs d = Inr d'" "none_ok d"
    "set fs \<subseteq> set config_fields" "distinct (map fst d)"
  shows "none_ok d' \<and> distinct (map fst d')"
  using assms
proof (induction fs arbitrary: d)
  case (Cons f fs)
  obtain name t dflt where f: "f = (name, t, dflt)" by (cases f)
  from Cons.prems(1) f obtain d1 where
    d1: "(case environ name of None \<Rightarrow> Inr d
      | Some val \<Rightarrow> bind_r (env_value hl cfg allowed t val) (\<lambda>x. Inr (dict_set name x d))) = Inr d1"
    "env_fields hl cfg allowed environ fs d1 = Inr d'"
    by (auto simp: bind_r_Inr_iff)
  have "none_ok d1 \<and> distinct (map fst d1)"
  proof (cases "environ name")
    case None
    with d1(1) Cons.prems(2,4) show ?thesis by simp
  next
    case (Some val)
    with d1(1) obtain x where x: "env_value hl cfg allowed t val = Inr x" "d1 = dict_set name x d"
      by (auto simp: bind_r_Inr_iff)
    have "is_instance V_none t2"
      if "(n, t2, dd) \<in> set config_fields" "map_of d1 n = Some V_none" for n t2 dd
    proof (cases "n = name")
      case True
      with that x have "env_value hl cfg allowed t val = Inr V_none" by simp
      moreover have "t2 = t" using config_field_unique [of n t2 dd t dflt] that(1) True f Cons.prems(3) by simp
      ultimately show ?thesis using env_value_none by blast
    next
      case False
      with that x have "map_of d n = Some V_none" by simp
      with Cons.prems(2) that(1) show ?thesis unfolding none_ok_def by blast
    qed
    then have "none_ok d1" unfolding none_ok_def by blast
    with x(2) Cons.prems(4) show ?thesis by (simp add: distinct_dict_set)
  qed
  with Cons.IH d1(2) Cons.prems(3) show ?case by simp
qed simp

lemma load_env_typed:
  assumes "load_env_config hl cfg allowed environ = Inr d"
  shows "typed d \<and> distinct (map fst d)"
proof -
  from assms obtain d1 where
    d1: "env_fields hl cfg allowed environ config_fields [] = Inr d1" "check_config d1 = Inr d"
    by (auto simp: load_env_config_def bind_r_Inr_iff)
  from env_fields_none_ok [OF d1(1) none_ok_Nil] have "none_ok d1" "distinct (map fst d1)" by simp_all
  with check_config_typed [OF d1(2)] show ?thesis by simp
qed

lemma dict_update_typed:
  assumes "typed d" "typed e" "distinct (map fst e)"
  shows "typed (dict_update d e)"
proof -
  have "is_instance v t"
    if "(n, t, dd) \<in> set config_fields" "map_of (dict_update d e) n = Some v" for n t dd v
  proof -
    have "map_of e n = Some v \<or> map_of d n = Some v"
      using that(2) by (auto simp: map_of_dict_update [OF assms(3)] map_add_Some_iff)
    with assms(1,2) that(1) show ?thesis unfolding typed_def by blast
  qed
  then show ?thesis unfolding typed_def by blast
qed

lemma cmd_dict_distinct: "distinct (map fst (cmd_dict a))"
  by (simp add: cmd_dict_def split: option.split)

lemma defaults_typed: "(n, t, Some v) \<in> set config_fields \<Longrightarrow> is_instance v t"
  by (auto simp: config_fields_def minutes_def)

lemma make_config_typed:
  assumes "make_config d = Inr c" "typed d"
  shows "map fst c = map fst config_fields \<and>
    list_all2 (\<lambda>(n, v) (m, t, dflt). n = m \<and> is_instance v t) c config_fields"
proof -
  let ?val = "\<lambda>(name, t, default).
    (name, case map_of d name of Some v \<Rightarrow> v | None \<Rightarrow> the (default :: cfg_value option))"
  have c: "c = map ?val config_fields"
    and req: "\<And>n t dflt. (n, t, dflt) \<in> set config_fields \<Longrightarrow> map_of d n \<noteq> None \<or> dflt \<noteq> None"
    using assms(1) by (auto simp: make_config_def list_all_iff split: if_splits)
  have one: "is_instance (case map_of d n of Some v \<Rightarrow> v | None \<Rightarrow> the dflt) t"
    if "(n, t, dflt) \<in> set config_fields" for n t and dflt :: "cfg_value option"
  proof (cases "map_of d n")
    case None
    with req [OF that] obtain v where "dflt = Some v" by auto
    with None defaults_typed that show ?thesis by auto
  next
    case (Some v)
    with assms(2) that show ?thesis by (fastforce simp: typed_def)
  qed
  have "list_all2 (\<lambda>(n, v) (m, t, dflt). n = m \<and> is_instance v t) (map ?val fs) fs"
    if "set fs \<subseteq> set config_fields" for fs
    using that one by (induction fs) auto
  then show ?thesis unfolding c by auto
qed

lemma init_config_cases:
  assumes "init_config hl environ load path allowed args current = (Inr c, st)"
  obtains cfg conf env where "current = None" "st = Some c"
    "load_toml_config hl cfg allowed = Inr conf" "load_env_config hl cfg allowed environ = Inr env"
    "make_config (cmd_settings args (dict_update conf env)) = Inr c"
    "\<exists>p. load p = Some cfg \<and> (path = Some p \<or> path = None \<and> environ ''MOAT_SIMTUNNEL_CONFIG'' = Some p)"
proof -
  have none: "current = None" using assms by (simp add: init_config_def split: if_splits)
  obtain p cfg where p: "(case path of Some p \<Rightarrow> Some p | None \<Rightarrow> environ ''MOAT_SIMTUNNEL_CONFIG'') = Some p"
    "load p = Some cfg"
    using assms none by (auto simp: init_config_def split: option.splits)
  from assms none p obtain conf env where r:
    "load_toml_config hl cfg allowed = Inr conf" "load_env_config hl cfg allowed environ = Inr env"
    "make_config (cmd_settings args (dict_update conf env)) = Inr c" "st = Some c"
    by (auto simp: init_config_def bind_r_Inr_iff split: sum.splits)
  with none p that show thesis by (auto split: option.splits)
qed

text \<open>A setting that is present leaves its key in the dictionary.\<close>

lemma keys_dict_update: "fst ` set (dict_update d e) = fst ` set d \<union> fst ` set e"
proof (induction e arbitrary: d)
  case (Cons x e)
  have "fst ` set (dict_set k v d) = insert k (fst ` set d)" for k v
    using arg_cong [OF map_fst_dict_set [of k v d], of set] by (auto split: if_splits)
  with Cons.IH show ?case by (cases x) (auto simp: dict_update_def)
qed (simp add: dict_update_def)

lemma keys_dict_set: "fst ` set (dict_set k v d) = insert k (fst ` set d)"
  using arg_cong [OF map_fst_dict_set [of k v d], of set] by (auto split: if_splits)

lemma apply_settings_keys:
  assumes "apply_settings cfg ss d = Inr d'"
  shows "fst ` set d \<subseteq> fst ` set d'"
    "(tab, key, name, f) \<in> set ss \<Longrightarrow> is_table (get_key tab cfg) \<Longrightarrow>
      get_key key (the (get_key tab cfg)) \<noteq> None \<Longrightarrow> name \<in> fst ` set d'"
proof -
  have "fst ` set d \<subseteq> fst ` set d' \<and> ((tab, key, name, f) \<in> set ss \<longrightarrow> is_table (get_key tab cfg) \<longrightarrow>
      get_key key (the (get_key tab cfg)) \<noteq> None \<longrightarrow> name \<in> fst ` set d')"
    using assms
  proof (induction ss arbitrary: d)
    case (Cons s ss)
    obtain tab2 key2 name2 f2 where s: "s = (tab2, key2, name2, f2)" by (cases s)
    let ?t = "get_key tab2 cfg"
    from Cons.prems s obtain d1 where
      d1: "(if is_table ?t then set_field name2 (get_key key2 (the ?t)) f2 d else Inr d) = Inr d1"
      "apply_settings cfg ss d1 = Inr d'"
      by (auto simp: Let_def bind_r_Inr_iff)
    have grow: "fst ` set d \<subseteq> fst ` set d1"
    proof (cases "is_table ?t \<and> get_key key2 (the ?t) \<noteq> None")
      case True
      with d1(1) obtain y where "d1 = dict_set name2 y d"
        by (auto simp: set_field_def bind_r_Inr_iff)
      then show ?thesis by (simp add: keys_dict_set subset_insertI)
    next
      case False
      with d1(1) have "d1 = d" by (auto simp: set_field_def split: if_splits)
      then show ?thesis by simp
    qed
    have new: "name2 \<in> fst ` set d1" if "is_table ?t" "get_key key2 (the ?t) \<noteq> None"
    proof -
      from d1(1) that obtain y where "d1 = dict_set name2 y d"
        by (auto simp: set_field_def bind_r_Inr_iff)
      then show ?thesis by (simp add: keys_dict_set subset_insertI)
    qed
    have "fst ` set d \<subseteq> fst ` set d'" using Cons.IH [OF d1(2)] grow by (meson subset_trans)
    moreover have "name \<in> fst ` set d'" if "(tab, key, name, f) \<in> set (s # ss)"
      "is_table (get_key tab cfg)" "get_key key (the (get_key tab cfg)) \<noteq> None"
    proof (cases "(tab, key, name, f) \<in> set ss")
      case True
      with that Cons.IH [OF d1(2)] show ?thesis by simp
    next
      case False
      with that s have "tab = tab2" "key = key2" "name = name2" by auto
      with that(2,3) new have "name \<in> fst ` set d1" by simp
      moreover have "fst ` set d1 \<subseteq> fst ` set d'" using Cons.IH [OF d1(2)] by (rule conjunct1)
      ultimately show ?thesis by (rule rev_subsetD)
    qed
    ultimately show ?case by blast
  qed simp
  then show "fst ` set d \<subseteq> fst ` set d'"
    "(tab, key, name, f) \<in> set ss \<Longrightarrow> is_table (get_key tab cfg) \<Longrightarrow>
      get_key key (the (get_key tab cfg)) \<noteq> None \<Longrightarrow> name \<in> fst ` set d'"
    by blast+
qed

section \<open>Properties\<close>




text \<open>
  A file that names the key of the TLS certificate cannot be loaded: with a
  \<^verbatim>\<open>cert_key\<close> in its \<^verbatim>\<open>[tunnel]\<close> table, \<^verbatim>\<open>init_config\<close> never succeeds, because the
  setting is stored under \<^verbatim>\<open>TUNNEL_CERT_key\<close>, which is no field of \<^verbatim>\<open>Config\<close>.
\<close>

theorem cert_key_rejected:
  assumes "load p = Some cfg" "is_table (get_key ''tunnel'' cfg)"
    "get_key ''cert_key'' (the (get_key ''tunnel'' cfg)) \<noteq> None"
  shows "fst (init_config hl environ load (Some p) allowed args current) \<noteq> Inr c"
proof
  assume "fst (init_config hl environ load (Some p) allowed args current) = Inr c"
  then obtain st where "init_config hl environ load (Some p) allowed args current = (Inr c, st)"
    by (metis prod.collapse)
  then obtain conf env where l: "load_toml_config hl cfg allowed = Inr conf"
    "make_config (cmd_settings args (dict_update conf env)) = Inr c"
    by (rule init_config_cases) (use assms(1) in auto)
  from l(1) have "apply_settings cfg (toml_settings hl cfg allowed) [] = Inr conf"
    by (auto simp: load_toml_config_def bind_r_Inr_iff check_config_def split: if_splits)
  moreover have "(''tunnel'', ''cert_key'', ''TUNNEL_CERT_key'', raw) \<in> set (toml_settings hl cfg allowed)"
    by (simp add: toml_settings_def)
  ultimately have "''TUNNEL_CERT_key'' \<in> fst ` set conf"
    using apply_settings_keys(2) assms(2,3) by blast
  then have "''TUNNEL_CERT_key'' \<in> fst ` set (cmd_settings args (dict_update conf env))"
    by (cases args) (simp_all add: cmd_settings_def keys_dict_update)
  moreover have "fst ` set (cmd_settings args (dict_update conf env)) \<subseteq> fst ` set config_fields"
    using l(2) by (auto simp: make_config_def list_all_iff split: if_splits)
  ultimately show False by (auto simp: config_fields_def)
qed

definition demo_toml :: "(string \<times> toml) list \<Rightarrow> toml" where
  "demo_toml tunnel =
     T_table [(''db'', T_table [(''user'', T_str ''u''), (''name'', T_str ''n''), (''password'', T_str ''p'')]),
              (''auth'', T_table [(''handler'', T_str ''moat-management'')]),
              (''tunnel'', T_table tunnel)]"


theorem cert_key_rejected_witness:
  "fst (init_config \<lparr>hp_moat = (\<lambda>cfg. Some 1), hp_plugin = (\<lambda>s cfg. None)\<rparr> (\<lambda>v. None)
      (\<lambda>p. Some (demo_toml [(''cert_key'', T_str ''server.key'')])) (Some ''config.toml'') False None None) \<noteq> Inr []"
  by (rule cert_key_rejected [OF refl]) (simp_all add: demo_toml_def is_table_def)

end
