(* ===== verification/Base64.thy ===== *)
theory Base64
  imports Moat_Prelude
begin

text \<open>
  Python's \<^verbatim>\<open>base64\<close> module as the management server and its clients use it: encoding, the
  reader \<^verbatim>\<open>binascii.a2b_base64\<close>, \<^verbatim>\<open>b64decode(validate=True)\<close> of Python 3.12, and the
  lenient decoder, which skips what is no digit, behind pydantic's \<^verbatim>\<open>Base64Bytes\<close>. It is the
  language's library, not the repository: the lemmas say which tokens the validators accept.
\<close>

definition b64_char :: "nat \<Rightarrow> char" where
  "b64_char n =
     char_of (if n < 26 then 65 + n else if n < 52 then 71 + n else if n < 62 then n - 4
              else if n = 62 then 43 else 47)"

definition b64_val :: "char \<Rightarrow> nat option" where
  "b64_val c =
     (let n = (of_char c :: nat) in
      if 65 \<le> n \<and> n \<le> 90 then Some (n - 65)
      else if 97 \<le> n \<and> n \<le> 122 then Some (n - 71)
      else if 48 \<le> n \<and> n \<le> 57 then Some (n + 4)
      else if n = 43 then Some 62 else if n = 47 then Some 63 else None)"

fun b64encode :: "bytes \<Rightarrow> string" where
  "b64encode [] = []"
| "b64encode [a] =
     [b64_char (unat a div 4), b64_char (unat a mod 4 * 16), CHR ''='', CHR ''='']"
| "b64encode [a, b] =
     [b64_char (unat a div 4), b64_char (unat a mod 4 * 16 + unat b div 16),
      b64_char (unat b mod 16 * 4), CHR ''='']"
| "b64encode (a # b # c # r) =
     b64_char (unat a div 4) # b64_char (unat a mod 4 * 16 + unat b div 16) #
     b64_char (unat b mod 16 * 4 + unat c div 64) # b64_char (unat c mod 64) # b64encode r"

definition byte_of :: "nat \<Rightarrow> byte" where
  "byte_of n = word_of_nat n"

text \<open>
  The reader keeps the position in the quad, the bits left over, and the pads since the last
  digit. Other characters are skipped; a quad completed by pads ends the input.
\<close>

fun a2b :: "nat \<Rightarrow> nat \<Rightarrow> nat \<Rightarrow> string \<Rightarrow> bytes option" where
  "a2b q left pads [] = (if q = 0 then Some [] else None)"
| "a2b q left pads (c # s) =
     (if c = CHR ''='' then
        if 2 \<le> q \<and> 4 \<le> q + pads + 1 then Some []
        else a2b q left (if 2 \<le> q then pads + 1 else pads) s
      else
        (case b64_val c of
           None \<Rightarrow> a2b q left pads s
         | Some v \<Rightarrow>
             if q = 0 then a2b 1 v 0 s
             else if q = 1 then map_option ((#) (byte_of (left * 4 + v div 16))) (a2b 2 (v mod 16) 0 s)
             else if q = 2 then map_option ((#) (byte_of (left * 16 + v div 4))) (a2b 3 (v mod 4) 0 s)
             else map_option ((#) (byte_of (left * 64 + v))) (a2b 0 0 0 s)))"

definition b64decode_lenient :: "string \<Rightarrow> bytes option" where
  "b64decode_lenient s = a2b 0 0 0 s"

definition b64decode :: "string \<Rightarrow> bytes option" where
  "b64decode s =
     (let r = dropWhile (\<lambda>c. b64_val c \<noteq> None) s in
      if length r \<le> 2 \<and> list_all (\<lambda>c. c = CHR ''='') r then b64decode_lenient s else None)"

lemma b64_val_char [simp]: "n < 64 \<Longrightarrow> b64_val (b64_char n) = Some n"
  by (auto simp: b64_val_def b64_char_def Let_def)

lemma b64_char_not_pad [simp]: "n < 64 \<Longrightarrow> b64_char n \<noteq> CHR ''=''"
  using b64_val_char [of n] by (auto simp: b64_val_def)

lemma sextet_parts:
  fixes x y z :: nat
  assumes "x < 256" "y < 256"
  shows "x div 4 < 64" "x mod 4 * 16 < 64" "x mod 4 * 16 + y div 16 < 64" "z mod 16 * 4 < 64"
    "z mod 16 * 4 + y div 64 < 64" "z mod 64 < 64"
proof -
  have "x mod 4 < 4" "z mod 16 < 16" by simp_all
  moreover have "y div 16 < 16" "y div 64 < 4" "x div 4 < 64" using assms by (simp_all add: less_mult_imp_div_less)
  ultimately show "x div 4 < 64" "x mod 4 * 16 < 64" "x mod 4 * 16 + y div 16 < 64" "z mod 16 * 4 < 64"
    "z mod 16 * 4 + y div 64 < 64" "z mod 64 < 64" by simp_all
qed

lemmas sextets [simp] = sextet_parts [OF unat_byte_lt unat_byte_lt]

lemma octet_parts:
  fixes x y z :: nat
  assumes "y < 256" "z < 256"
  shows "(x mod 4 * 16 + y div 16) div 16 = x mod 4" "(x mod 4 * 16 + y div 16) mod 16 = y div 16"
    "(y mod 16 * 4 + z div 64) div 4 = y mod 16" "(y mod 16 * 4 + z div 64) mod 4 = z div 64"
proof -
  have "y div 16 < 16" "z div 64 < 4" using assms by (simp_all add: less_mult_imp_div_less)
  then show "(x mod 4 * 16 + y div 16) div 16 = x mod 4" "(x mod 4 * 16 + y div 16) mod 16 = y div 16"
    "(y mod 16 * 4 + z div 64) div 4 = y mod 16" "(y mod 16 * 4 + z div 64) mod 4 = z div 64"
    by simp_all
qed

lemmas octets [simp] = octet_parts [OF unat_byte_lt unat_byte_lt]

lemma byte_of_parts [simp]:
  "byte_of (unat b div 4 * 4 + unat b mod 4) = b"
  "byte_of (unat b div 16 * 16 + unat b mod 16) = b"
  "byte_of (unat b div 64 * 64 + unat b mod 64) = b" "byte_of (unat b) = b"
  by (simp_all only: byte_of_def div_mult_mod_eq unat_eq_nat_uint word_of_nat_eq_iff) simp_all

lemma high_bits [simp]: "unat (b :: byte) div 16 mod 16 = unat b div 16" "unat b div 64 mod 4 = unat b div 64"
  by (simp_all add: less_mult_imp_div_less)

lemma b64_val_other [simp]: "b64_val (CHR ''='') = None" "b64_val (CHR 0x0A) = None"
  by (simp_all add: b64_val_def)

lemma a2b_encode:
  "length bs mod 3 = 0 \<Longrightarrow>
     a2b 0 0 0 (b64encode bs @ s) = map_option ((@) bs) (a2b 0 0 0 s)"
  "length bs mod 3 \<noteq> 0 \<Longrightarrow> a2b 0 0 0 (b64encode bs @ s) = Some bs"
proof (induction bs rule: b64encode.induct)
  case (4 a b c r)
  { case 1 then show ?case using "4.IH"(1) by (simp add: option.map_comp comp_def) }
  { case 2 then show ?case using "4.IH"(2) by simp }
qed (auto simp: map_option_case split: option.splits)

lemma a2b_encode_Nil [simp]: "a2b 0 0 0 (b64encode bs) = Some bs"
  using a2b_encode [of bs "[]"] by (cases "length bs mod 3 = 0") simp_all

theorem b64decode_lenient_encode [simp]: "b64decode_lenient (b64encode bs) = Some bs"
  by (simp add: b64decode_lenient_def)

lemma b64encode_shape:
  "let r = dropWhile (\<lambda>c. b64_val c \<noteq> None) (b64encode bs)
   in length r \<le> 2 \<and> list_all (\<lambda>c. c = CHR ''='') r"
  by (induction bs rule: b64encode.induct) (simp_all add: Let_def)

theorem b64decode_encode [simp]: "b64decode (b64encode bs) = Some bs"
  using b64encode_shape [of bs] by (simp add: b64decode_def Let_def)

lemma b64encode_inject [simp]: "b64encode as = b64encode bs \<longleftrightarrow> as = bs"
  by (metis b64decode_encode option.inject)

text \<open>The values \<^verbatim>\<open>validate_token\<close> accepts are not canonical: unused bits may be set.\<close>

lemma b64decode_not_injective: "b64decode ''AA=='' = b64decode ''AB=='' \<and> b64decode ''AA=='' \<noteq> None"
  by code_simp

end
