(* ===== verification/Mgmt_Db.thy ===== *)
theory Mgmt_Db
  imports Complex_Main Base64
begin

text \<open>
  The management server's database (\<^verbatim>\<open>models.py\<close>): the tables of access tokens, WireGuard
  configurations, probes and their status history, and of the SIM tunnel's tokens, with the
  methods of the rows. A table is the list of its rows in insertion order. \<open>mg_world\<close> is what
  lies behind the HTTP interface of the WireGuard daemon; a transaction does not roll it back.
  Serial primary keys count up from \<open>mg_next\<close>; random values (\<^verbatim>\<open>gen_random_uuid\<close>,
  \<^verbatim>\<open>secrets.token_bytes\<close>) and the clock are arguments of the operations.
\<close>

unbundle bit_operations_syntax

section \<open>Scopes\<close>

text \<open>
  \<^verbatim>\<open>enum.Flag\<close> classes with two members: every combination of the two bits is a value. \<open>x in y\<close>
  is containment of the bits, so the empty scope is in every scope.
\<close>

type_synonym scope = "2 word"

definition scope_in :: "scope \<Rightarrow> scope \<Rightarrow> bool" where
  "scope_in x y \<longleftrightarrow> x AND y = x"

abbreviation Scope_Wireguard :: scope where "Scope_Wireguard \<equiv> 1"
abbreviation Scope_Probe :: scope where "Scope_Probe \<equiv> 2"
abbreviation Scope_Both :: scope where "Scope_Both \<equiv> 3"

abbreviation Moat_Probe :: scope where "Moat_Probe \<equiv> 1"
abbreviation Moat_Provider :: scope where "Moat_Provider \<equiv> 2"

definition scope_pretty :: "bool \<Rightarrow> scope \<Rightarrow> string" where
  "scope_pretty tight s =
     (let joiner = (if tight then ''|'' else '' | '');
          names = (if scope_in Scope_Wireguard s then [''Wireguard''] else []) @
                  (if scope_in Scope_Probe s then [''Probe''] else []) in
      case names of [] \<Rightarrow> ''none'' | [n] \<Rightarrow> n | n # ns \<Rightarrow> n @ concat (map ((@) joiner) ns))"

lemma word2_cases: "x = 0 \<or> x = 1 \<or> x = 2 \<or> x = (3 :: 2 word)"
proof -
  have "unat x < 4" using unsigned_less [of x, where 'a = nat] by simp
  then have "unat x = 0 \<or> unat x = 1 \<or> unat x = 2 \<or> unat x = 3" by linarith
  moreover have "x = word_of_nat n" if "unat x = n" for n using that by auto
  ultimately show ?thesis by fastforce
qed

lemma scope_in_simps [simp]:
  "scope_in 0 s" "scope_in s s" "scope_in s 3"
  "scope_in 1 s \<longleftrightarrow> s = 1 \<or> s = 3" "scope_in 2 s \<longleftrightarrow> s = 2 \<or> s = 3"
  using word2_cases [of s] by (auto simp: scope_in_def)

section \<open>Rows\<close>

datatype token_action = A_Registered | A_Activated | A_Access | A_Deactivated

record mam_token =
  tk_id :: int
  tk_token :: "string option"
  tk_candidate :: "string option"
  tk_mac :: "string option"
  tk_scope :: scope

record mam_log =
  ml_token_id :: "int option"
  ml_value :: string
  ml_scope :: scope
  ml_time :: time
  ml_action :: token_action

record wg_row =
  wg_publickey :: "string option"
  wg_register_time :: time
  wg_ip :: string
  wg_allow_registration :: bool
  wg_token_id :: int

record wg_log =
  wl_mac :: "string option"
  wl_token :: string
  wl_publickey :: string
  wl_register_time :: time
  wl_ip :: "string option"
  wl_successful :: bool

record probe_row =
  pr_id :: uuid
  pr_name :: string
  pr_token_id :: int
  pr_country :: "string option"
  pr_last_poll :: "time option"

datatype probe_status_type = Online | Offline

record status_row =
  ps_probe_id :: uuid
  ps_active :: bool
  ps_status :: probe_status_type
  ps_begin :: time
  ps_end :: time

record startup_row =
  su_mac :: string
  su_timestamp :: time
  su_probe_id :: uuid

text \<open>The SIM tunnel's tables.\<close>

record moat_token =
  mt_id :: int
  mt_value :: bytes
  mt_scope :: scope
  mt_expires :: "time option"
  mt_admin :: bool

record mgmt_sim =
  gs_id :: int
  gs_iccid :: "string option"
  gs_imsi :: "string option"
  gs_public :: bool

record sim_assoc =
  sa_sim_id :: int
  sa_token_id :: int
  sa_provide :: bool
  sa_request :: bool

record session_row =
  st_value :: bytes
  st_token_id :: int
  st_scope :: scope
  st_probe_id :: "uuid option"
  st_provider_id :: "uuid option"

record 'j mgmt_db =
  mam_tokens :: "mam_token list"
  mam_logs :: "mam_log list"
  wg_rows :: "wg_row list"
  wg_logs :: "wg_log list"
  mg_probes :: "probe_row list"
  mg_statuses :: "status_row list"
  mg_startups :: "startup_row list"
  mg_infos :: "(uuid \<times> time \<times> 'j) list"
  mg_next :: int
  moat_tokens :: "moat_token list"
  mgmt_sims :: "mgmt_sim list"
  sim_assocs :: "sim_assoc list"
  session_rows :: "session_row list"
  provider_ids :: "uuid list"

record ('j, 'w) mgmt =
  mg_db :: "'j mgmt_db"
  mg_world :: 'w

section \<open>Errors and transactions\<close>

datatype auth_problem = InvalidToken | ExpiredToken | Forbidden

text \<open>
  What a route raises: \<^verbatim>\<open>HTTPException\<close> with its status, \<^verbatim>\<open>AuthException\<close>, FastAPI's
  validation error for a body, and the exceptions no handler catches.
\<close>

datatype mgmt_error =
    HTTPException int | AuthException auth_problem | RequestValidationError
  | Mg_IntegrityError | Mg_AttributeError | Mg_AssertionError | Mg_TypeError | Mg_ValueError
  | Mg_WgConfigError | Mg_ConnectionError | Mg_LookupError

fun mgmt_status :: "mgmt_error \<Rightarrow> int" where
  "mgmt_status (HTTPException n) = n"
| "mgmt_status (AuthException _) = 403"
| "mgmt_status RequestValidationError = 422"
| "mgmt_status _ = 500"

type_synonym ('s, 'a) mact = "(mgmt_error, 's, 'a) eff"

definition get_db :: "('j mgmt_db \<Rightarrow> 'a) \<Rightarrow> (('j, 'w) mgmt, 'a) mact" where
  "get_db f s = (Inr (f (mg_db s)), s)"

definition set_db :: "('j mgmt_db \<Rightarrow> 'j mgmt_db) \<Rightarrow> (('j, 'w) mgmt, unit) mact" where
  "set_db f s = (Inr (), s\<lparr>mg_db := f (mg_db s)\<rparr>)"

definition transaction :: "(('j, 'w) mgmt, 'a) mact \<Rightarrow> (('j, 'w) mgmt, 'a) mact" where
  "transaction m s =
     (case m s of
        (Inl e, s') \<Rightarrow> (Inl e, s'\<lparr>mg_db := mg_db s\<rparr>)
      | (Inr x, s') \<Rightarrow> (Inr x, s'))"

lemma mact_simps [simp]:
  "get_db f s = (Inr (f (mg_db s)), s)"
  "set_db g s = (Inr (), s\<lparr>mg_db := g (mg_db s)\<rparr>)"
  "bnd (get_db f) k s = k (f (mg_db s)) s"
  "bnd (set_db g) h s = h () (s\<lparr>mg_db := g (mg_db s)\<rparr>)"
  by (simp_all add: get_db_def set_db_def bnd_def)

lemma transaction_Inl: "transaction m s = (Inl e, s') \<Longrightarrow> mg_db s' = mg_db s"
  by (auto simp: transaction_def split: prod.splits sum.splits)

lemma transaction_Inr: "transaction m s = (Inr x, s') \<longleftrightarrow> m s = (Inr x, s')"
  by (auto simp: transaction_def split: prod.splits sum.splits)

section \<open>Methods of the rows\<close>

definition token_value :: "mam_token \<Rightarrow> string option" where
  "token_value t = (case tk_token t of None \<Rightarrow> tk_candidate t | Some v \<Rightarrow> Some v)"

definition update_token :: "int \<Rightarrow> (mam_token \<Rightarrow> mam_token) \<Rightarrow> 'j mgmt_db \<Rightarrow> 'j mgmt_db" where
  "update_token i f d = d\<lparr>mam_tokens := map (\<lambda>t. if tk_id t = i then f t else t) (mam_tokens d)\<rparr>"

definition add_log :: "mam_log \<Rightarrow> 'j mgmt_db \<Rightarrow> 'j mgmt_db" where
  "add_log l d = d\<lparr>mam_logs := mam_logs d @ [l]\<rparr>"

text \<open>\<^verbatim>\<open>MamToken.activate\<close>: \<open>token_value\<close> is a NOT NULL column.\<close>

definition activate :: "time \<Rightarrow> mam_token \<Rightarrow> (('j, 'w) mgmt, mam_token) mact" where
  "activate now t =
     (let t' = (if tk_candidate t \<noteq> None then t\<lparr>tk_token := tk_candidate t\<rparr> else t) in
      case tk_token t' of
        None \<Rightarrow> throw Mg_IntegrityError
      | Some v \<Rightarrow>
          bnd (set_db (update_token (tk_id t) (\<lambda>_. t'))) (\<lambda>_.
          bnd (set_db (add_log \<lparr>ml_token_id = Some (tk_id t), ml_value = v, ml_scope = tk_scope t,
                  ml_time = now, ml_action = A_Activated\<rparr>)) (\<lambda>_. ret t')))"

text \<open>The relationship \<^verbatim>\<open>logs\<close>, newest first.\<close>

definition token_logs :: "int \<Rightarrow> 'j mgmt_db \<Rightarrow> mam_log list" where
  "token_logs i d =
     rev (sort_key ml_time (filter (\<lambda>l. ml_token_id l = Some i) (mam_logs d)))"

definition activation_time :: "probe_row \<Rightarrow> 'j mgmt_db \<Rightarrow> time option" where
  "activation_time p d =
     map_option ml_time (find (\<lambda>l. ml_action l = A_Activated) (token_logs (pr_token_id p) d))"

definition is_polling :: "time \<Rightarrow> time \<Rightarrow> probe_row \<Rightarrow> bool" where
  "is_polling interval now p =
     (case pr_last_poll p of
        None \<Rightarrow> False
      | Some t \<Rightarrow> if t + interval \<le> now then False else True)"

text \<open>The relationship \<^verbatim>\<open>status\<close>: the active ones first, the latest first.\<close>

definition status_history :: "uuid \<Rightarrow> 'j mgmt_db \<Rightarrow> status_row list" where
  "status_history pid d =
     (let rows = rev (sort_key ps_begin (filter (\<lambda>r. ps_probe_id r = pid) (mg_statuses d))) in
      filter ps_active rows @ filter (\<lambda>r. \<not> ps_active r) rows)"

text \<open>A \<^verbatim>\<open>datetime\<close> is never false, so both conditions of \<^verbatim>\<open>duration\<close> hold.\<close>

definition duration :: "status_row \<Rightarrow> time" where
  "duration r = ps_end r - ps_begin r"

record statistics =
  d_online :: time
  d_offline :: time
  d_pre_registration :: "time option"
  known_for :: time

definition status_total :: "probe_status_type \<Rightarrow> status_row list \<Rightarrow> time" where
  "status_total st rows = sum_list (map duration (filter (\<lambda>r. ps_status r = st) rows))"

text \<open>
  \<^verbatim>\<open>get_status_statistics\<close>: the dictionary has an entry \<^verbatim>\<open>pre_registration\<close> only once the
  token was activated. The percentages are each duration by \<open>known_for\<close>.
\<close>

definition get_status_statistics :: "time \<Rightarrow> time option \<Rightarrow> status_row list \<Rightarrow> statistics" where
  "get_status_statistics now activated status =
     \<lparr>d_online = status_total Online status,
      d_offline = status_total Offline status,
      d_pre_registration =
        (case activated of
           None \<Rightarrow> None
         | Some a \<Rightarrow> Some ((if status \<noteq> [] then ps_begin (last status) else now) - a)),
      known_for =
        (case activated of
           None \<Rightarrow> 0
         | Some a \<Rightarrow> if status \<noteq> [] then ps_end (hd status) - a else now - a)\<rparr>"

definition percentages :: "statistics \<Rightarrow> rat list" where
  "percentages st =
     map (\<lambda>d. if known_for st > 0 then of_int d / of_int (known_for st) * 100 else 0)
       ([d_online st, d_offline st] @ (case d_pre_registration st of None \<Rightarrow> [] | Some d \<Rightarrow> [d]))"

text \<open>
  \<^verbatim>\<open>MoAtToken.expired\<close>: the column has no time zone, and comparing an aware with a naive
  \<^verbatim>\<open>datetime\<close> raises \<^verbatim>\<open>TypeError\<close>.
\<close>

definition expired :: "moat_token \<Rightarrow> mgmt_error + bool" where
  "expired t = (case mt_expires t of None \<Rightarrow> Inr False | Some _ \<Rightarrow> Inl Mg_TypeError)"

end
