(* ===== verification/Mgmt_Tokens.thy ===== *)
theory Mgmt_Tokens
  imports Mgmt_Db Auth_Handlers
begin

text \<open>
  Access tokens of the management server: who may call it (\<^verbatim>\<open>auth.py\<close>), the life of a token
  from candidate to deletion (\<^verbatim>\<open>token_routes.py\<close>), and what comes with it, a WireGuard
  configuration (\<^verbatim>\<open>wireguard_routes.py\<close>, \<^verbatim>\<open>wg_config.py\<close>) and a probe (the hooks of
  \<^verbatim>\<open>probe_routes.py\<close>). The scrypt hash, the parser of IP addresses and the WireGuard daemon's
  HTTP interface are parameters. The ORM writes at a flush or commit, where the database checks
  its constraints (\<open>schema_ok\<close>).
\<close>

section \<open>Authorisation\<close>

definition get_basic_auth ::
  "(bytes \<Rightarrow> bytes \<Rightarrow> bytes) \<Rightarrow> string \<Rightarrow> bytes \<Rightarrow> bytes \<Rightarrow> string \<times> string \<Rightarrow> mgmt_error + string" where
  "get_basic_auth scrypt username pw_salt pw_hash creds =
     (let correct_username = (str_encode (fst creds) = str_encode username);
          hashed_pw = scrypt (str_encode (snd creds)) pw_salt;
          correct_password = (hashed_pw = pw_hash) in
      if correct_username \<and> correct_password then Inr (fst creds) else Inl (HTTPException 401))"

definition is_ascii :: "string \<Rightarrow> bool" where
  "is_ascii s \<longleftrightarrow> list_all (\<lambda>c. (of_char c :: nat) < 128) s"

definition validate_token :: "string \<Rightarrow> mgmt_error + string" where
  "validate_token token =
     (if \<not> is_ascii token then Inl (HTTPException 403)
      else (case b64decode token of
              None \<Rightarrow> Inl (HTTPException 403)
            | Some bs \<Rightarrow> if length bs \<noteq> 32 then Inl (HTTPException 403) else Inr token))"

definition check_token :: "string \<Rightarrow> scope \<Rightarrow> 'j mgmt_db \<Rightarrow> mgmt_error + mam_token" where
  "check_token token scope d =
     bind_r (validate_token token) (\<lambda>token.
       case find (\<lambda>t. tk_token t = Some token) (mam_tokens d) of
         None \<Rightarrow> Inl (HTTPException 403)
       | Some t \<Rightarrow> if scope_in scope (tk_scope t) then Inr t else Inl (HTTPException 403))"

definition of_result :: "mgmt_error + 'a \<Rightarrow> ('s, 'a) mact" where
  "of_result r s = (r, s)"

text \<open>The dependency \<^verbatim>\<open>_bearer_token\<close>: every use of a token is logged.\<close>

definition bearer_token :: "time \<Rightarrow> scope \<Rightarrow> string \<Rightarrow> (('j, 'w) mgmt, mam_token) mact" where
  "bearer_token now scope creds =
     transaction
       (bnd (get_db (check_token creds scope)) (\<lambda>r.
        bnd (of_result r) (\<lambda>token.
        bnd (set_db (add_log \<lparr>ml_token_id = Some (tk_id token), ml_value = the (token_value token),
               ml_scope = scope, ml_time = now, ml_action = A_Access\<rparr>)) (\<lambda>_. ret token))))"

section \<open>Constraints of the database\<close>

definition distinct_somes :: "'a option list \<Rightarrow> bool" where
  "distinct_somes xs \<longleftrightarrow> distinct (filter (\<lambda>x. x \<noteq> None) xs)"

definition refs :: "'k option list \<Rightarrow> 'k list \<Rightarrow> bool" where
  "refs ks ids \<longleftrightarrow> list_all (\<lambda>k. k = None \<or> the k \<in> set ids) ks"

definition schema_ok :: "'j mgmt_db \<Rightarrow> bool" where
  "schema_ok d \<longleftrightarrow>
     distinct_somes (map tk_token (mam_tokens d)) \<and> distinct_somes (map tk_candidate (mam_tokens d)) \<and>
     distinct (map wg_ip (wg_rows d)) \<and> distinct (map wg_token_id (wg_rows d)) \<and>
     distinct (map pr_id (mg_probes d)) \<and> distinct (map pr_name (mg_probes d)) \<and>
     distinct (map pr_token_id (mg_probes d)) \<and>
     refs (map ml_token_id (mam_logs d)) (map tk_id (mam_tokens d)) \<and>
     refs (map (Some \<circ> wg_token_id) (wg_rows d)) (map tk_id (mam_tokens d)) \<and>
     refs (map (Some \<circ> pr_token_id) (mg_probes d)) (map tk_id (mam_tokens d)) \<and>
     refs (map (Some \<circ> ps_probe_id) (mg_statuses d)) (map pr_id (mg_probes d)) \<and>
     refs (map (Some \<circ> su_probe_id) (mg_startups d)) (map pr_id (mg_probes d)) \<and>
     refs (map (Some \<circ> fst) (mg_infos d)) (map pr_id (mg_probes d)) \<and>
     refs (map st_probe_id (session_rows d)) (map pr_id (mg_probes d))"

lemma refs_append [simp]: "refs (ks @ ls) ids \<longleftrightarrow> refs ks ids \<and> refs ls ids"
  by (simp add: refs_def)

lemma refs_Cons [simp]: "refs (k # ks) ids \<longleftrightarrow> (k = None \<or> the k \<in> set ids) \<and> refs ks ids"
  by (simp add: refs_def)

lemma refs_Nil [simp]: "refs [] ids"
  by (simp add: refs_def)

lemma refs_replicate [simp]: "refs (replicate n k) ids \<longleftrightarrow> n = 0 \<or> k = None \<or> the k \<in> set ids"
  by (induction n) auto

lemma refs_iff: "refs ks ids \<longleftrightarrow> (\<forall>k. Some k \<in> set ks \<longrightarrow> k \<in> set ids)"
  by (auto simp: refs_def list_all_iff) (metis option.collapse)

text \<open>A flush; the transaction around it is rolled back when it fails.\<close>

definition flush :: "(('j, 'w) mgmt, unit) mact" where
  "flush = bnd (get_db schema_ok) (\<lambda>ok. if ok then ret () else throw Mg_IntegrityError)"

section \<open>WireGuard\<close>

text \<open>
  The daemon behind \<^verbatim>\<open>WgConfig\<close>: method, path and body of a request; \<open>None\<close> when the request
  raises.
\<close>

type_synonym 'w wg_env = "string \<Rightarrow> string \<Rightarrow> json option \<Rightarrow> 'w \<Rightarrow> http_response option \<times> 'w"

definition wg_call :: "'w wg_env \<Rightarrow> string \<Rightarrow> string \<Rightarrow> json option \<Rightarrow> (('j, 'w) mgmt, json) mact" where
  "wg_call env meth path body s =
     (case env meth path body (mg_world s) of
        (None, w) \<Rightarrow> (Inl Mg_ConnectionError, s\<lparr>mg_world := w\<rparr>)
      | (Some r, w) \<Rightarrow>
          ((if http_success (res_status r) then Inr (res_json r) else Inl Mg_WgConfigError),
           s\<lparr>mg_world := w\<rparr>))"

definition wg_add_peer :: "'w wg_env \<Rightarrow> string \<Rightarrow> string \<Rightarrow> (('j, 'w) mgmt, unit) mact" where
  "wg_add_peer env publickey ip =
     bnd (wg_call env ''PUT'' ''/peers''
           (Some (JObj [(''pub_key'', JStr publickey), (''allowed_ips'', JList [JStr ip])])))
       (\<lambda>_. ret ())"

definition urlsafe :: "string \<Rightarrow> string" where
  "urlsafe = map (\<lambda>c. if c = CHR ''+'' then CHR ''-'' else if c = CHR ''/'' then CHR ''_'' else c)"

definition wg_remove_peer :: "'w wg_env \<Rightarrow> string \<Rightarrow> (('j, 'w) mgmt, unit) mact" where
  "wg_remove_peer env publickey =
     bnd (wg_call env ''DELETE'' (''/peers/'' @ urlsafe publickey) None) (\<lambda>_. ret ())"

definition wg_status :: "'w wg_env \<Rightarrow> (('j, 'w) mgmt, string) mact" where
  "wg_status env =
     bnd (wg_call env ''GET'' ''/status'' None)
       (\<lambda>json. case json of JStr s \<Rightarrow> ret s | _ \<Rightarrow> throw Mg_WgConfigError)"

definition wg_of :: "int \<Rightarrow> 'j mgmt_db \<Rightarrow> wg_row option" where
  "wg_of i d = find (\<lambda>w. wg_token_id w = i) (wg_rows d)"

definition update_wg :: "int \<Rightarrow> (wg_row \<Rightarrow> wg_row) \<Rightarrow> 'j mgmt_db \<Rightarrow> 'j mgmt_db" where
  "update_wg i f d = d\<lparr>wg_rows := map (\<lambda>w. if wg_token_id w = i then f w else w) (wg_rows d)\<rparr>"

text \<open>
  \<^verbatim>\<open>wireguard_routes.after_token_activation\<close>. A new row's \<^verbatim>\<open>register_time\<close> is the server's
  default \<^verbatim>\<open>now()\<close>.
\<close>

definition wg_after_activation :: "time \<Rightarrow> mam_token \<Rightarrow> string \<Rightarrow> (('j, 'w) mgmt, unit) mact" where
  "wg_after_activation now token ip =
     bnd (get_db (wg_of (tk_id token))) (\<lambda>config.
       case config of
         Some _ \<Rightarrow>
           set_db (update_wg (tk_id token) (\<lambda>w. w\<lparr>wg_ip := ip, wg_allow_registration := True\<rparr>))
       | None \<Rightarrow>
           set_db (\<lambda>d. d\<lparr>wg_rows := wg_rows d @
             [\<lparr>wg_publickey = None, wg_register_time = now, wg_ip = ip,
               wg_allow_registration = True, wg_token_id = tk_id token\<rparr>]\<rparr>))"

definition wg_before_deletion :: "'w wg_env \<Rightarrow> mam_token \<Rightarrow> (('j, 'w) mgmt, unit) mact" where
  "wg_before_deletion env token =
     bnd (get_db (wg_of (tk_id token))) (\<lambda>config.
       case config of
         None \<Rightarrow> ret ()
       | Some c \<Rightarrow> (case wg_publickey c of None \<Rightarrow> ret () | Some pk \<Rightarrow> wg_remove_peer env pk))"

definition wg_activation_error :: "int \<Rightarrow> string \<Rightarrow> 'j mgmt_db \<Rightarrow> mgmt_error option" where
  "wg_activation_error i ip d =
     (if list_ex (\<lambda>w. wg_ip w = ip \<and> wg_token_id w \<noteq> i) (wg_rows d) then Some (HTTPException 400) else None)"

section \<open>Probes of a token\<close>

definition probe_of :: "int \<Rightarrow> 'j mgmt_db \<Rightarrow> probe_row option" where
  "probe_of i d = find (\<lambda>p. pr_token_id p = i) (mg_probes d)"

definition probe_after_activation :: "uuid \<Rightarrow> mam_token \<Rightarrow> string \<Rightarrow> (('j, 'w) mgmt, unit) mact" where
  "probe_after_activation uid token name =
     set_db (\<lambda>d. d\<lparr>mg_probes := mg_probes d @
       [\<lparr>pr_id = uid, pr_name = name, pr_token_id = tk_id token, pr_country = None,
         pr_last_poll = None\<rparr>]\<rparr>)"

definition probe_activation_error :: "int \<Rightarrow> string \<Rightarrow> 'j mgmt_db \<Rightarrow> mgmt_error option" where
  "probe_activation_error i name d =
     (if list_ex (\<lambda>p. pr_name p = name \<and> pr_token_id p \<noteq> i) (mg_probes d)
      then Some (HTTPException 400) else None)"

section \<open>Token routes\<close>

definition hex_pair :: "string \<Rightarrow> bool" where
  "hex_pair s \<longleftrightarrow> length s = 2 \<and> list_all (\<lambda>c. c \<in> set ''0123456789abcdef'') s"

text \<open>\<^verbatim>\<open>MAC_RE\<close>: six pairs of lower-case hexadecimal digits between colons.\<close>

fun colon_pairs :: "nat \<Rightarrow> string \<Rightarrow> bool" where
  "colon_pairs n (c # a # b # s) \<longleftrightarrow>
     n > 0 \<and> c = CHR '':'' \<and> hex_pair [a, b] \<and> colon_pairs (n - 1) s"
| "colon_pairs n s \<longleftrightarrow> n = 0 \<and> s = []"

definition mac_ok :: "string \<Rightarrow> bool" where
  "mac_ok s \<longleftrightarrow> hex_pair (take 2 s) \<and> colon_pairs 5 (drop 2 s)"

text \<open>The validator of \<^verbatim>\<open>TokenType\<close>; a string that is not ASCII raises \<^verbatim>\<open>ValueError\<close> too.\<close>

definition token_type_ok :: "string \<Rightarrow> bool" where
  "token_type_ok v \<longleftrightarrow> is_ascii v \<and> (case b64decode v of None \<Rightarrow> False | Some bs \<Rightarrow> length bs = 32)"

definition validate :: "bool \<Rightarrow> ('s, unit) mact" where
  "validate ok = (if ok then ret () else throw RequestValidationError)"

record token_registration =
  tr_candidate :: string
  tr_mac :: string
  tr_scope :: scope

text \<open>
  \<^verbatim>\<open>add_token_candidate\<close>: the flush that fails has rolled the transaction back, and \<^verbatim>\<open>None\<close> is
  returned.
\<close>

definition add_token_candidate ::
  "time \<Rightarrow> string \<Rightarrow> scope \<Rightarrow> string option \<Rightarrow> (('j, 'w) mgmt, mam_token option) mact" where
  "add_token_candidate now token_candidate scope mac s =
     (let i = mg_next (mg_db s);
          t = \<lparr>tk_id = i, tk_token = None, tk_candidate = Some token_candidate, tk_mac = mac,
               tk_scope = scope\<rparr>;
          l = \<lparr>ml_token_id = Some i, ml_value = token_candidate, ml_scope = scope, ml_time = now,
               ml_action = A_Registered\<rparr>;
          d = (mg_db s)\<lparr>mam_tokens := mam_tokens (mg_db s) @ [t],
                mam_logs := mam_logs (mg_db s) @ [l], mg_next := i + 1\<rparr> in
      if schema_ok d then (Inr (Some t), s\<lparr>mg_db := d\<rparr>) else (Inr None, s))"

text \<open>
  \<^verbatim>\<open>prune_candidates\<close>: the pairs of a token and one of its log entries, newest first, beyond
  the tenth. The statement deletes rows without touching the log, whose foreign key the
  database checks.
\<close>

definition token_log_pairs :: "'j mgmt_db \<Rightarrow> (mam_token \<times> mam_log) list" where
  "token_log_pairs d =
     concat (map (\<lambda>t. map (Pair t) (filter (\<lambda>l. ml_token_id l = Some (tk_id t)) (mam_logs d)))
       (mam_tokens d))"

definition prunable :: "'j mgmt_db \<Rightarrow> int list" where
  "prunable d =
     (let newest = rev (sort_key (\<lambda>(t, l). ml_time l) (token_log_pairs d)) in
      map (\<lambda>(t, l). tk_id t) (drop 10 newest))"

definition prune_candidates :: "(('j, 'w) mgmt, unit) mact" where
  "prune_candidates =
     bnd (set_db (\<lambda>d. d\<lparr>mam_tokens :=
            filter (\<lambda>t. \<not> (tk_token t = None \<and> tk_id t \<in> set (prunable d))) (mam_tokens d)\<rparr>))
       (\<lambda>_. flush)"

text \<open>\<^verbatim>\<open>token_register\<close>, with the status of its response.\<close>

definition token_register :: "time \<Rightarrow> token_registration \<Rightarrow> (('j, 'w) mgmt, int) mact" where
  "token_register now reg =
     bnd (validate (token_type_ok (tr_candidate reg) \<and> mac_ok (tr_mac reg))) (\<lambda>_.
     transaction
       (bnd (add_token_candidate now (tr_candidate reg) (tr_scope reg) (Some (tr_mac reg))) (\<lambda>new_cand.
          if new_cand \<noteq> None then bnd prune_candidates (\<lambda>_. ret 201) else ret 200)))"

text \<open>\<^verbatim>\<open>session.delete\<close>: the ORM unlinks the log and deletes what cascades.\<close>

definition delete_row :: "mam_token \<Rightarrow> 'j mgmt_db \<Rightarrow> 'j mgmt_db" where
  "delete_row t d =
     (let gone = map pr_id (filter (\<lambda>p. pr_token_id p = tk_id t) (mg_probes d)) in
      d\<lparr>mam_tokens := filter (\<lambda>u. tk_id u \<noteq> tk_id t) (mam_tokens d),
        mam_logs := map (\<lambda>l. if ml_token_id l = Some (tk_id t) then l\<lparr>ml_token_id := None\<rparr> else l) (mam_logs d),
        wg_rows := filter (\<lambda>w. wg_token_id w \<noteq> tk_id t) (wg_rows d),
        mg_probes := filter (\<lambda>p. pr_token_id p \<noteq> tk_id t) (mg_probes d),
        mg_statuses := filter (\<lambda>r. ps_probe_id r \<notin> set gone) (mg_statuses d),
        mg_startups := filter (\<lambda>r. su_probe_id r \<notin> set gone) (mg_startups d),
        mg_infos := filter (\<lambda>r. fst r \<notin> set gone) (mg_infos d)\<rparr>)"

definition delete_one :: "'w wg_env \<Rightarrow> time \<Rightarrow> mam_token \<Rightarrow> (('j, 'w) mgmt, unit) mact" where
  "delete_one env now t =
     bnd (if scope_in Scope_Wireguard (tk_scope t) then wg_before_deletion env t else ret ()) (\<lambda>_.
     bnd (set_db (add_log \<lparr>ml_token_id = None, ml_value = the (token_value t), ml_scope = tk_scope t,
            ml_time = now, ml_action = A_Deactivated\<rparr>)) (\<lambda>_.
       set_db (delete_row t)))"

fun delete_all :: "'w wg_env \<Rightarrow> time \<Rightarrow> mam_token list \<Rightarrow> (('j, 'w) mgmt, unit) mact" where
  "delete_all env now [] = ret ()"
| "delete_all env now (t # ts) = bnd (delete_one env now t) (\<lambda>_. delete_all env now ts)"

definition delete_token :: "'w wg_env \<Rightarrow> time \<Rightarrow> string \<Rightarrow> (('j, 'w) mgmt, unit) mact" where
  "delete_token env now token =
     bnd (get_db (\<lambda>d. filter (\<lambda>t. tk_token t = Some token \<or> tk_candidate t = Some token) (mam_tokens d)))
       (delete_all env now)"

definition token_deactivate ::
  "'w wg_env \<Rightarrow> time \<Rightarrow> mgmt_error + string \<Rightarrow> string \<Rightarrow> (('j, 'w) mgmt, unit) mact" where
  "token_deactivate env now basic_auth token =
     bnd (of_result basic_auth) (\<lambda>_.
     bnd (validate (token_type_ok token)) (\<lambda>_.
       transaction (bnd (delete_token env now token) (\<lambda>_. flush))))"

definition revoke :: "'w wg_env \<Rightarrow> time \<Rightarrow> string \<Rightarrow> (('j, 'w) mgmt, unit) mact" where
  "revoke env now creds =
     bnd (bearer_token now 0 creds) (\<lambda>token.
     transaction
       (case tk_token token of
          None \<Rightarrow> throw Mg_AssertionError
        | Some v \<Rightarrow> bnd (delete_token env now v) (\<lambda>_. flush)))"

section \<open>Activation\<close>

text \<open>The body of the request, by its scope; an IP address is its exploded form.\<close>

datatype activate_args =
    ActivateWgToken string string
  | ActivateProbeToken string string
  | ActivateTokenAll string string string

fun args_candidate :: "activate_args \<Rightarrow> string" where
  "args_candidate (ActivateWgToken c ip) = c"
| "args_candidate (ActivateProbeToken c name) = c"
| "args_candidate (ActivateTokenAll c name ip) = c"

fun args_scope :: "activate_args \<Rightarrow> scope" where
  "args_scope (ActivateWgToken c ip) = Scope_Wireguard"
| "args_scope (ActivateProbeToken c name) = Scope_Probe"
| "args_scope (ActivateTokenAll c name ip) = Scope_Both"

fun args_ip :: "activate_args \<Rightarrow> string option" where
  "args_ip (ActivateWgToken c ip) = Some ip"
| "args_ip (ActivateProbeToken c name) = None"
| "args_ip (ActivateTokenAll c name ip) = Some ip"

fun args_name :: "activate_args \<Rightarrow> string option" where
  "args_name (ActivateWgToken c ip) = None"
| "args_name (ActivateProbeToken c name) = Some name"
| "args_name (ActivateTokenAll c name ip) = Some name"

definition for_some :: "'a option \<Rightarrow> ('a \<Rightarrow> ('s, unit) mact) \<Rightarrow> ('s, unit) mact" where
  "for_some x f = (case x of None \<Rightarrow> ret () | Some y \<Rightarrow> f y)"

text \<open>The candidate to activate: a registered one, or a new one (status 201).\<close>

definition find_candidate :: "time \<Rightarrow> activate_args \<Rightarrow> (('j, 'w) mgmt, int \<times> mam_token) mact" where
  "find_candidate now args =
     bnd (get_db (\<lambda>d. find (\<lambda>t. tk_candidate t = Some (args_candidate args)) (mam_tokens d))) (\<lambda>found.
       case found of
         Some token \<Rightarrow> ret (200, token)
       | None \<Rightarrow>
           bnd (add_token_candidate now (args_candidate args) (args_scope args) None) (\<lambda>token.
             case token of
               None \<Rightarrow> throw (HTTPException 400)
             | Some token \<Rightarrow> ret (201, token)))"

definition activate_token ::
  "time \<Rightarrow> uuid \<Rightarrow> activate_args \<Rightarrow> mam_token \<Rightarrow> (('j, 'w) mgmt, unit) mact" where
  "activate_token now uid args token =
     bnd (if tk_scope token \<noteq> args_scope args then throw (HTTPException 400) else activate now token) (\<lambda>token.
     bnd (for_some (args_ip args) (wg_after_activation now token)) (\<lambda>_.
       for_some (args_name args) (probe_after_activation uid token)))"

text \<open>After a failed commit: the conflicts an administrator can resolve are named.\<close>

definition activation_error :: "activate_args \<Rightarrow> int \<Rightarrow> 'j mgmt_db \<Rightarrow> mgmt_error" where
  "activation_error args i d =
     (case Option.bind (args_ip args) (\<lambda>ip. wg_activation_error i ip d) of
        Some e \<Rightarrow> e
      | None \<Rightarrow>
          (case Option.bind (args_name args) (\<lambda>name. probe_activation_error i name d) of
             Some e \<Rightarrow> e
           | None \<Rightarrow> Mg_IntegrityError))"

definition commit_activation ::
  "activate_args \<Rightarrow> 'j mgmt_db \<Rightarrow> int \<times> mam_token \<Rightarrow> (('j, 'w) mgmt, int) mact" where
  "commit_activation args before r =
     bnd (get_db schema_ok) (\<lambda>ok.
       if ok then ret (fst r) else throw (activation_error args (tk_id (snd r)) before))"

definition token_activate ::
  "time \<Rightarrow> uuid \<Rightarrow> mgmt_error + string \<Rightarrow> activate_args \<Rightarrow> (('j, 'w) mgmt, int) mact" where
  "token_activate now uid basic_auth args =
     bnd (of_result basic_auth) (\<lambda>_.
     bnd (validate (token_type_ok (args_candidate args))) (\<lambda>_.
     transaction
       (bnd (get_db id) (\<lambda>before.
        bnd (find_candidate now args) (\<lambda>r.
        bnd (activate_token now uid args (snd r)) (\<lambda>_.
          commit_activation args before r))))))"

section \<open>WireGuard registration\<close>

definition get_client_ip ::
  "bool \<Rightarrow> (string \<Rightarrow> string option) \<Rightarrow> string option \<Rightarrow> string option \<Rightarrow> mgmt_error + string" where
  "get_client_ip behind_proxy parse client_host x_real_ip =
     (case (if behind_proxy then x_real_ip else client_host) of
        None \<Rightarrow> Inl (HTTPException 400)
      | Some ip \<Rightarrow> (case parse ip of None \<Rightarrow> Inl (HTTPException 400) | Some a \<Rightarrow> Inr a))"

record register_req =
  rr_publickey :: string
  rr_mac :: string

record wg_settings =
  wgs_endpoint :: string
  wgs_public_key :: string
  wgs_allowed_ips :: string
  wgs_dns :: string

record wg_config =
  wgc_ip :: string
  wgc_endpoint :: string
  wgc_endpoint_publickey :: string
  wgc_allowed_ips :: string
  wgc_dns :: string

definition wg_answer :: "wg_settings \<Rightarrow> wg_row \<Rightarrow> wg_config" where
  "wg_answer cfg wg =
     \<lparr>wgc_ip = wg_ip wg, wgc_endpoint = wgs_endpoint cfg, wgc_endpoint_publickey = wgs_public_key cfg,
      wgc_allowed_ips = wgs_allowed_ips cfg, wgc_dns = wgs_dns cfg\<rparr>"

definition log_config_attempt ::
  "time \<Rightarrow> string option \<Rightarrow> mam_token \<Rightarrow> string \<Rightarrow> bool \<Rightarrow> string option \<Rightarrow> 'j mgmt_db \<Rightarrow> 'j mgmt_db" where
  "log_config_attempt now ip token publickey successful mac d =
     d\<lparr>wg_logs := wg_logs d @
       [\<lparr>wl_mac = mac, wl_token = the (token_value token), wl_publickey = publickey,
         wl_register_time = now, wl_ip = ip, wl_successful = successful\<rparr>]\<rparr>"

definition mark_successful :: "nat \<Rightarrow> 'j mgmt_db \<Rightarrow> 'j mgmt_db" where
  "mark_successful k d =
     d\<lparr>wg_logs := (wg_logs d)[k := (wg_logs d ! k)\<lparr>wl_successful := True\<rparr>]\<rparr>"

definition set_peer :: "time \<Rightarrow> mam_token \<Rightarrow> register_req \<Rightarrow> nat \<Rightarrow> 'j mgmt_db \<Rightarrow> 'j mgmt_db" where
  "set_peer now token reg k d =
     mark_successful k
       (update_token (tk_id token) (\<lambda>t. if tk_mac t = None then t\<lparr>tk_mac := Some (rr_mac reg)\<rparr> else t)
         (update_wg (tk_id token)
           (\<lambda>w. w\<lparr>wg_publickey := Some (rr_publickey reg), wg_allow_registration := False,
                  wg_register_time := now\<rparr>) d))"

text \<open>The second transaction; \<open>k\<close> is the index of the log entry the first one wrote.\<close>

definition register_peer ::
  "'w wg_env \<Rightarrow> wg_settings \<Rightarrow> time \<Rightarrow> mam_token \<Rightarrow> register_req \<Rightarrow> nat \<Rightarrow> (('j, 'w) mgmt, wg_config) mact" where
  "register_peer env cfg now token reg k =
     bnd (get_db (wg_of (tk_id token))) (\<lambda>config.
       case config of
         None \<Rightarrow> throw (HTTPException 403)
       | Some wg \<Rightarrow>
           if \<not> wg_allow_registration wg then throw (HTTPException 403)
           else
             bnd (wg_add_peer env (rr_publickey reg) (wg_ip wg)) (\<lambda>_.
             bnd (set_db (set_peer now token reg k)) (\<lambda>_.
             bnd flush (\<lambda>_. ret (wg_answer cfg wg)))))"

text \<open>A token without configuration is deleted, and that is committed.\<close>

definition drop_orphan :: "mam_token \<Rightarrow> (('j, 'w) mgmt, unit) mact" where
  "drop_orphan token =
     bnd (get_db (wg_of (tk_id token))) (\<lambda>config.
       if config = None then transaction (bnd (set_db (delete_row token)) (\<lambda>_. flush)) else ret ())"

definition wireguard_register ::
  "'w wg_env \<Rightarrow> wg_settings \<Rightarrow> time \<Rightarrow> string \<Rightarrow> mgmt_error + string \<Rightarrow> register_req \<Rightarrow>
    (('j, 'w) mgmt, wg_config) mact" where
  "wireguard_register env cfg now creds client_ip reg =
     bnd (bearer_token now Scope_Wireguard creds) (\<lambda>token.
     bnd (of_result client_ip) (\<lambda>ip.
     bnd (validate (is_ascii (rr_publickey reg) \<and> b64decode (rr_publickey reg) \<noteq> None \<and> mac_ok (rr_mac reg))) (\<lambda>_.
     bnd (get_db (\<lambda>d. length (wg_logs d))) (\<lambda>k.
     bnd (set_db (log_config_attempt now (Some ip) token (rr_publickey reg) False (Some (rr_mac reg)))) (\<lambda>_.
     bnd (drop_orphan token) (\<lambda>_.
       transaction (register_peer env cfg now token reg k)))))))"

section \<open>Invariants\<close>

text \<open>
  What the application preserves on top of the schema: an active token's value is its candidate's,
  and the WireGuard configurations and the probes belong to exactly the active tokens whose
  scope has them.
\<close>

definition active_ids :: "scope \<Rightarrow> 'j mgmt_db \<Rightarrow> int set" where
  "active_ids sc d = tk_id ` {t \<in> set (mam_tokens d). tk_token t \<noteq> None \<and> scope_in sc (tk_scope t)}"

lemma active_ids_code:
  "active_ids sc d =
     set (map tk_id (filter (\<lambda>t. tk_token t \<noteq> None \<and> scope_in sc (tk_scope t)) (mam_tokens d)))"
  by (simp add: active_ids_def)

definition mam_ok :: "'j mgmt_db \<Rightarrow> bool" where
  "mam_ok d \<longleftrightarrow>
     distinct (map tk_id (mam_tokens d)) \<and> (\<forall>t \<in> set (mam_tokens d). tk_id t < mg_next d) \<and>
     (\<forall>t \<in> set (mam_tokens d). tk_candidate t \<noteq> None \<and> (tk_token t \<noteq> None \<longrightarrow> tk_token t = tk_candidate t)) \<and>
     wg_token_id ` set (wg_rows d) = active_ids Scope_Wireguard d \<and>
     pr_token_id ` set (mg_probes d) = active_ids Scope_Probe d"

definition mgmt_ok :: "'j mgmt_db \<Rightarrow> bool" where
  "mgmt_ok d \<longleftrightarrow> mam_ok d \<and> schema_ok d"

text \<open>
  \<open>preserves P m\<close>: whatever \<open>m\<close> returns, \<open>P\<close> holds afterwards; \<open>preserves_ok\<close>: if it returns normally,
  which is enough inside a transaction.
\<close>

definition preserves :: "('j mgmt_db \<Rightarrow> bool) \<Rightarrow> (('j, 'w) mgmt, 'a) mact \<Rightarrow> bool" where
  "preserves P m \<longleftrightarrow> (\<forall>s. P (mg_db s) \<longrightarrow> P (mg_db (snd (m s))))"

definition preserves_ok :: "('j mgmt_db \<Rightarrow> bool) \<Rightarrow> (('j, 'w) mgmt, 'a) mact \<Rightarrow> bool" where
  "preserves_ok P m \<longleftrightarrow> (\<forall>s x s'. P (mg_db s) \<longrightarrow> m s = (Inr x, s') \<longrightarrow> P (mg_db s'))"

named_theorems preserves "operations that keep an invariant of the management database"

lemma keepsD: "preserves P m \<Longrightarrow> P (mg_db s) \<Longrightarrow> m s = (r, s') \<Longrightarrow> P (mg_db s')"
  unfolding preserves_def by (metis snd_conv)

lemma keeps_okI: "(\<And>s x s'. P (mg_db s) \<Longrightarrow> m s = (Inr x, s') \<Longrightarrow> P (mg_db s')) \<Longrightarrow> preserves_ok P m"
  unfolding preserves_ok_def by blast

lemma keeps_okD: "preserves_ok P m \<Longrightarrow> P (mg_db s) \<Longrightarrow> m s = (Inr x, s') \<Longrightarrow> P (mg_db s')"
  unfolding preserves_ok_def by blast

lemma keeps_transaction [preserves]: "preserves_ok P m \<Longrightarrow> preserves P (transaction m)"
  by (fastforce simp: preserves_def preserves_ok_def transaction_def split: prod.splits sum.splits)

lemma keeps_bnd [preserves]: "preserves P m \<Longrightarrow> (\<And>x. preserves P (f x)) \<Longrightarrow> preserves P (bnd m f)"
  by (fastforce simp: preserves_def bnd_def split: prod.splits sum.splits)

lemma keeps_pure [preserves]:
  "preserves P (ret x)" "preserves P (throw e)" "preserves P (get_db g)" "preserves P (of_result r)"
  "preserves P (validate ok)"
  by (simp_all add: preserves_def of_result_def validate_def)

lemma keeps_ok_keeps: "preserves P m \<Longrightarrow> preserves_ok P m"
  unfolding preserves_def preserves_ok_def by (metis snd_conv)

lemma keeps_ok_bnd: "preserves_ok P m \<Longrightarrow> (\<And>x. preserves_ok P (f x)) \<Longrightarrow> preserves_ok P (bnd m f)"
  unfolding preserves_ok_def bnd_Inr by blast

lemma keeps_set_db: "(\<And>d. P d \<Longrightarrow> P (f d)) \<Longrightarrow> preserves P (set_db f)"
  by (simp add: preserves_def)

lemma flush_Inr: "flush s = (Inr x, s') \<longleftrightarrow> schema_ok (mg_db s) \<and> s' = s"
  by (auto simp: flush_def)

lemma wg_call_db [simp]: "mg_db (snd (wg_call env meth path body s)) = mg_db s"
  by (simp add: wg_call_def split: prod.splits option.splits)

lemma keeps_wg_call [preserves]: "preserves P (wg_call env meth path body)"
  by (simp add: preserves_def)

lemma keeps_wg [preserves]: "preserves P (wg_add_peer env pk ip)" "preserves P (wg_remove_peer env pk)"
  unfolding wg_add_peer_def wg_remove_peer_def by (intro preserves)+

lemma keeps_wg_before_deletion [preserves]: "preserves P (wg_before_deletion env t)"
  unfolding wg_before_deletion_def by (intro preserves) (simp split: option.split add: preserves)

lemma log_entry_ok:
  assumes "mgmt_ok d" "ml_token_id l = None \<or> (\<exists>t \<in> set (mam_tokens d). ml_token_id l = Some (tk_id t))"
  shows "mgmt_ok (add_log l d)"
proof -
  have same: "mam_ok (add_log l d) \<longleftrightarrow> mam_ok d"
    by (simp add: mam_ok_def add_log_def active_ids_def)
  have "refs [ml_token_id l] (map tk_id (mam_tokens d))" using assms(2) by auto
  with assms(1) show ?thesis unfolding mgmt_ok_def same by (simp add: schema_ok_def add_log_def)
qed

lemma check_token_Inr:
  "check_token creds sc d = Inr t \<Longrightarrow>
     t \<in> set (mam_tokens d) \<and> tk_token t = Some creds \<and> scope_in sc (tk_scope t)"
  by (auto simp: check_token_def validate_token_def result_simps find_Some_iff
      split: option.splits if_splits)

lemma keeps_bearer [preserves]: "preserves mgmt_ok (bearer_token now sc creds)"
proof -
  have "mgmt_ok (mg_db s')"
    if "mgmt_ok (mg_db s)" and r: "bnd (get_db (check_token creds sc)) (\<lambda>r. bnd (of_result r) (\<lambda>token.
        bnd (set_db (add_log \<lparr>ml_token_id = Some (tk_id token), ml_value = the (token_value token),
               ml_scope = sc, ml_time = now, ml_action = A_Access\<rparr>)) (\<lambda>_. ret token))) s = (Inr x, s')"
    for s s' :: "('a, 'b) mgmt" and x
  proof -
    from r have c: "check_token creds sc (mg_db s) = Inr x" and s': "mg_db s' =
        add_log \<lparr>ml_token_id = Some (tk_id x), ml_value = the (token_value x),
               ml_scope = sc, ml_time = now, ml_action = A_Access\<rparr> (mg_db s)"
      by (auto simp: bnd_def of_result_def split: sum.splits)
    from check_token_Inr [OF c] that(1) show ?thesis unfolding s' by (intro log_entry_ok) auto
  qed
  then show ?thesis unfolding bearer_token_def by (intro keeps_transaction keeps_okI)
qed

lemma keeps_cases [preserves]:
  "(c \<Longrightarrow> preserves P m) \<Longrightarrow> (\<not> c \<Longrightarrow> preserves P n) \<Longrightarrow> preserves P (if c then m else n)"
  by simp

lemma keeps_ok_flush: "preserves mam_ok m \<Longrightarrow> preserves_ok mgmt_ok (bnd m (\<lambda>_. flush))"
  by (rule keeps_okI) (auto simp: bnd_Inr flush_Inr mgmt_ok_def dest: keepsD)

lemma keeps_add_candidate [preserves]: "preserves mgmt_ok (add_token_candidate now cand sc mac)"
proof -
  have "mam_ok (d\<lparr>mam_tokens := mam_tokens d @ [t], mam_logs := ls, mg_next := mg_next d + 1\<rparr>)"
    if "mam_ok d" "tk_id t = mg_next d" "tk_token t = None" "tk_candidate t = Some cand"
    for d :: "'a mgmt_db" and t ls
  proof -
    have "mg_next d \<notin> tk_id ` set (mam_tokens d)" using that(1) by (auto simp: mam_ok_def)
    moreover have "active_ids sc (d\<lparr>mam_tokens := mam_tokens d @ [t], mam_logs := ls,
        mg_next := mg_next d + 1\<rparr>) = active_ids sc d" for sc
      using that(3) by (auto simp: active_ids_def)
    ultimately show ?thesis using that by (auto simp: mam_ok_def)
  qed
  then show ?thesis by (simp add: preserves_def add_token_candidate_def mgmt_ok_def Let_def)
qed

lemma prune_mam_ok: "mam_ok d \<Longrightarrow>
  mam_ok (d\<lparr>mam_tokens := filter (\<lambda>t. \<not> (tk_token t = None \<and> tk_id t \<in> A)) (mam_tokens d)\<rparr>)"
proof -
  assume ok: "mam_ok d"
  have "active_ids sc (d\<lparr>mam_tokens := filter (\<lambda>t. \<not> (tk_token t = None \<and> tk_id t \<in> A)) (mam_tokens d)\<rparr>) =
      active_ids sc d" for sc
    unfolding active_ids_def by (rule arg_cong [where f = "image tk_id"]) auto
  with ok show ?thesis by (auto simp: mam_ok_def distinct_map_filter)
qed

lemma keeps_prune: "preserves_ok mgmt_ok prune_candidates"
  unfolding prune_candidates_def
  by (rule keeps_okI) (clarsimp simp: flush_Inr mgmt_ok_def prune_mam_ok simp del: de_Morgan_conj not_None_eq)

lemma keeps_register [preserves]: "preserves mgmt_ok (token_register now reg)"
proof -
  have "preserves_ok mgmt_ok (if c \<noteq> None then bnd prune_candidates (\<lambda>_. ret 201) else ret 200)"
    for c :: "mam_token option"
    by (rule keeps_okI) (auto split: if_splits dest: keeps_okD [OF keeps_prune] simp: bnd_Inr)
  then show ?thesis
    unfolding token_register_def
    by (intro preserves keeps_ok_bnd [OF keeps_ok_keeps])
qed

lemma active_ids_delete [simp]:
  "active_ids sc (delete_row t d) = active_ids sc d - {tk_id t}"
  by (auto simp: active_ids_def delete_row_def Let_def)

lemma keeps_delete_row: "mam_ok d \<Longrightarrow> mam_ok (delete_row t d)"
proof -
  assume ok: "mam_ok d"
  have "wg_token_id ` set (wg_rows (delete_row t d)) = wg_token_id ` set (wg_rows d) - {tk_id t}"
    "pr_token_id ` set (mg_probes (delete_row t d)) = pr_token_id ` set (mg_probes d) - {tk_id t}"
    by (auto simp: delete_row_def Let_def)
  moreover have "\<And>u. u \<in> set (mam_tokens (delete_row t d)) \<Longrightarrow> u \<in> set (mam_tokens d)"
    "distinct (map tk_id (mam_tokens (delete_row t d)))" "mg_next (delete_row t d) = mg_next d"
    using ok by (auto simp: delete_row_def Let_def distinct_map_filter mam_ok_def)
  ultimately show ?thesis
    using ok unfolding mam_ok_def active_ids_delete by (elim conjE) (intro conjI ballI; simp)
qed

lemma keeps_delete_all: "preserves mam_ok (delete_all env now ts)"
proof (induction ts)
  case (Cons t ts)
  have "preserves mam_ok (delete_one env now t)"
    unfolding delete_one_def
    by (intro preserves keeps_set_db keeps_delete_row) (auto simp: mam_ok_def add_log_def active_ids_def)
  with Cons show ?case unfolding delete_all.simps by (intro preserves)
qed (simp add: preserves_def)

lemma keeps_ok_delete: "preserves_ok mgmt_ok (bnd (delete_token env now v) (\<lambda>_. flush))"
  unfolding delete_token_def by (intro keeps_ok_flush preserves keeps_delete_all)

lemma keeps_deactivate [preserves]: "preserves mgmt_ok (token_deactivate env now auth v)"
  unfolding token_deactivate_def by (intro preserves keeps_ok_delete)

lemma keeps_revoke [preserves]: "preserves mgmt_ok (revoke env now creds)"
proof -
  have "preserves_ok mgmt_ok (case tk_token t of None \<Rightarrow> throw Mg_AssertionError
      | Some v \<Rightarrow> bnd (delete_token env now v) (\<lambda>_. flush))" for t
    by (cases "tk_token t") (simp_all add: keeps_ok_delete keeps_ok_keeps preserves)
  then show ?thesis unfolding revoke_def by (intro preserves)
qed

section \<open>Activation and registration keep them\<close>

lemma find_candidate_Inr:
  assumes "find_candidate now args s = (Inr (st, t), s')" "mgmt_ok (mg_db s)"
  shows "mgmt_ok (mg_db s') \<and> t \<in> set (mam_tokens (mg_db s')) \<and> tk_candidate t = Some (args_candidate args)"
proof (cases "find (\<lambda>t. tk_candidate t = Some (args_candidate args)) (mam_tokens (mg_db s))")
  case (Some u)
  with assms show ?thesis by (auto simp: find_candidate_def dest: find_SomeD)
next
  case None
  with assms(1) have add: "add_token_candidate now (args_candidate args) (args_scope args) None s = (Inr (Some t), s')"
    by (auto simp: find_candidate_def bnd_def split: prod.splits sum.splits option.splits)
  from keepsD [OF keeps_add_candidate assms(2) this] add show ?thesis
    by (auto simp: add_token_candidate_def Let_def split: if_splits)
qed

lemma wg_after_activation_effect:
  "\<exists>s'. wg_after_activation now t ip s = (Inr (), s') \<and>
     mam_tokens (mg_db s') = mam_tokens (mg_db s) \<and> mg_probes (mg_db s') = mg_probes (mg_db s) \<and>
     mg_next (mg_db s') = mg_next (mg_db s) \<and>
     wg_token_id ` set (wg_rows (mg_db s')) = insert (tk_id t) (wg_token_id ` set (wg_rows (mg_db s)))"
proof (cases "wg_of (tk_id t) (mg_db s)")
  case None
  then show ?thesis by (simp add: wg_after_activation_def)
next
  case (Some w)
  then have "find (\<lambda>w. wg_token_id w = tk_id t) (wg_rows (mg_db s)) = Some w" by (simp add: wg_of_def)
  from find_SomeD [OF this] have mem: "tk_id t \<in> wg_token_id ` set (wg_rows (mg_db s))"
    by (intro image_eqI [of _ _ w]) simp_all
  let ?g = "\<lambda>w. if wg_token_id w = tk_id t then w\<lparr>wg_ip := ip, wg_allow_registration := True\<rparr> else w"
  have "wg_token_id ` set (map ?g (wg_rows (mg_db s))) = wg_token_id ` set (wg_rows (mg_db s))"
    unfolding set_map image_image by (rule image_cong) simp_all
  also have "\<dots> = insert (tk_id t) (wg_token_id ` set (wg_rows (mg_db s)))" using mem by (rule insert_absorb [symmetric])
  finally have ids: "wg_token_id ` set (map ?g (wg_rows (mg_db s))) =
      insert (tk_id t) (wg_token_id ` set (wg_rows (mg_db s)))" .
  have "wg_after_activation now t ip s =
      (Inr (), s\<lparr>mg_db := (mg_db s)\<lparr>wg_rows := map ?g (wg_rows (mg_db s))\<rparr>\<rparr>)"
    using Some by (simp only: wg_after_activation_def mact_simps option.case update_wg_def)
  with ids show ?thesis by simp
qed

lemma activate_effect:
  assumes "tk_candidate t \<noteq> None"
  shows "\<exists>l. activate now t s = (Inr (t\<lparr>tk_token := tk_candidate t\<rparr>),
    s\<lparr>mg_db := add_log l (update_token (tk_id t) (\<lambda>_. t\<lparr>tk_token := tk_candidate t\<rparr>) (mg_db s))\<rparr>)"
  using assms by (auto simp: activate_def Let_def)

text \<open>What activation makes of the database: the token becomes active, with its rows.\<close>

definition activated :: "mam_token \<Rightarrow> 'j mgmt_db \<Rightarrow> 'j mgmt_db \<Rightarrow> bool" where
  "activated t d d' \<longleftrightarrow>
     mam_tokens d' = map (\<lambda>v. if tk_id v = tk_id t then t\<lparr>tk_token := tk_candidate t\<rparr> else v) (mam_tokens d) \<and>
     mg_next d' = mg_next d \<and>
     wg_token_id ` set (wg_rows d') =
       (if scope_in Scope_Wireguard (tk_scope t) then insert (tk_id t) else id) (wg_token_id ` set (wg_rows d)) \<and>
     pr_token_id ` set (mg_probes d') =
       (if scope_in Scope_Probe (tk_scope t) then insert (tk_id t) else id) (pr_token_id ` set (mg_probes d))"

lemma activate_token_effect:
  assumes "activate_token now uid args t s = (Inr u, s')" "tk_candidate t \<noteq> None"
  shows "activated t (mg_db s) (mg_db s')"
proof -
  from activate_effect [OF assms(2)] obtain l where
    act: "activate now t s = (Inr (t\<lparr>tk_token := tk_candidate t\<rparr>),
      s\<lparr>mg_db := add_log l (update_token (tk_id t) (\<lambda>_. t\<lparr>tk_token := tk_candidate t\<rparr>) (mg_db s))\<rparr>)" by blast
  let ?t = "t\<lparr>tk_token := tk_candidate t\<rparr>"
  let ?s = "s\<lparr>mg_db := add_log l (update_token (tk_id t) (\<lambda>_. ?t) (mg_db s))\<rparr>"
  have sc: "tk_scope t = args_scope args"
    using assms(1) by (auto simp: activate_token_def bnd_def split: if_splits)
  with assms(1) act have run: "bnd (for_some (args_ip args) (wg_after_activation now ?t)) (\<lambda>_.
      for_some (args_name args) (probe_after_activation uid ?t)) ?s = (Inr u, s')"
    by (simp add: activate_token_def bnd_cases)
  have base: "mam_tokens (mg_db ?s) = map (\<lambda>v. if tk_id v = tk_id t then ?t else v) (mam_tokens (mg_db s))"
    "mg_next (mg_db ?s) = mg_next (mg_db s)" "wg_rows (mg_db ?s) = wg_rows (mg_db s)"
    "mg_probes (mg_db ?s) = mg_probes (mg_db s)"
    by (simp_all add: add_log_def update_token_def)
  show ?thesis
  proof (cases "args_ip args")
    case None
    with run sc base show ?thesis
      by (cases args) (auto simp: for_some_def activated_def probe_after_activation_def)
  next
    case (Some ip)
    from wg_after_activation_effect [of now ?t ip ?s] obtain s1 where
      wg: "wg_after_activation now ?t ip ?s = (Inr (), s1)"
      "mam_tokens (mg_db s1) = mam_tokens (mg_db ?s)" "mg_probes (mg_db s1) = mg_probes (mg_db ?s)"
      "mg_next (mg_db s1) = mg_next (mg_db ?s)"
      "wg_token_id ` set (wg_rows (mg_db s1)) = insert (tk_id t) (wg_token_id ` set (wg_rows (mg_db ?s)))"
      by auto
    from run Some wg(1) have "for_some (args_name args) (probe_after_activation uid ?t) s1 = (Inr u, s')"
      by (simp add: for_some_def bnd_cases)
    with Some sc base wg(2-5) show ?thesis
      by (cases args) (auto simp: for_some_def activated_def probe_after_activation_def)
  qed
qed

lemma activated_mam_ok:
  assumes "mam_ok d" "t \<in> set (mam_tokens d)" "tk_candidate t \<noteq> None" "activated t d d'"
  shows "mam_ok d'"
proof -
  let ?g = "\<lambda>v. if tk_id v = tk_id t then t\<lparr>tk_token := tk_candidate t\<rparr> else v"
  from assms(4) have toks: "mam_tokens d' = map ?g (mam_tokens d)" by (simp add: activated_def)
  have ids: "tk_id (?g v) = tk_id v" for v by simp
  then have dist: "map tk_id (mam_tokens d') = map tk_id (mam_tokens d)" unfolding toks by simp
  have act: "active_ids sc d' = (if scope_in sc (tk_scope t) then insert (tk_id t) else id) (active_ids sc d)" for sc
  proof -
    let ?t = "t\<lparr>tk_token := tk_candidate t\<rparr>"
    have "v = t" if "v \<in> set (mam_tokens d)" "tk_id v = tk_id t" for v
      using assms(1,2) that by (auto simp: mam_ok_def distinct_map dest: inj_onD)
    then have "set (mam_tokens d') = insert ?t (set (mam_tokens d) - {t})"
      unfolding toks using assms(2) by auto
    moreover have "tk_token ?t \<noteq> None" "tk_scope ?t = tk_scope t" "tk_id ?t = tk_id t" using assms(3) by simp_all
    moreover have img: "tk_id ` {v \<in> insert ?t (A - {t}). P v} =
        (if P ?t then insert (tk_id t) else id) (tk_id ` {v \<in> A. P v})"
      if "t \<in> A" "P t \<Longrightarrow> P ?t" for A P
    proof -
      have "{v \<in> insert ?t (A - {t}). P v} = (if P ?t then insert ?t else id) {v \<in> A - {t}. P v}" by auto
      moreover have "insert (tk_id t) (tk_id ` {v \<in> A - {t}. P v}) = insert (tk_id t) (tk_id ` {v \<in> A. P v})" by blast
      moreover have "{v \<in> A - {t}. P v} = {v \<in> A. P v}" if "\<not> P ?t" using that \<open>P t \<Longrightarrow> P ?t\<close> by blast
      ultimately show ?thesis by simp
    qed
    ultimately show ?thesis
      using img [of "set (mam_tokens d)" "\<lambda>v. tk_token v \<noteq> None \<and> scope_in sc (tk_scope v)"] assms(2)
      unfolding active_ids_def by simp
  qed
  have rows: "wg_token_id ` set (wg_rows d') = active_ids Scope_Wireguard d'"
    "pr_token_id ` set (mg_probes d') = active_ids Scope_Probe d'"
    using assms(1,4) unfolding act by (simp_all only: mam_ok_def activated_def)
  have "tk_id v < mg_next d'" "tk_candidate v \<noteq> None"
    "tk_token v \<noteq> None \<longrightarrow> tk_token v = tk_candidate v" if "v \<in> set (mam_tokens d')" for v
    using assms that unfolding toks by (auto simp: mam_ok_def activated_def)
  moreover have "distinct (map tk_id (mam_tokens d))" using assms(1) by (simp only: mam_ok_def)
  ultimately show ?thesis unfolding mam_ok_def dist by (intro conjI ballI rows)
qed

lemma keeps_activate [preserves]: "preserves mgmt_ok (token_activate now uid auth args)"
proof -
  have "mgmt_ok (mg_db s')"
    if ok: "mgmt_ok (mg_db s)" and run: "bnd (get_db id) (\<lambda>before. bnd (find_candidate now args) (\<lambda>r.
        bnd (activate_token now uid args (snd r)) (\<lambda>_. commit_activation args before r))) s = (Inr x, s')"
    for s s' :: "('a, 'b) mgmt" and x
  proof -
    from run obtain st t s1 u where
      f: "find_candidate now args s = (Inr (st, t), s1)"
      and a: "activate_token now uid args t s1 = (Inr u, s')"
      and c: "schema_ok (mg_db s')"
      by (auto simp: bnd_Inr commit_activation_def split: if_splits)
    from find_candidate_Inr [OF f ok] have t: "mgmt_ok (mg_db s1)" "t \<in> set (mam_tokens (mg_db s1))"
      "tk_candidate t \<noteq> None" by auto
    from activated_mam_ok [OF _ t(2,3) activate_token_effect [OF a t(3)]] t(1) c show ?thesis
      by (simp add: mgmt_ok_def)
  qed
  then show ?thesis unfolding token_activate_def by (intro preserves keeps_okI)
qed

lemma map_same: "(\<And>x. f (g x) = f x) \<Longrightarrow> map f (map g xs) = map f xs"
  by simp

text \<open>Rows rewritten in columns the invariant does not look at.\<close>

lemma mam_ok_rewrite:
  assumes "mam_ok d" "mam_tokens d' = map g (mam_tokens d)" "wg_rows d' = map h (wg_rows d)"
    "mg_probes d' = mg_probes d" "mg_next d' = mg_next d"
    and g: "\<And>t. tk_id (g t) = tk_id t" "\<And>t. tk_token (g t) = tk_token t"
      "\<And>t. tk_candidate (g t) = tk_candidate t" "\<And>t. tk_scope (g t) = tk_scope t"
    and h: "\<And>w. wg_token_id (h w) = wg_token_id w"
  shows "mam_ok d'"
proof -
  have "{t \<in> g ` A. Q t} = g ` {t \<in> A. Q t}" if "\<And>t. Q (g t) = Q t" for A Q
    using that by blast
  from this [of "\<lambda>t. tk_token t \<noteq> None \<and> scope_in sc (tk_scope t)" for sc]
  have act: "active_ids sc d' = active_ids sc d" for sc
    unfolding active_ids_def assms(2) set_map by (simp only: g image_image)
  have "wg_token_id ` set (wg_rows d') = wg_token_id ` set (wg_rows d)"
    unfolding assms(3) set_map by (simp only: image_image h)
  moreover have "map tk_id (mam_tokens d') = map tk_id (mam_tokens d)"
    unfolding assms(2) by (rule map_same) (rule g)
  moreover have "tk_id u < mg_next d \<and> tk_candidate u \<noteq> None \<and> (tk_token u \<noteq> None \<longrightarrow> tk_token u = tk_candidate u)"
    if "u \<in> set (mam_tokens d')" for u
  proof -
    from that assms(2) obtain v where "u = g v" "v \<in> set (mam_tokens d)" by auto
    with assms(1) g show ?thesis unfolding mam_ok_def by simp
  qed
  ultimately show ?thesis
    using assms(1) unfolding mam_ok_def act assms(4,5) by (elim conjE) (intro conjI ballI; simp)
qed

lemma set_peer_mam_ok: "mam_ok d \<Longrightarrow> mam_ok (set_peer now t reg k d)"
  by (erule mam_ok_rewrite [where
        g = "\<lambda>u. if tk_id u = tk_id t then (if tk_mac u = None then u\<lparr>tk_mac := Some (rr_mac reg)\<rparr> else u) else u"
        and h = "\<lambda>w. if wg_token_id w = tk_id t
          then w\<lparr>wg_publickey := Some (rr_publickey reg), wg_allow_registration := False,
                 wg_register_time := now\<rparr> else w"])
    (simp_all add: set_peer_def mark_successful_def update_token_def update_wg_def)

lemma keeps_wireguard_register [preserves]:
  "preserves mgmt_ok (wireguard_register env cfg now creds client_ip reg)"
proof -
  have peer: "preserves_ok mgmt_ok (register_peer env cfg now t reg k)" for t k
  proof (rule keeps_okI)
    fix s s' c
    assume ok: "mgmt_ok (mg_db s)" and run: "register_peer env cfg now t reg k s = (Inr c, s')"
    from run obtain ip s1 where
      "wg_add_peer env (rr_publickey reg) ip s = (Inr (), s1)"
      "mg_db s' = set_peer now t reg k (mg_db s1)" "schema_ok (mg_db s')"
      by (auto simp: register_peer_def bnd_Inr flush_Inr split: option.splits if_splits)
    with keepsD [where P = mam_ok, OF keeps_wg(1)] ok show "mgmt_ok (mg_db s')"
      unfolding mgmt_ok_def by (metis set_peer_mam_ok)
  qed
  have drop: "preserves mgmt_ok (drop_orphan t)" for t :: mam_token
    unfolding drop_orphan_def by (intro preserves keeps_ok_flush keeps_set_db keeps_delete_row)
  have log: "mgmt_ok d \<Longrightarrow> mgmt_ok (log_config_attempt now ip t pk b mac d)" for d :: "'a mgmt_db" and ip t pk b mac
    by (simp add: mgmt_ok_def mam_ok_def schema_ok_def active_ids_def log_config_attempt_def)
  show ?thesis
    unfolding wireguard_register_def
    by (intro preserves peer drop keeps_set_db log)
qed

section \<open>Properties\<close>

lemma distinct_somes_inj:
  "distinct_somes (map f xs) \<Longrightarrow> x \<in> set xs \<Longrightarrow> y \<in> set xs \<Longrightarrow> f x = f y \<Longrightarrow> f x \<noteq> None \<Longrightarrow> x = y"
  by (induction xs) (auto simp: distinct_somes_def split: if_splits, (metis image_eqI)+)

lemma active_token_unique:
  assumes "schema_ok d" "t \<in> set (mam_tokens d)" "u \<in> set (mam_tokens d)"
    "tk_token t = Some v" "tk_token u = Some v"
  shows "t = u"
  using assms distinct_somes_inj [of tk_token "mam_tokens d" t u] by (simp add: schema_ok_def)

lemma bearer_cases:
  obtains t l where "check_token creds sc (mg_db s) = Inr t"
    "bearer_token now sc creds s = (Inr t, s\<lparr>mg_db := add_log l (mg_db s)\<rparr>)"
  | e where "check_token creds sc (mg_db s) = Inl e" "bearer_token now sc creds s = (Inl e, s)"
proof (cases "check_token creds sc (mg_db s)")
  case (Inl e)
  then show thesis by (intro that(2)) (simp_all add: bearer_token_def transaction_def bnd_def of_result_def)
next
  case (Inr t)
  then show thesis by (intro that(1)) (simp_all add: bearer_token_def transaction_def bnd_def of_result_def)
qed

lemma wg_logs_add_log [simp]: "wg_logs (add_log l d) = wg_logs d"
  by (simp add: add_log_def)

lemma wg_of_add_log [simp]: "wg_of i (add_log l d) = wg_of i d"
  by (simp add: wg_of_def add_log_def)

lemma wg_of_log_attempt [simp]: "wg_of i (log_config_attempt now ip t pk b mac d) = wg_of i d"
  by (simp add: wg_of_def log_config_attempt_def)

lemma wg_of_set_peer:
  "wg_of (tk_id t) (set_peer now t reg k d) =
     map_option (\<lambda>w. w\<lparr>wg_publickey := Some (rr_publickey reg), wg_allow_registration := False,
       wg_register_time := now\<rparr>) (wg_of (tk_id t) d)"
proof -
  let ?h = "\<lambda>w. if wg_token_id w = tk_id t then w\<lparr>wg_publickey := Some (rr_publickey reg),
      wg_allow_registration := False, wg_register_time := now\<rparr> else w"
  have "find (\<lambda>w. wg_token_id w = tk_id t) (map ?h (wg_rows d)) =
      map_option ?h (find (\<lambda>w. wg_token_id w = tk_id t) (wg_rows d))"
    by (rule find_map_same) simp
  also have "\<dots> = map_option (\<lambda>w. w\<lparr>wg_publickey := Some (rr_publickey reg),
      wg_allow_registration := False, wg_register_time := now\<rparr>) (find (\<lambda>w. wg_token_id w = tk_id t) (wg_rows d))"
    by (cases "find (\<lambda>w. wg_token_id w = tk_id t) (wg_rows d)") (auto dest: find_SomeD)
  finally show ?thesis
    by (simp add: wg_of_def set_peer_def mark_successful_def update_token_def update_wg_def)
qed

text \<open>A token in use always has its configuration, so nothing is dropped.\<close>

lemma active_has_config:
  assumes "mgmt_ok d" "check_token creds Scope_Wireguard d = Inr t"
  obtains w where "wg_of (tk_id t) d = Some w"
proof -
  from check_token_Inr [OF assms(2)] have "tk_id t \<in> active_ids Scope_Wireguard d"
    by (auto simp: active_ids_def)
  with assms(1) have "tk_id t \<in> wg_token_id ` set (wg_rows d)" by (simp add: mgmt_ok_def mam_ok_def)
  then have "wg_of (tk_id t) d \<noteq> None" by (auto simp: wg_of_def find_None_iff)
  with that show thesis by blast
qed

definition attempted ::
  "time \<Rightarrow> mgmt_error + string \<Rightarrow> mam_token \<Rightarrow> register_req \<Rightarrow> mam_log \<Rightarrow> ('j, 'w) mgmt \<Rightarrow> ('j, 'w) mgmt" where
  "attempted now ip t reg l s =
     s\<lparr>mg_db := log_config_attempt now (Some (projr ip)) t (rr_publickey reg) False (Some (rr_mac reg))
        (add_log l (mg_db s))\<rparr>"

lemma wireguard_register_run:
  assumes "mgmt_ok (mg_db s)" "check_token creds Scope_Wireguard (mg_db s) = Inr t"
  obtains e s' where "wireguard_register env cfg now creds ip reg s = (Inl e, s')" "mg_world s' = mg_world s"
  | l where "wireguard_register env cfg now creds ip reg s =
      transaction (register_peer env cfg now t reg (length (wg_logs (mg_db s)))) (attempted now ip t reg l s)"
proof -
  from assms(2) obtain l where b: "bearer_token now Scope_Wireguard creds s =
      (Inr t, s\<lparr>mg_db := add_log l (mg_db s)\<rparr>)" by (metis bearer_cases Inr_inject Inl_Inr_False)
  show thesis
  proof (cases "isl ip \<or> \<not> (is_ascii (rr_publickey reg) \<and> b64decode (rr_publickey reg) \<noteq> None \<and> mac_ok (rr_mac reg))")
    case True
    with b show thesis
      by (intro that(1) [of "case ip of Inl e \<Rightarrow> e | Inr _ \<Rightarrow> RequestValidationError" "s\<lparr>mg_db := add_log l (mg_db s)\<rparr>"])
        (auto simp: wireguard_register_def bnd_cases of_result_def bnd_def validate_def split: sum.splits)
  next
    case False
    from active_has_config [OF assms] obtain w where w: "wg_of (tk_id t) (mg_db s) = Some w" .
    from False obtain a where "ip = Inr a" by (cases ip) auto
    with False b w show thesis
      by (intro that(2) [of l])
        (simp add: wireguard_register_def bnd_cases of_result_def validate_def drop_orphan_def
          attempted_def)
  qed
qed

lemma register_peer_Inr:
  assumes "transaction (register_peer env cfg now t reg k) s = (Inr c, s')"
  obtains w where "wg_of (tk_id t) (mg_db s) = Some w" "wg_allow_registration w" "c = wg_answer cfg w"
    "mg_db s' = set_peer now t reg k (mg_db s)"
proof -
  from assms have "register_peer env cfg now t reg k s = (Inr c, s')" by (simp add: transaction_Inr)
  then obtain w s1 where w: "wg_of (tk_id t) (mg_db s) = Some w" "wg_allow_registration w" "c = wg_answer cfg w"
    "wg_add_peer env (rr_publickey reg) (wg_ip w) s = (Inr (), s1)" "mg_db s' = set_peer now t reg k (mg_db s1)"
    by (auto simp: register_peer_def bnd_Inr flush_Inr split: option.splits if_splits)
  have "mg_db s1 = mg_db s" by (rule keepsD [OF keeps_wg(1) refl w(4)])
  with w that show thesis by simp
qed

lemma register_peer_refused:
  assumes "wg_of (tk_id t) (mg_db s) = Some w" "\<not> wg_allow_registration w"
  shows "transaction (register_peer env cfg now t reg k) s = (Inl (HTTPException 403), s)"
  using assms by (simp add: transaction_def register_peer_def)

lemma wireguard_register_Inr:
  assumes "mgmt_ok (mg_db s)" "wireguard_register env cfg now creds ip reg s = (Inr c, s')"
  obtains t w d k where "check_token creds Scope_Wireguard (mg_db s) = Inr t"
    "wg_of (tk_id t) (mg_db s) = Some w" "wg_allow_registration w" "c = wg_answer cfg w"
    "mg_db s' = set_peer now t reg k d" "wg_of (tk_id t) d = Some w" "mam_tokens d = mam_tokens (mg_db s)"
proof (cases "check_token creds Scope_Wireguard (mg_db s)")
  case (Inl e)
  with assms(2) show thesis
    by (cases rule: bearer_cases [of creds Scope_Wireguard s now])
      (auto simp: wireguard_register_def bnd_cases)
next
  case (Inr t)
  from wireguard_register_run [OF assms(1) Inr, of env cfg now ip reg] assms(2) obtain l where
    run: "transaction (register_peer env cfg now t reg (length (wg_logs (mg_db s)))) (attempted now ip t reg l s) = (Inr c, s')"
    by (metis Inl_Inr_False prod.inject)
  from register_peer_Inr [OF run] obtain w where w: "wg_of (tk_id t) (mg_db (attempted now ip t reg l s)) = Some w"
    "wg_allow_registration w" "c = wg_answer cfg w"
    "mg_db s' = set_peer now t reg (length (wg_logs (mg_db s))) (mg_db (attempted now ip t reg l s))" .
  have "mam_tokens (mg_db (attempted now ip t reg l s)) = mam_tokens (mg_db s)"
    "wg_of (tk_id t) (mg_db (attempted now ip t reg l s)) = wg_of (tk_id t) (mg_db s)"
    by (simp_all add: attempted_def) (simp add: log_config_attempt_def add_log_def)
  with that [OF Inr _ w(2,3,4)] w(1) show thesis by simp
qed


lemma token_row_unique:
  assumes "mgmt_ok d" "t \<in> set (mam_tokens d)" "token_value t = Some v"
  shows "filter (\<lambda>t. tk_token t = Some v \<or> tk_candidate t = Some v) (mam_tokens d) = [t]"
proof (rule filter_unique [OF _ assms(2)])
  from assms(1) have ids: "distinct (map tk_id (mam_tokens d))"
    and cand: "\<And>u. u \<in> set (mam_tokens d) \<Longrightarrow> tk_candidate u \<noteq> None \<and> (tk_token u \<noteq> None \<longrightarrow> tk_token u = tk_candidate u)"
    and dist: "distinct_somes (map tk_candidate (mam_tokens d))"
    by (auto simp: mgmt_ok_def mam_ok_def schema_ok_def)
  from ids show "distinct (mam_tokens d)" by (simp add: distinct_map)
  fix u assume u: "u \<in> set (mam_tokens d)"
  have "tk_candidate t = Some v" using cand [OF assms(2)] assms(3) by (auto simp: token_value_def split: option.splits)
  moreover from cand [OF u] have "tk_token u = Some v \<or> tk_candidate u = Some v \<longleftrightarrow> tk_candidate u = Some v" by auto
  ultimately show "(tk_token u = Some v \<or> tk_candidate u = Some v) = (u = t)"
    using distinct_somes_inj [OF dist u assms(2)] by auto
qed

lemma delete_one_Inr:
  assumes "delete_one env now t s = (Inr u, s')"
  shows "\<exists>l. ml_token_id l = None \<and> ml_action l = A_Deactivated \<and> mg_db s' = delete_row t (add_log l (mg_db s))"
proof -
  have keep: "mg_db s1 = mg_db s"
    if "(if scope_in Scope_Wireguard (tk_scope t) then wg_before_deletion env t else ret ()) s = (Inr x, s1)" for x s1
  proof -
    have "preserves (\<lambda>d. d = mg_db s) (if scope_in Scope_Wireguard (tk_scope t) then wg_before_deletion env t else ret ())"
      by (intro preserves)
    from keepsD [OF this refl that] show ?thesis .
  qed
  from assms obtain x s1 where
    w: "(if scope_in Scope_Wireguard (tk_scope t) then wg_before_deletion env t else ret ()) s = (Inr x, s1)"
    and s': "mg_db s' = delete_row t (add_log \<lparr>ml_token_id = None, ml_value = the (token_value t),
      ml_scope = tk_scope t, ml_time = now, ml_action = A_Deactivated\<rparr> (mg_db s1))"
    by (auto simp: delete_one_def bnd_Inr)
  show ?thesis using s' unfolding keep [OF w] by (intro exI conjI) simp_all
qed

lemma delete_one_tokens:
  "delete_one env now t s = (Inr u, s') \<Longrightarrow>
     mam_tokens (mg_db s') = filter (\<lambda>v. tk_id v \<noteq> tk_id t) (mam_tokens (mg_db s))"
  using delete_one_Inr [of env now t s u s'] by (auto simp: delete_row_def Let_def add_log_def)

lemma delete_all_tokens:
  "delete_all env now ts s = (Inr u, s') \<Longrightarrow>
     mam_tokens (mg_db s') = filter (\<lambda>v. tk_id v \<notin> tk_id ` set ts) (mam_tokens (mg_db s))"
proof (induction ts arbitrary: s)
  case (Cons t ts)
  from Cons.prems obtain s1 x where d: "delete_one env now t s = (Inr x, s1)" "delete_all env now ts s1 = (Inr u, s')"
    by (auto simp: bnd_Inr)
  from Cons.IH [OF d(2)] delete_one_tokens [OF d(1)] show ?case by (auto intro: filter_cong)
qed simp

text \<open>
  C14: A deactivated token is dead: when \<^verbatim>\<open>/tokens/deactivate\<close> succeeds, exactly the tokens with
  that value are gone, no scope is granted to it any more, and no WireGuard configuration and
  no probe of a removed token is left.
\<close>

theorem deactivation_revokes:
  assumes "mgmt_ok (mg_db s)" "token_deactivate env now auth v s = (Inr u, s')"
  shows "mam_tokens (mg_db s') =
      filter (\<lambda>t. tk_token t \<noteq> Some v \<and> tk_candidate t \<noteq> Some v) (mam_tokens (mg_db s)) \<and>
    check_token v sc (mg_db s') = Inl (HTTPException 403) \<and>
    wg_token_id ` set (wg_rows (mg_db s')) \<union> pr_token_id ` set (mg_probes (mg_db s')) \<subseteq>
      tk_id ` {t \<in> set (mam_tokens (mg_db s)). tk_token t \<noteq> None \<and> tk_token t \<noteq> Some v}"
proof -
  let ?hit = "\<lambda>t. tk_token t = Some v \<or> tk_candidate t = Some v"
  let ?hits = "filter ?hit (mam_tokens (mg_db s))"
  from assms(2) have del: "delete_all env now ?hits s = (Inr (), s')"
    by (auto simp: token_deactivate_def delete_token_def bnd_Inr flush_Inr of_result_def validate_def
        transaction_Inr split: if_splits)
  from assms(1) have ids: "inj_on tk_id (set (mam_tokens (mg_db s)))"
    by (simp add: mgmt_ok_def mam_ok_def distinct_map)
  have toks: "mam_tokens (mg_db s') = filter (\<lambda>t. tk_token t \<noteq> Some v \<and> tk_candidate t \<noteq> Some v) (mam_tokens (mg_db s))"
    unfolding delete_all_tokens [OF del] by (rule filter_cong [OF refl]) (use ids in \<open>auto dest: inj_onD\<close>)
  have ok: "mgmt_ok (mg_db s')" using keepsD [OF keeps_deactivate assms] .
  have "find (\<lambda>t. tk_token t = Some v) (mam_tokens (mg_db s')) = None"
    unfolding find_None_iff toks by auto
  then have dead: "check_token v sc (mg_db s') = Inl (HTTPException 403)"
    by (auto simp: check_token_def validate_token_def bind_r_def split: option.splits if_splits)
  have "active_ids sc (mg_db s') \<subseteq>
      tk_id ` {t \<in> set (mam_tokens (mg_db s)). tk_token t \<noteq> None \<and> tk_token t \<noteq> Some v}" for sc
    unfolding active_ids_def toks by auto
  with ok toks dead show ?thesis by (simp add: mgmt_ok_def mam_ok_def)
qed

lemma add_candidate_run:
  assumes "mgmt_ok (mg_db s)" "\<forall>u \<in> set (mam_tokens (mg_db s)). tk_candidate u \<noteq> Some cand"
  obtains t l s' where "add_token_candidate now cand sc mac s = (Inr (Some t), s')"
    "mg_db s' = (mg_db s)\<lparr>mam_tokens := mam_tokens (mg_db s) @ [t], mam_logs := mam_logs (mg_db s) @ [l],
       mg_next := mg_next (mg_db s) + 1\<rparr>" "mg_world s' = mg_world s"
    "tk_id t = mg_next (mg_db s)" "ml_token_id l = Some (mg_next (mg_db s))" "tk_token t = None"
proof -
  let ?i = "mg_next (mg_db s)"
  let ?t = "\<lparr>tk_id = ?i, tk_token = None, tk_candidate = Some cand, tk_mac = mac, tk_scope = sc\<rparr>"
  let ?l = "\<lparr>ml_token_id = Some ?i, ml_value = cand, ml_scope = sc, ml_time = now, ml_action = A_Registered\<rparr>"
  let ?d = "(mg_db s)\<lparr>mam_tokens := mam_tokens (mg_db s) @ [?t], mam_logs := mam_logs (mg_db s) @ [?l], mg_next := ?i + 1\<rparr>"
  have grow: "refs ks (map tk_id (mam_tokens (mg_db s))) \<Longrightarrow> refs ks (map tk_id (mam_tokens (mg_db s) @ [?t]))" for ks
    by (auto simp: refs_iff)
  have "distinct_somes (map tk_candidate (mam_tokens (mg_db s)) @ [Some cand])"
    using assms by (auto simp: distinct_somes_def mgmt_ok_def schema_ok_def)
  then have "schema_ok ?d"
    using assms(1) grow by (simp add: mgmt_ok_def schema_ok_def distinct_somes_def)
  then have "add_token_candidate now cand sc mac s = (Inr (Some ?t), s\<lparr>mg_db := ?d\<rparr>)"
    by (simp add: add_token_candidate_def Let_def)
  then show thesis by (intro that [of ?t "s\<lparr>mg_db := ?d\<rparr>" ?l]) simp_all
qed

lemma log_pairs_append:
  assumes "mgmt_ok d" "tk_id t = mg_next d" "ml_token_id l = Some (mg_next d)"
  shows "\<exists>ps. token_log_pairs (d\<lparr>mam_tokens := mam_tokens d @ [t], mam_logs := mam_logs d @ [l],
    mg_next := mg_next d + 1\<rparr>) = token_log_pairs d @ ps"
proof -
  have old: "filter (\<lambda>k. ml_token_id k = Some (tk_id u)) (mam_logs d @ [l]) =
      filter (\<lambda>k. ml_token_id k = Some (tk_id u)) (mam_logs d)" if "u \<in> set (mam_tokens d)" for u
    using assms that by (auto simp: mgmt_ok_def mam_ok_def)
  have eq: "map (\<lambda>u. map (Pair u) (filter (\<lambda>k. ml_token_id k = Some (tk_id u)) (mam_logs d @ [l]))) (mam_tokens d) =
      map (\<lambda>u. map (Pair u) (filter (\<lambda>k. ml_token_id k = Some (tk_id u)) (mam_logs d))) (mam_tokens d)"
    by (rule map_cong [OF refl]) (simp only: old)
  show ?thesis by (simp add: token_log_pairs_def eq del: filter_append)
qed

lemma prune_blocked:
  assumes "distinct (map tk_id (mam_tokens d))" "t \<in> set (mam_tokens d)" "tk_token t = None"
    "tk_id t \<in> set (prunable d)" "l \<in> set (mam_logs d)" "ml_token_id l = Some (tk_id t)" "mg_db s = d"
  shows "fst (prune_candidates s) = Inl Mg_IntegrityError"
proof -
  let ?ts = "filter (\<lambda>t. \<not> (tk_token t = None \<and> tk_id t \<in> set (prunable d))) (mam_tokens d)"
  have "tk_id t \<notin> tk_id ` set ?ts"
  proof
    assume "tk_id t \<in> tk_id ` set ?ts"
    then obtain u where u: "u \<in> set ?ts" "tk_id t = tk_id u" by (elim imageE)
    from u(1) have "u \<in> set (mam_tokens d)" by simp
    with u(2) assms(1,2) have "u = t" unfolding distinct_map by (metis inj_onD)
    with u(1) assms(3,4) show False by simp
  qed
  moreover have "Some (tk_id t) \<in> set (map ml_token_id (mam_logs d))"
    unfolding set_map by (rule image_eqI [of _ _ l]) (simp_all add: assms(5,6))
  ultimately have "\<not> refs (map ml_token_id (mam_logs d)) (map tk_id ?ts)"
    unfolding refs_iff set_map by blast
  then have "\<not> schema_ok (d\<lparr>mam_tokens := ?ts\<rparr>)" by (simp add: schema_ok_def)
  then show ?thesis using assms(7) by (simp add: prune_candidates_def flush_def)
qed

text \<open>
  Registrations jam: once some pending candidate's log entry is older than ten others, every
  registration of a new, valid candidate fails with an unhandled \<^verbatim>\<open>IntegrityError\<close> and leaves
  nothing behind. The statement that should prune old candidates deletes rows the access log
  still refers to.
\<close>

theorem registration_blocked:
  assumes "mgmt_ok (mg_db s)" "t \<in> set (mam_tokens (mg_db s))" "tk_token t = None"
    "l \<in> set (mam_logs (mg_db s))" "ml_token_id l = Some (tk_id t)"
    "10 \<le> length (filter (\<lambda>(u, k). ml_time l < ml_time k) (token_log_pairs (mg_db s)))"
    "token_type_ok (tr_candidate reg)" "mac_ok (tr_mac reg)"
    "\<forall>u \<in> set (mam_tokens (mg_db s)). tk_candidate u \<noteq> Some (tr_candidate reg)"
  shows "token_register now reg s = (Inl Mg_IntegrityError, s)"
proof -
  obtain t' l' s1 where add: "add_token_candidate now (tr_candidate reg) (tr_scope reg) (Some (tr_mac reg)) s = (Inr (Some t'), s1)"
    "mg_db s1 = (mg_db s)\<lparr>mam_tokens := mam_tokens (mg_db s) @ [t'], mam_logs := mam_logs (mg_db s) @ [l'],
       mg_next := mg_next (mg_db s) + 1\<rparr>" "mg_world s1 = mg_world s"
    "tk_id t' = mg_next (mg_db s)" "ml_token_id l' = Some (mg_next (mg_db s))"
    using add_candidate_run [OF assms(1,9)] by metis
  from log_pairs_append [OF assms(1) add(4,5)] add(2) obtain ps where
    ps: "token_log_pairs (mg_db s1) = token_log_pairs (mg_db s) @ ps" by auto
  have "(t, l) \<in> set (token_log_pairs (mg_db s1))"
    unfolding ps using assms(2,4,5) by (auto simp: token_log_pairs_def)
  moreover have "10 \<le> length (filter (\<lambda>y. (case (t, l) of (t, l) \<Rightarrow> ml_time l) < (case y of (t, l) \<Rightarrow> ml_time l))
      (token_log_pairs (mg_db s1)))"
    unfolding ps using assms(6) by (simp add: split_def trans_le_add1)
  ultimately have "(t, l) \<in> set (drop 10 (rev (sort_key (\<lambda>(t, l). ml_time l) (token_log_pairs (mg_db s1)))))"
    by (rule in_drop_sorted)
  then have gone: "tk_id t \<in> set (prunable (mg_db s1))"
    unfolding prunable_def Let_def set_map by (rule rev_image_eqI) simp
  have "mgmt_ok (mg_db s1)" using keepsD [OF keeps_add_candidate assms(1) add(1)] .
  then have "fst (prune_candidates s1) = Inl Mg_IntegrityError"
    using assms(2-5) gone add(2) by (intro prune_blocked [OF _ _ _ _ _ _ refl, of s1 t l]) (auto simp: mgmt_ok_def mam_ok_def)
  then obtain s2 where pr: "prune_candidates s1 = (Inl Mg_IntegrityError, s2)" by (metis prod.collapse)
  then have "mg_world s2 = mg_world s"
    using add(3) by (auto simp: prune_candidates_def flush_def split: if_splits)
  with add(1) pr assms(7,8) show ?thesis
    by (simp add: token_register_def validate_def bnd_cases(1) [of "ret ()"] transaction_def bnd_def)
qed

text \<open>
  C35: A token whose probe holds a tunnel session cannot be deactivated: the cascade leaves a
  session token that refers to the deleted probe, so the commit fails. The token and all it
  grants stay valid, but its WireGuard peer has already been removed from the daemon.
\<close>

theorem deactivation_blocked:
  assumes "mgmt_ok (mg_db s)" "t \<in> set (mam_tokens (mg_db s))" "tk_token t = Some v" "token_type_ok v"
    "p \<in> set (mg_probes (mg_db s))" "pr_token_id p = tk_id t"
    "r \<in> set (session_rows (mg_db s))" "st_probe_id r = Some (pr_id p)"
    "scope_in Scope_Wireguard (tk_scope t)" "wg_of (tk_id t) (mg_db s) = Some w" "wg_publickey w = Some pk"
    "env ''DELETE'' (''/peers/'' @ urlsafe pk) None (mg_world s) = (Some res, w')" "http_success (res_status res)"
  shows "token_deactivate env now (Inr admin) v s = (Inl Mg_IntegrityError, s\<lparr>mg_world := w'\<rparr>) \<and>
    check_token v (tk_scope t) (mg_db s) = Inr t"
proof -
  have hit: "filter (\<lambda>t. tk_token t = Some v \<or> tk_candidate t = Some v) (mam_tokens (mg_db s)) = [t]"
    using token_row_unique [OF assms(1,2)] assms(3) by (simp add: token_value_def)
  have rm: "wg_before_deletion env t s = (Inr (), s\<lparr>mg_world := w'\<rparr>)"
    using assms(10-13) by (simp add: wg_before_deletion_def wg_remove_peer_def wg_call_def bnd_def)
  let ?l = "\<lparr>ml_token_id = None, ml_value = v, ml_scope = tk_scope t, ml_time = now, ml_action = A_Deactivated\<rparr>"
  let ?d = "delete_row t (add_log ?l (mg_db s))"
  have del: "delete_all env now [t] s = (Inr (), s\<lparr>mg_world := w', mg_db := ?d\<rparr>)"
    using assms(3,9) by (simp add: delete_one_def bnd_def rm token_value_def del: scope_in_simps)
  have "q = p" if "q \<in> set (mg_probes (mg_db s))" "pr_id q = pr_id p" for q
    using that assms(1,5) by (auto simp: mgmt_ok_def schema_ok_def distinct_map dest: inj_onD)
  then have "pr_id p \<notin> pr_id ` set (mg_probes ?d)"
    using assms(6) by (auto simp: delete_row_def Let_def add_log_def)
  moreover have "Some (pr_id p) \<in> set (map st_probe_id (session_rows ?d))"
    unfolding set_map by (rule image_eqI [of _ _ r]) (use assms(7,8) in \<open>simp_all add: delete_row_def Let_def add_log_def\<close>)
  ultimately have bad: "\<not> schema_ok ?d" unfolding schema_ok_def refs_iff set_map by blast
  have "find (\<lambda>u. tk_token u = Some v) (mam_tokens (mg_db s)) = Some t"
  proof -
    from hit assms(2,3) have "find (\<lambda>u. tk_token u = Some v) (mam_tokens (mg_db s)) \<noteq> None"
      by (auto simp: find_None_iff)
    then obtain u where u: "find (\<lambda>u. tk_token u = Some v) (mam_tokens (mg_db s)) = Some u" by blast
    with active_token_unique [of "mg_db s" t u v] assms(1-3) find_SomeD [OF u] show ?thesis
      by (simp add: mgmt_ok_def)
  qed
  with assms(4) have "check_token v (tk_scope t) (mg_db s) = Inr t"
    by (auto simp: check_token_def validate_token_def token_type_ok_def split: option.splits)
  with del bad hit assms(4) show ?thesis
    by (simp add: token_deactivate_def of_result_def validate_def bnd_cases(1) transaction_def
        delete_token_def flush_def bnd_def)
qed

subsection \<open>A small database\<close>

definition demo_value :: "nat \<Rightarrow> string" where
  "demo_value n = b64encode (replicate 32 (word_of_nat n))"

definition demo_mgmt :: "(unit, nat) mgmt" where
  "demo_mgmt =
     \<lparr>mg_db =
        \<lparr>mam_tokens =
           [\<lparr>tk_id = 0, tk_token = Some (demo_value 0), tk_candidate = Some (demo_value 0),
             tk_mac = None, tk_scope = Scope_Both\<rparr>,
            \<lparr>tk_id = 1, tk_token = None, tk_candidate = Some (demo_value 1), tk_mac = None,
             tk_scope = Scope_Probe\<rparr>],
         mam_logs =
           \<lparr>ml_token_id = Some 1, ml_value = demo_value 1, ml_scope = Scope_Probe, ml_time = 0,
            ml_action = A_Registered\<rparr> #
           replicate 10 \<lparr>ml_token_id = Some 0, ml_value = demo_value 0, ml_scope = Scope_Probe,
            ml_time = 1, ml_action = A_Access\<rparr>,
         wg_rows = [\<lparr>wg_publickey = Some ''AA=='', wg_register_time = 0, wg_ip = ''10.0.0.1'',
            wg_allow_registration = True, wg_token_id = 0\<rparr>],
         wg_logs = [],
         mg_probes = [\<lparr>pr_id = 7, pr_name = ''vienna'', pr_token_id = 0, pr_country = None,
            pr_last_poll = None\<rparr>],
         mg_statuses = [], mg_startups = [], mg_infos = [], mg_next = 2,
         moat_tokens = [], mgmt_sims = [], sim_assocs = [],
         session_rows = [\<lparr>st_value = [], st_token_id = 0, st_scope = Moat_Probe,
            st_probe_id = Some 7, st_provider_id = None\<rparr>],
         provider_ids = []\<rparr>,
      mg_world = 0\<rparr>"

definition demo_daemon :: "nat wg_env" where
  "demo_daemon meth path body w = (Some \<lparr>res_status = 200, res_json = JNull\<rparr>, w + 1)"

lemma demo_value_inject [simp]: "m < 256 \<Longrightarrow> n < 256 \<Longrightarrow> demo_value m = demo_value n \<longleftrightarrow> m = n"
  by (simp add: demo_value_def replicate_eq_replicate word_of_nat_eq_iff take_bit_nat_eq_self)

lemma b64_char_ascii: "n < 64 \<Longrightarrow> (of_char (b64_char n) :: nat) < 128"
  by (auto simp: b64_char_def)

lemma b64encode_ascii [simp]: "is_ascii (b64encode bs)"
  by (induction bs rule: b64encode.induct) (simp_all add: is_ascii_def b64_char_ascii)

lemma demo_value_ok [simp]: "token_type_ok (demo_value n)" "validate_token (demo_value n) = Inr (demo_value n)"
  by (simp_all add: demo_value_def token_type_ok_def validate_token_def)

lemma demo_mgmt_ok: "mgmt_ok (mg_db demo_mgmt)"
  by (simp add: mgmt_ok_def mam_ok_def schema_ok_def demo_mgmt_def distinct_somes_def
      active_ids_code)


theorem deactivation_revokes_witness:
  "\<exists>s'. token_deactivate demo_daemon 9 (Inr ''admin'') (demo_value 1) demo_mgmt = (Inr (), s') \<and>
     check_token (demo_value 1) Scope_Probe (mg_db s') = Inl (HTTPException 403)"
proof -
  obtain s' where run: "token_deactivate demo_daemon 9 (Inr ''admin'') (demo_value 1) demo_mgmt = (Inr (), s')"
    by (simp add: token_deactivate_def transaction_def bnd_def of_result_def validate_def demo_mgmt_def
        delete_token_def delete_one_def add_log_def token_value_def delete_row_def flush_def
        schema_ok_def distinct_somes_def Let_def)
  from deactivation_revokes [OF demo_mgmt_ok run, of Scope_Probe] run show ?thesis by blast
qed

theorem registration_blocked_witness:
  "token_register 9 \<lparr>tr_candidate = demo_value 2, tr_mac = ''00:00:00:00:00:00'', tr_scope = Scope_Probe\<rparr> demo_mgmt =
     (Inl Mg_IntegrityError, demo_mgmt)"
proof (rule registration_blocked [OF demo_mgmt_ok,
      where t = "mam_tokens (mg_db demo_mgmt) ! 1" and l = "mam_logs (mg_db demo_mgmt) ! 0"])
  show "10 \<le> length (filter (\<lambda>(u, k). ml_time (mam_logs (mg_db demo_mgmt) ! 0) < ml_time k)
      (token_log_pairs (mg_db demo_mgmt)))"
    by (simp add: demo_mgmt_def token_log_pairs_def numeral_eq_Suc)
  show "mac_ok (tr_mac \<lparr>tr_candidate = demo_value 2, tr_mac = ''00:00:00:00:00:00'', tr_scope = Scope_Probe\<rparr>)"
    by (simp only: token_registration.simps) code_simp
qed (simp_all add: demo_mgmt_def)

theorem deactivation_blocked_witness:
  "token_deactivate demo_daemon 9 (Inr ''admin'') (demo_value 0) demo_mgmt =
     (Inl Mg_IntegrityError, demo_mgmt\<lparr>mg_world := 1\<rparr>)"
  using deactivation_blocked [OF demo_mgmt_ok, of "mam_tokens (mg_db demo_mgmt) ! 0" "demo_value 0"
      "hd (mg_probes (mg_db demo_mgmt))" "hd (session_rows (mg_db demo_mgmt))"
      "hd (wg_rows (mg_db demo_mgmt))" "''AA==''" demo_daemon "\<lparr>res_status = 200, res_json = JNull\<rparr>" 1 9 "''admin''"]
  by (simp add: demo_mgmt_def wg_of_def demo_daemon_def http_success_def)

end
