(* ===== verification/Mgmt_Probes.thy ===== *)
theory Mgmt_Probes
  imports Mgmt_Tokens
begin

text \<open>
  What a measurement probe calls (\<^verbatim>\<open>probe_routes.py\<close>) and what the management server does
  with it (\<^verbatim>\<open>routes.py\<close>): the long poll that preserves a probe's status online, the periodic
  check that turns it offline and notifies after thirty minutes, and the administrator's
  operations on a probe. Redis, the webhook and the country search are parameters. The invariant
  \<open>history_ok\<close> says that the status rows of a probe partition the time since its first poll.
\<close>

section \<open>Calls of the probe\<close>

definition probe_for :: "mam_token \<Rightarrow> (('j, 'w) mgmt, probe_row) mact" where
  "probe_for token =
     bnd (get_db (probe_of (tk_id token))) (\<lambda>p.
       case p of None \<Rightarrow> throw Mg_AttributeError | Some p \<Rightarrow> ret p)"

definition startup_log :: "time \<Rightarrow> string \<Rightarrow> string \<Rightarrow> (('j, 'w) mgmt, unit) mact" where
  "startup_log now creds mac =
     bnd (bearer_token now Scope_Probe creds) (\<lambda>token.
     bnd (validate (mac_ok mac)) (\<lambda>_.
     transaction
       (if tk_mac token \<noteq> Some mac then throw (HTTPException 400)
        else
          bnd (probe_for token) (\<lambda>probe.
          bnd (set_db (\<lambda>d. d\<lparr>mg_startups := mg_startups d @
                 [\<lparr>su_mac = mac, su_timestamp = now, su_probe_id = pr_id probe\<rparr>]\<rparr>)) (\<lambda>_. flush)))))"

definition probe_system_information :: "time \<Rightarrow> string \<Rightarrow> 'j \<Rightarrow> (('j, 'w) mgmt, unit) mact" where
  "probe_system_information now creds json =
     bnd (bearer_token now Scope_Probe creds) (\<lambda>token.
     transaction
       (bnd (probe_for token) (\<lambda>probe.
        bnd (set_db (\<lambda>d. d\<lparr>mg_infos := mg_infos d @ [(pr_id probe, now, json)]\<rparr>)) (\<lambda>_. flush))))"

fun update_first :: "('a \<Rightarrow> bool) \<Rightarrow> ('a \<Rightarrow> 'a) \<Rightarrow> 'a list \<Rightarrow> 'a list" where
  "update_first P f [] = []"
| "update_first P f (x # xs) = (if P x then f x # xs else x # update_first P f xs)"

definition millisecond :: time where "millisecond = 1000"

definition online_status :: "uuid \<Rightarrow> time \<Rightarrow> status_row" where
  "online_status pid now =
     \<lparr>ps_probe_id = pid, ps_active = True, ps_status = Online, ps_begin = now, ps_end = now + millisecond\<rparr>"

abbreviation active_for :: "uuid \<Rightarrow> status_row \<Rightarrow> bool" where
  "active_for pid r \<equiv> ps_probe_id r = pid \<and> ps_active r"

text \<open>The status update of \<^verbatim>\<open>probe_poll\<close>, with the cases the code numbers.\<close>

definition poll_status :: "time \<Rightarrow> time \<Rightarrow> uuid \<Rightarrow> status_row list \<Rightarrow> status_row list" where
  "poll_status interval now pid rows =
     (case find (active_for pid) rows of
        None \<Rightarrow> rows @ [online_status pid now]
      | Some ps \<Rightarrow>
          if ps_status ps = Online \<and> ps_end ps + interval * 2 > now
          then update_first (active_for pid) (\<lambda>r. r\<lparr>ps_end := now\<rparr>) rows
          else update_first (active_for pid) (\<lambda>r. r\<lparr>ps_active := False, ps_end := now\<rparr>) rows
                 @ [online_status pid now])"

definition set_last_poll :: "uuid \<Rightarrow> time \<Rightarrow> 'j mgmt_db \<Rightarrow> 'j mgmt_db" where
  "set_last_poll pid now d =
     d\<lparr>mg_probes := map (\<lambda>p. if pr_id p = pid then p\<lparr>pr_last_poll := Some now\<rparr> else p) (mg_probes d)\<rparr>"

text \<open>
  \<^verbatim>\<open>probe_poll\<close>: \<open>command\<close> is what Redis delivers for a probe within the polling interval.
\<close>

definition probe_poll ::
  "time \<Rightarrow> time \<Rightarrow> (uuid \<Rightarrow> string option) \<Rightarrow> string \<Rightarrow> (('j, 'w) mgmt, string option) mact" where
  "probe_poll interval now command creds =
     bnd (bearer_token now Scope_Probe creds) (\<lambda>token.
     bnd (transaction
       (bnd (probe_for token) (\<lambda>probe.
        bnd (set_db (set_last_poll (pr_id probe) now)) (\<lambda>_.
        bnd (set_db (\<lambda>d. d\<lparr>mg_statuses := poll_status interval now (pr_id probe) (mg_statuses d)\<rparr>)) (\<lambda>_.
        bnd flush (\<lambda>_. ret (pr_id probe))))))) (\<lambda>probe_id.
       ret (command probe_id)))"

section \<open>The periodic check\<close>

definition offline_for :: time where "offline_for = 30 * 60 * 1000000"

definition lapsed :: "time \<Rightarrow> time \<Rightarrow> status_row \<Rightarrow> bool" where
  "lapsed interval now r \<longleftrightarrow> ps_active r \<and> ps_status r = Online \<and> ps_end r + interval * 2 < now"

definition check_row :: "time \<Rightarrow> time \<Rightarrow> status_row \<Rightarrow> status_row" where
  "check_row interval now r =
     (if lapsed interval now r then r\<lparr>ps_active := False\<rparr>
      else if ps_active r \<and> ps_status r = Offline then r\<lparr>ps_end := now\<rparr> else r)"

definition offline_status :: "status_row \<Rightarrow> status_row" where
  "offline_status r =
     \<lparr>ps_probe_id = ps_probe_id r, ps_active = True, ps_status = Offline, ps_begin = ps_end r,
      ps_end = ps_end r + millisecond\<rparr>"

definition notify_due :: "time \<Rightarrow> status_row \<Rightarrow> bool" where
  "notify_due now r \<longleftrightarrow>
     ps_active r \<and> ps_status r = Offline \<and> duration r < offline_for \<and>
     offline_for \<le> duration (r\<lparr>ps_end := now\<rparr>)"

definition check_rows :: "time \<Rightarrow> time \<Rightarrow> status_row list \<Rightarrow> status_row list \<times> uuid list" where
  "check_rows interval now rows =
     (map (check_row interval now) rows @ map offline_status (filter (lapsed interval now) rows),
      map ps_probe_id (filter (notify_due now) rows))"

text \<open>\<^verbatim>\<open>Probe.to_dict\<close>, the name and the token's MAC address.\<close>

definition to_dict :: "'j mgmt_db \<Rightarrow> uuid \<Rightarrow> (string \<times> string option) option" where
  "to_dict d pid =
     Option.bind (find (\<lambda>p. pr_id p = pid) (mg_probes d)) (\<lambda>p.
       map_option (\<lambda>t. (pr_name p, tk_mac t)) (find (\<lambda>t. tk_id t = pr_token_id p) (mam_tokens d)))"

text \<open>A probe without MAC address and with a name makes the text raise \<^verbatim>\<open>TypeError\<close>.\<close>

definition notification_text :: "string \<times> string option \<Rightarrow> mgmt_error + string" where
  "notification_text n =
     (if fst n \<noteq> '''' then
        (case snd n of
           None \<Rightarrow> Inl Mg_TypeError
         | Some m \<Rightarrow> Inr (''Probe '' @ fst n @ '' - '' @ m @ '' is offline for 30 minutes''))
      else Inr (''Probe '' @ (case snd n of None \<Rightarrow> ''None'' | Some m \<Rightarrow> m) @ '' is offline for 30 minutes''))"

text \<open>The webhook: the first exception ends the loop.\<close>

fun push_notifications ::
  "(string \<Rightarrow> 'p \<Rightarrow> bool \<times> 'p) \<Rightarrow> (string \<times> string option) list \<Rightarrow> 'p \<Rightarrow> 'p" where
  "push_notifications post [] p = p"
| "push_notifications post (n # ns) p =
     (case notification_text n of
        Inl e \<Rightarrow> p
      | Inr text \<Rightarrow> (case post text p of (True, p') \<Rightarrow> push_notifications post ns p' | (False, p') \<Rightarrow> p'))"

definition check_probe_statuses ::
  "time \<Rightarrow> time \<Rightarrow> (string \<Rightarrow> 'p \<Rightarrow> bool \<times> 'p) option \<Rightarrow> 'p \<Rightarrow> (('j, 'w) mgmt, 'p) mact" where
  "check_probe_statuses interval now webhook p =
     transaction
       (bnd (get_db (\<lambda>d. map (\<lambda>pid. the (to_dict d pid)) (snd (check_rows interval now (mg_statuses d))))) (\<lambda>ns.
        bnd (set_db (\<lambda>d. d\<lparr>mg_statuses := fst (check_rows interval now (mg_statuses d))\<rparr>)) (\<lambda>_.
        bnd flush (\<lambda>_.
          ret (case webhook of None \<Rightarrow> p | Some post \<Rightarrow> push_notifications post ns p)))))"

section \<open>The administrator's operations\<close>

definition get_probe :: "uuid \<Rightarrow> (('j, 'w) mgmt, probe_row) mact" where
  "get_probe pid =
     bnd (get_db (\<lambda>d. find (\<lambda>p. pr_id p = pid) (mg_probes d))) (\<lambda>p.
       case p of None \<Rightarrow> throw (HTTPException 404) | Some p \<Rightarrow> ret p)"

definition update_probe :: "uuid \<Rightarrow> (probe_row \<Rightarrow> probe_row) \<Rightarrow> 'j mgmt_db \<Rightarrow> 'j mgmt_db" where
  "update_probe pid f d = d\<lparr>mg_probes := map (\<lambda>p. if pr_id p = pid then f p else p) (mg_probes d)\<rparr>"

definition change_probe_name :: "mgmt_error + string \<Rightarrow> uuid \<Rightarrow> string \<Rightarrow> (('j, 'w) mgmt, unit) mact" where
  "change_probe_name basic_auth pid name =
     bnd (of_result basic_auth) (\<lambda>_.
     transaction
       (bnd (get_probe pid) (\<lambda>p.
        bnd (set_db (update_probe pid (\<lambda>p. p\<lparr>pr_name := name\<rparr>))) (\<lambda>_. flush))))"

text \<open>
  \<^verbatim>\<open>change_country\<close>: \<open>search\<close> is \<^verbatim>\<open>search_fuzzy\<close>, which raises \<^verbatim>\<open>LookupError\<close> when it finds
  nothing; the handler expects an \<^verbatim>\<open>IndexError\<close>, answered with a body (\<open>False\<close>).
\<close>

definition change_country ::
  "(string \<Rightarrow> string list option) \<Rightarrow> mgmt_error + string \<Rightarrow> uuid \<Rightarrow> string \<Rightarrow> (('j, 'w) mgmt, bool) mact" where
  "change_country search basic_auth pid country =
     bnd (of_result basic_auth) (\<lambda>_.
     transaction
       (bnd (get_probe pid) (\<lambda>p.
          case search country of
            None \<Rightarrow> throw Mg_LookupError
          | Some [] \<Rightarrow> ret False
          | Some (c # cs) \<Rightarrow>
              bnd (set_db (update_probe pid (\<lambda>p. p\<lparr>pr_country := Some c\<rparr>))) (\<lambda>_.
              bnd flush (\<lambda>_. ret True)))))"

datatype probe_command = Exit | SystemInfo | GitPull

fun command_value :: "probe_command \<Rightarrow> string" where
  "command_value Exit = ''exit''"
| "command_value SystemInfo = ''system_information''"
| "command_value GitPull = ''git_pull''"

text \<open>The message published to Redis: the probe whose channel it is, and the command.\<close>

definition execute_probe :: "mgmt_error + string \<Rightarrow> uuid \<Rightarrow> probe_command \<Rightarrow> (('j, 'w) mgmt, uuid \<times> string) mact" where
  "execute_probe basic_auth pid command =
     bnd (of_result basic_auth) (\<lambda>_.
     bnd (get_probe pid) (\<lambda>p. ret (pid, command_value command)))"

section \<open>The history of a probe\<close>

fun chain :: "status_row list \<Rightarrow> bool" where
  "chain [] \<longleftrightarrow> True"
| "chain [r] \<longleftrightarrow> ps_active r \<and> ps_begin r \<le> ps_end r"
| "chain (r # q # rs) \<longleftrightarrow>
     \<not> ps_active r \<and> ps_begin r \<le> ps_end r \<and> ps_begin q = ps_end r \<and> chain (q # rs)"

definition rows_of :: "uuid \<Rightarrow> status_row list \<Rightarrow> status_row list" where
  "rows_of pid rows = filter (\<lambda>r. ps_probe_id r = pid) rows"

definition history_ok :: "time \<Rightarrow> status_row list \<Rightarrow> bool" where
  "history_ok clock rows \<longleftrightarrow> (\<forall>pid. chain (rows_of pid rows)) \<and> (\<forall>r \<in> set rows. ps_begin r \<le> clock)"

text \<open>All but the last row, closed at the time the last one begins.\<close>

fun closed_at :: "status_row list \<Rightarrow> time \<Rightarrow> bool" where
  "closed_at [] e \<longleftrightarrow> True"
| "closed_at [r] e \<longleftrightarrow> \<not> ps_active r \<and> ps_begin r \<le> ps_end r \<and> ps_end r = e"
| "closed_at (r # q # rs) e \<longleftrightarrow>
     \<not> ps_active r \<and> ps_begin r \<le> ps_end r \<and> ps_begin q = ps_end r \<and> closed_at (q # rs) e"

lemma chain_snoc:
  "chain (xs @ [r]) \<longleftrightarrow> closed_at xs (ps_begin r) \<and> ps_active r \<and> ps_begin r \<le> ps_end r"
  by (induction xs "ps_begin r" rule: closed_at.induct) auto

lemma closed_at_snoc:
  "closed_at (xs @ [r]) e \<longleftrightarrow>
     closed_at xs (ps_begin r) \<and> \<not> ps_active r \<and> ps_begin r \<le> ps_end r \<and> ps_end r = e"
  by (induction xs "ps_begin r" rule: closed_at.induct) auto

lemma closed_at_inactive: "closed_at xs e \<Longrightarrow> x \<in> set xs \<Longrightarrow> \<not> ps_active x"
  by (induction xs e rule: closed_at.induct) auto

lemma chain_cases:
  assumes "chain rs"
  obtains "rs = []"
  | xs r where "rs = xs @ [r]" "closed_at xs (ps_begin r)" "ps_active r" "ps_begin r \<le> ps_end r"
  using assms by (cases rs rule: rev_cases) (auto simp: chain_snoc)

lemma rows_of_append [simp]: "rows_of pid (xs @ ys) = rows_of pid xs @ rows_of pid ys"
  by (simp add: rows_of_def)

lemma filter_update_first:
  "(\<And>x. P x \<Longrightarrow> Q x \<and> Q (f x)) \<Longrightarrow> filter Q (update_first P f xs) = update_first P f (filter Q xs)"
  "(\<And>x. P x \<Longrightarrow> \<not> Q x \<and> \<not> Q (f x)) \<Longrightarrow> filter Q (update_first P f xs) = filter Q xs"
  by (induction xs) auto

lemma update_first_snoc:
  "\<forall>x \<in> set xs. \<not> P x \<Longrightarrow> P r \<Longrightarrow> update_first P f (xs @ [r]) = xs @ [f r]"
  by (induction xs) auto

lemma update_first_set: "y \<in> set (update_first P f xs) \<Longrightarrow> y \<in> set xs \<or> (\<exists>x \<in> set xs. y = f x)"
  by (induction xs) (auto split: if_splits)

lemma find_filter: "(\<And>x. P x \<Longrightarrow> Q x) \<Longrightarrow> find P xs = find P (filter Q xs)"
  by (induction xs) auto

lemma find_snoc: "\<forall>x \<in> set xs. \<not> P x \<Longrightarrow> find P (xs @ [r]) = (if P r then Some r else None)"
  by (induction xs) auto

lemma rows_of_last: "rows_of pid rows = xs @ [r] \<Longrightarrow> r \<in> set rows \<and> ps_probe_id r = pid"
proof -
  assume "rows_of pid rows = xs @ [r]"
  then have "r \<in> set (rows_of pid rows)" by simp
  then show ?thesis by (simp add: rows_of_def)
qed

lemma find_active:
  assumes "rows_of pid rows = xs @ [r]" "closed_at xs (ps_begin r)" "ps_active r"
  shows "find (active_for pid) rows = Some r"
proof -
  have "ps_probe_id r = pid" using rows_of_last [OF assms(1)] by blast
  moreover have "\<forall>x \<in> set xs. \<not> active_for pid x" using closed_at_inactive [OF assms(2)] by blast
  ultimately show ?thesis
    using find_filter [of "active_for pid" "\<lambda>r. ps_probe_id r = pid" rows] assms(1,3)
    by (simp add: rows_of_def find_snoc)
qed

lemma rows_of_update_first:
  assumes "\<And>r. ps_probe_id (f r) = ps_probe_id r"
  shows "rows_of q (update_first (active_for pid) f rows) =
    (if q = pid then update_first (active_for pid) f (rows_of pid rows) else rows_of q rows)"
proof (cases "q = pid")
  case True
  then show ?thesis unfolding rows_of_def
    by (simp only: if_True refl) (rule filter_update_first(1), auto simp: assms)
next
  case False
  with assms show ?thesis unfolding rows_of_def
    by (simp only: if_False) (rule filter_update_first(2), auto)
qed

lemma poll_status_rows:
  assumes "chain (rows_of pid rows)"
  shows "rows_of q (poll_status interval now pid rows) =
    (if q \<noteq> pid then rows_of q rows
     else if rows_of pid rows = [] then [online_status pid now]
     else let r = last (rows_of pid rows); xs = butlast (rows_of pid rows) in
       if ps_status r = Online \<and> ps_end r + interval * 2 > now then xs @ [r\<lparr>ps_end := now\<rparr>]
       else xs @ [r\<lparr>ps_active := False, ps_end := now\<rparr>, online_status pid now])"
  using assms
proof (cases rule: chain_cases)
  case 1
  then have "find (active_for pid) rows = None"
    by (auto simp: find_None_iff rows_of_def filter_empty_conv)
  with 1 show ?thesis by (auto simp: poll_status_def rows_of_def online_status_def)
next
  case (2 xs r)
  have up: "update_first (active_for pid) f (xs @ [r]) = xs @ [f r]" for f
  proof (rule update_first_snoc)
    show "\<forall>x \<in> set xs. \<not> active_for pid x" using closed_at_inactive [OF 2(2)] by blast
    show "active_for pid r" using find_SomeD [OF find_active [OF 2(1-3)]] by simp
  qed
  have on: "rows_of p [online_status pid now] = (if p = pid then [online_status pid now] else [])" for p
    by (simp add: rows_of_def online_status_def)
  show ?thesis
    by (simp add: poll_status_def find_active [OF 2(1-3)] rows_of_update_first up 2(1) on)
qed

lemma poll_status_history:
  assumes "history_ok clock rows" "clock \<le> now"
  shows "history_ok now (poll_status interval now pid rows)"
proof -
  from assms(1) have chain: "chain (rows_of q rows)" for q by (simp add: history_ok_def)
  have old: "ps_begin r \<le> now" if "r \<in> set rows" for r using assms that by (force simp: history_ok_def)
  have "chain (rows_of q (poll_status interval now pid rows))" for q
  proof (cases "q = pid")
    case True
    from chain [of pid] show ?thesis
    proof (cases rule: chain_cases)
      case 1
      then show ?thesis using True
        by (simp add: poll_status_rows [OF chain] online_status_def millisecond_def)
    next
      case (2 xs r)
      from rows_of_last [OF 2(1)] have "r \<in> set rows" by blast
      from old [OF this] have "ps_begin r \<le> now" .
      with 2 True show ?thesis
        using closed_at_snoc [of xs "r\<lparr>ps_active := False, ps_end := now\<rparr>" now]
          chain_snoc [of "xs @ [r\<lparr>ps_active := False, ps_end := now\<rparr>]" "online_status pid now"]
        by (simp add: poll_status_rows [OF chain] chain_snoc online_status_def millisecond_def)
    qed
  qed (simp add: poll_status_rows [OF chain] chain)
  moreover have "ps_begin r \<le> now" if "r \<in> set (poll_status interval now pid rows)" for r
    using that old
    by (auto simp: poll_status_def online_status_def split: option.splits if_splits dest!: update_first_set)
  ultimately show ?thesis by (simp add: history_ok_def)
qed

lemma rows_of_check:
  "rows_of pid (fst (check_rows interval now rows)) =
     map (check_row interval now) (rows_of pid rows) @
     map offline_status (filter (lapsed interval now) (rows_of pid rows))"
proof -
  have "ps_probe_id (check_row interval now r) = ps_probe_id r" "ps_probe_id (offline_status r) = ps_probe_id r" for r
    by (simp_all add: check_row_def offline_status_def)
  then show ?thesis
    by (simp add: check_rows_def rows_of_def filter_map comp_def conj_commute)
qed

lemma check_row_inactive [simp]: "\<not> ps_active r \<Longrightarrow> check_row interval now r = r"
  "\<not> ps_active r \<Longrightarrow> \<not> lapsed interval now r" "\<not> ps_active r \<Longrightarrow> \<not> notify_due now r"
  by (simp_all add: check_row_def lapsed_def notify_due_def)

lemma check_chain:
  assumes "rows_of pid rows = xs @ [r]" "closed_at xs e"
  shows "rows_of pid (fst (check_rows interval now rows)) =
    xs @ [check_row interval now r] @ (if lapsed interval now r then [offline_status r] else [])"
proof -
  have "map (check_row interval now) xs = xs" "filter (lapsed interval now) xs = []"
    using closed_at_inactive [OF assms(2)] by (simp_all add: map_idI filter_empty_conv)
  with assms(1) show ?thesis by (simp add: rows_of_check)
qed

lemma check_rows_history:
  assumes "history_ok clock rows" "clock \<le> now" "0 \<le> interval"
  shows "history_ok now (fst (check_rows interval now rows))"
proof -
  from assms(1) have chain: "chain (rows_of q rows)" for q by (simp add: history_ok_def)
  have old: "ps_begin r \<le> now" if "r \<in> set rows" for r using assms that by (force simp: history_ok_def)
  have "chain (rows_of q (fst (check_rows interval now rows)))" for q
    using chain [of q]
  proof (cases rule: chain_cases)
    case 1
    then show ?thesis by (simp add: rows_of_check)
  next
    case (2 xs r)
    from rows_of_last [OF 2(1)] have "r \<in> set rows" by blast
    from old [OF this] have b: "ps_begin r \<le> now" .
    show ?thesis
    proof (cases "lapsed interval now r")
      case True
      have "closed_at (xs @ [r\<lparr>ps_active := False\<rparr>]) (ps_end r)"
        using 2 by (simp add: closed_at_snoc)
      then have "chain ((xs @ [r\<lparr>ps_active := False\<rparr>]) @ [offline_status r])"
        unfolding chain_snoc by (simp add: offline_status_def millisecond_def)
      with True show ?thesis by (simp add: check_chain [OF 2(1,2)] check_row_def)
    next
      case False
      with 2 b show ?thesis by (simp add: check_chain [OF 2(1,2)] check_row_def chain_snoc)
    qed
  qed
  moreover have "ps_begin r \<le> now" if "r \<in> set (fst (check_rows interval now rows))" for r
    using that old assms(3)
    by (auto simp: check_rows_def check_row_def offline_status_def lapsed_def split: if_splits)
  ultimately show ?thesis by (simp add: history_ok_def)
qed

section \<open>Statistics\<close>

lemma chain_sorted: "chain rs \<Longrightarrow> sorted (map ps_begin rs)"
proof (induction rs rule: chain.induct)
  case (3 r q rs)
  then have "sorted (map ps_begin (q # rs))" "ps_begin r \<le> ps_begin q" by simp_all
  then show ?case by (simp only: list.map sorted2)
qed simp_all

lemma closed_at_total:
  "closed_at rs e \<Longrightarrow> rs \<noteq> [] \<Longrightarrow> sum_list (map duration rs) = e - ps_begin (hd rs)"
  by (induction rs e rule: closed_at.induct) (auto simp: duration_def)

lemma chain_total: "chain rs \<Longrightarrow> rs \<noteq> [] \<Longrightarrow> sum_list (map duration rs) = ps_end (last rs) - ps_begin (hd rs)"
  by (induction rs rule: chain.induct) (auto simp: duration_def)

lemma status_history_rev:
  assumes "chain (rows_of pid (mg_statuses d))"
  shows "status_history pid d = rev (rows_of pid (mg_statuses d))"
proof -
  have sorted: "rev (sort_key ps_begin (rows_of pid (mg_statuses d))) = rev (rows_of pid (mg_statuses d))"
    using sort_key_id_if_sorted [OF chain_sorted [OF assms]] by simp
  from assms show ?thesis
  proof (cases rule: chain_cases)
    case 1
    with sorted show ?thesis by (simp add: status_history_def rows_of_def Let_def)
  next
    case (2 xs r)
    have "filter ps_active xs = []" "filter (\<lambda>r. \<not> ps_active r) xs = xs"
      using closed_at_inactive [OF 2(2)] by (simp_all add: filter_empty_conv filter_id_conv)
    with 2 sorted show ?thesis by (simp add: status_history_def rows_of_def Let_def rev_filter [symmetric])
  qed
qed

lemma status_total_split:
  "status_total Online rs + status_total Offline rs = sum_list (map duration rs)"
proof (induction rs)
  case (Cons r rs)
  then show ?case by (cases "ps_status r") (simp_all add: status_total_def)
qed (simp add: status_total_def)

lemma statistics_total:
  assumes "chain (rows_of pid (mg_statuses d))"
  shows "let st = get_status_statistics now (Some a) (status_history pid d) in
    d_online st + d_offline st + the (d_pre_registration st) = known_for st"
proof (cases "rows_of pid (mg_statuses d) = []")
  case True
  then show ?thesis using assms by (simp add: get_status_statistics_def status_history_rev Let_def status_total_def)
next
  case False
  let ?rs = "rows_of pid (mg_statuses d)"
  have "sum_list (map duration (rev ?rs)) = ps_end (last ?rs) - ps_begin (hd ?rs)"
    using chain_total [OF assms False] by (simp add: rev_map [symmetric] sum_list_rev)
  with status_total_split [of "rev ?rs"] False assms show ?thesis
    by (simp add: get_status_statistics_def status_history_rev Let_def hd_rev last_rev)
qed


section \<open>Notifications\<close>

fun check_many :: "time \<Rightarrow> time list \<Rightarrow> status_row list \<Rightarrow> status_row list \<times> uuid list" where
  "check_many interval [] rows = (rows, [])"
| "check_many interval (t # ts) rows =
     (case check_rows interval t rows of
        (rows', ns) \<Rightarrow> (case check_many interval ts rows' of (rows'', ms) \<Rightarrow> (rows'', ns @ ms)))"

lemma count_notified:
  "count_list (snd (check_rows interval now rows)) pid =
     length (filter (notify_due now) (rows_of pid rows))"
proof -
  have "count_list (map ps_probe_id xs) pid = length (filter (\<lambda>r. ps_probe_id r = pid) xs)"
    for xs :: "status_row list"
    by (induction xs) auto
  then show ?thesis by (simp add: check_rows_def rows_of_def conj_commute)
qed

lemma check_offline:
  assumes "rows_of pid rows = xs @ [r]" "closed_at xs (ps_begin r)" "ps_active r" "ps_status r = Offline"
  shows "rows_of pid (fst (check_rows interval now rows)) = xs @ [r\<lparr>ps_end := now\<rparr>]"
    "count_list (snd (check_rows interval now rows)) pid =
      (if duration r < offline_for \<and> offline_for \<le> now - ps_begin r then 1 else 0)"
proof -
  show "rows_of pid (fst (check_rows interval now rows)) = xs @ [r\<lparr>ps_end := now\<rparr>]"
    using assms(3,4) by (simp add: check_chain [OF assms(1,2)] check_row_def lapsed_def)
  have "filter (notify_due now) xs = []"
    using closed_at_inactive [OF assms(2)] by (simp add: filter_empty_conv)
  then show "count_list (snd (check_rows interval now rows)) pid =
      (if duration r < offline_for \<and> offline_for \<le> now - ps_begin r then 1 else 0)"
    using assms(3,4) by (simp add: count_notified assms(1) notify_due_def duration_def)
qed

lemma notified_never_again:
  assumes "rows_of pid rows = xs @ [r]" "closed_at xs (ps_begin r)" "ps_active r" "ps_status r = Offline"
    "offline_for \<le> duration r" "\<forall>t \<in> set ts. ps_end r \<le> t" "sorted ts"
  shows "count_list (snd (check_many interval ts rows)) pid = 0"
  using assms
proof (induction ts arbitrary: rows r)
  case (Cons t ts)
  obtain rows' ns where c: "check_rows interval t rows = (rows', ns)" by fastforce
  note step = check_offline [OF Cons.prems(1-4), of interval t, unfolded c fst_conv snd_conv]
  have "count_list (snd (check_many interval ts rows')) pid = 0"
  proof (rule Cons.IH [OF step(1)])
    show "offline_for \<le> duration (r\<lparr>ps_end := t\<rparr>)"
      using Cons.prems(5,6) by (simp add: duration_def)
  qed (use Cons.prems in simp_all)
  with step(2) Cons.prems(5) c show ?case by (simp add: split_def)
qed simp


subsection \<open>Examples\<close>

definition demo_history :: "status_row list" where
  "demo_history =
     [\<lparr>ps_probe_id = 7, ps_active = False, ps_status = Online, ps_begin = 100, ps_end = 400\<rparr>,
      \<lparr>ps_probe_id = 7, ps_active = True, ps_status = Offline, ps_begin = 400, ps_end = 1400\<rparr>]"

lemma demo_history_ok: "history_ok 2000 demo_history"
proof -
  have "rows_of pid demo_history = (if pid = 7 then demo_history else [])" for pid
    by (simp add: rows_of_def demo_history_def)
  then show ?thesis by (simp add: history_ok_def demo_history_def)
qed



end
