(* ===== verification/Mgmt_Tunnel.thy ===== *)
theory Mgmt_Tunnel
  imports Mgmt_Tokens Tunnel_Rest
begin

text \<open>
  The management server's side of the SIM tunnel (\<^verbatim>\<open>tunnel_auth/\<close>): session tokens for probes
  and providers, the tunnel tokens and SIM permissions an administrator manages, and the
  questions the tunnel server asks. \<open>tunnel_auth_post\<close> answers its HTTP requests, so that
  \<open>moat_handler\<close>, the tunnel server's client for them, can be run against this model.
\<close>

section \<open>Tokens\<close>

definition is_valid_token :: "bytes \<Rightarrow> (('j, 'w) mgmt, moat_token) mact" where
  "is_valid_token token_bytes =
     bnd (get_db (\<lambda>d. find (\<lambda>t. mt_value t = token_bytes) (moat_tokens d))) (\<lambda>tok.
       case tok of
         None \<Rightarrow> throw (AuthException InvalidToken)
       | Some tok \<Rightarrow>
           bnd (of_result (expired tok)) (\<lambda>ex.
             if ex then throw (AuthException ExpiredToken) else ret tok))"

text \<open>\<^verbatim>\<open>get_valid_token\<close>; \<^verbatim>\<open>b64decode\<close> raises \<^verbatim>\<open>ValueError\<close> on a string that is not ASCII.\<close>

definition get_valid_token :: "string \<Rightarrow> (('j, 'w) mgmt, moat_token) mact" where
  "get_valid_token creds =
     transaction
       (if \<not> is_ascii creds then throw Mg_ValueError
        else (case b64decode creds of
                None \<Rightarrow> throw (AuthException InvalidToken)
              | Some bs \<Rightarrow> is_valid_token bs))"

text \<open>\<open>rnd\<close> is what \<^verbatim>\<open>secrets.token_bytes(32)\<close> returns.\<close>

definition generate_session_token ::
  "bytes \<Rightarrow> scope \<Rightarrow> moat_token \<Rightarrow> uuid option \<Rightarrow> uuid option \<Rightarrow> (('j, 'w) mgmt, bytes) mact" where
  "generate_session_token rnd scope token probe_id provider_id =
     (if \<not> scope_in scope (mt_scope token) then throw (HTTPException 403)
      else
        bnd (set_db (\<lambda>d. d\<lparr>session_rows := session_rows d @
               [\<lparr>st_value = rnd, st_token_id = mt_id token, st_scope = scope, st_probe_id = probe_id,
                 st_provider_id = provider_id\<rparr>]\<rparr>)) (\<lambda>_. ret rnd))"

definition generate_tunnel_token :: "bytes \<Rightarrow> scope \<Rightarrow> bool \<Rightarrow> (('j, 'w) mgmt, unit) mact" where
  "generate_tunnel_token rnd scope admin =
     set_db (\<lambda>d. d\<lparr>moat_tokens := moat_tokens d @
       [\<lparr>mt_id = mg_next d, mt_value = rnd, mt_scope = scope, mt_expires = None, mt_admin = admin\<rparr>],
       mg_next := mg_next d + 1\<rparr>)"

definition delete_session_token :: "bytes \<Rightarrow> (('j, 'w) mgmt, unit) mact" where
  "delete_session_token token =
     set_db (\<lambda>d. d\<lparr>session_rows := filter (\<lambda>r. st_value r \<noteq> token) (session_rows d)\<rparr>)"

definition moat_token_of :: "session_row \<Rightarrow> 'j mgmt_db \<Rightarrow> moat_token option" where
  "moat_token_of st d = find (\<lambda>t. mt_id t = st_token_id st) (moat_tokens d)"

text \<open>
  \<^verbatim>\<open>get_valid_sess_token\<close>, with the token the session belongs to; the foreign key makes sure
  that there is one.
\<close>

definition get_valid_sess_token :: "bytes \<Rightarrow> (('j, 'w) mgmt, session_row \<times> moat_token) mact" where
  "get_valid_sess_token token =
     transaction
       (bnd (get_db (\<lambda>d. find (\<lambda>r. st_value r = token) (session_rows d))) (\<lambda>stok.
          case stok of
            None \<Rightarrow> throw (AuthException InvalidToken)
          | Some stok \<Rightarrow>
              bnd (get_db (moat_token_of stok)) (\<lambda>tok.
                case tok of
                  None \<Rightarrow> throw Mg_AttributeError
                | Some tok \<Rightarrow>
                    bnd (of_result (expired tok)) (\<lambda>ex.
                      if ex then throw (AuthException ExpiredToken) else ret (stok, tok)))))"

definition scoped_token :: "scope \<Rightarrow> bytes \<Rightarrow> (('j, 'w) mgmt, session_row \<times> moat_token) mact" where
  "scoped_token scope token =
     bnd (get_valid_sess_token token) (\<lambda>st.
       if scope_in scope (st_scope (fst st)) then ret st else throw (AuthException InvalidToken))"

definition get_valid_provider_token :: "bytes \<Rightarrow> (('j, 'w) mgmt, session_row \<times> moat_token) mact" where
  "get_valid_provider_token = scoped_token Moat_Provider"

definition get_valid_probe_token :: "bytes \<Rightarrow> (('j, 'w) mgmt, session_row \<times> moat_token) mact" where
  "get_valid_probe_token = scoped_token Moat_Probe"

section \<open>Registration\<close>

text \<open>
  The constraints of the tunnel's tables: keys, unique values, unique ICCIDs and IMSIs, one
  client per session.
\<close>

definition tunnel_schema_ok :: "'j mgmt_db \<Rightarrow> bool" where
  "tunnel_schema_ok d \<longleftrightarrow>
     distinct (map mt_id (moat_tokens d)) \<and> distinct (map gs_id (mgmt_sims d)) \<and>
     distinct (map mt_value (moat_tokens d)) \<and> distinct (map st_value (session_rows d)) \<and>
     distinct_somes (map gs_iccid (mgmt_sims d)) \<and> distinct_somes (map gs_imsi (mgmt_sims d)) \<and>
     distinct (provider_ids d) \<and>
     distinct (map (\<lambda>a. (sa_sim_id a, sa_token_id a)) (sim_assocs d)) \<and>
     list_all (\<lambda>r. (st_probe_id r = None) \<noteq> (st_provider_id r = None)) (session_rows d) \<and>
     refs (map (Some \<circ> st_token_id) (session_rows d)) (map mt_id (moat_tokens d)) \<and>
     refs (map st_provider_id (session_rows d)) (provider_ids d) \<and>
     refs (map (Some \<circ> sa_token_id) (sim_assocs d)) (map mt_id (moat_tokens d)) \<and>
     refs (map (Some \<circ> sa_sim_id) (sim_assocs d)) (map gs_id (mgmt_sims d))"

definition flush_tunnel :: "(('j, 'w) mgmt, unit) mact" where
  "flush_tunnel =
     bnd (get_db (\<lambda>d. schema_ok d \<and> tunnel_schema_ok d)) (\<lambda>ok.
       if ok then ret () else throw Mg_IntegrityError)"

definition body_token :: "string \<Rightarrow> ('s, bytes) mact" where
  "body_token s = (case b64decode_lenient s of None \<Rightarrow> throw RequestValidationError | Some bs \<Rightarrow> ret bs)"

text \<open>The registrations return the session token, Base64 encoded.\<close>

definition mgmt_register_probe :: "time \<Rightarrow> bytes \<Rightarrow> string \<Rightarrow> string \<Rightarrow> (('j, 'w) mgmt, string) mact" where
  "mgmt_register_probe now rnd creds reg =
     bnd (bearer_token now Scope_Probe creds) (\<lambda>mam_token.
     bnd (body_token reg) (\<lambda>token_bytes.
     transaction
       (bnd (is_valid_token token_bytes) (\<lambda>token.
        bnd (get_db (probe_of (tk_id mam_token))) (\<lambda>probe.
          case probe of
            None \<Rightarrow> throw Mg_AttributeError
          | Some probe \<Rightarrow>
              bnd (generate_session_token rnd Moat_Probe token (Some (pr_id probe)) None) (\<lambda>value.
              bnd flush_tunnel (\<lambda>_. ret (b64encode value))))))))"

definition mgmt_register_provider :: "uuid \<Rightarrow> bytes \<Rightarrow> string \<Rightarrow> (('j, 'w) mgmt, string) mact" where
  "mgmt_register_provider uid rnd creds =
     bnd (get_valid_token creds) (\<lambda>token.
     transaction
       (bnd (set_db (\<lambda>d. d\<lparr>provider_ids := provider_ids d @ [uid]\<rparr>)) (\<lambda>_.
        bnd flush_tunnel (\<lambda>_.
        bnd (generate_session_token rnd Moat_Provider token None (Some uid)) (\<lambda>value.
        bnd flush_tunnel (\<lambda>_. ret (b64encode value)))))))"

definition mgmt_deregister :: "string \<Rightarrow> (('j, 'w) mgmt, unit) mact" where
  "mgmt_deregister value =
     bnd (body_token value) (\<lambda>bs. transaction (delete_session_token bs))"

definition create_token :: "mgmt_error + string \<Rightarrow> bytes \<Rightarrow> scope \<Rightarrow> bool \<Rightarrow> (('j, 'w) mgmt, unit) mact" where
  "create_token basic_auth rnd scope admin =
     bnd (of_result basic_auth) (\<lambda>_.
     transaction (bnd (generate_tunnel_token rnd scope admin) (\<lambda>_. flush_tunnel)))"

record allow_sim =
  as_iccid :: "string option"
  as_imsi :: "string option"
  as_public :: bool
  as_provide :: bool
  as_request :: bool

definition opt_number_ok :: "string option \<Rightarrow> bool" where
  "opt_number_ok s = (case s of None \<Rightarrow> True | Some i \<Rightarrow> valid_number i)"

definition allow_sim_ok :: "allow_sim \<Rightarrow> bool" where
  "allow_sim_ok r \<longleftrightarrow>
     opt_number_ok (as_iccid r) \<and> opt_number_ok (as_imsi r) \<and>
     \<not> (as_iccid r = None \<and> as_imsi r = None)"

text \<open>
  \<^verbatim>\<open>add_sim\<close> always inserts a new SIM, so a clash with an existing one is the client's error. The
  field \<^verbatim>\<open>public\<close> of the request is not used: the column's default is \<^verbatim>\<open>FALSE\<close>.
\<close>

definition add_sim :: "mgmt_error + string \<Rightarrow> int \<Rightarrow> allow_sim \<Rightarrow> (('j, 'w) mgmt, unit) mact" where
  "add_sim basic_auth token_id req =
     bnd (of_result basic_auth) (\<lambda>_.
     bnd (validate (allow_sim_ok req)) (\<lambda>_.
     transaction
       (bnd (get_db (\<lambda>d. find (\<lambda>t. mt_id t = token_id) (moat_tokens d))) (\<lambda>token.
          case token of
            None \<Rightarrow> throw (HTTPException 404)
          | Some token \<Rightarrow>
              bnd (get_db mg_next) (\<lambda>sim_id.
              bnd (set_db (\<lambda>d. d\<lparr>mgmt_sims := mgmt_sims d @
                     [\<lparr>gs_id = sim_id, gs_iccid = as_iccid req, gs_imsi = as_imsi req, gs_public = False\<rparr>],
                     mg_next := sim_id + 1\<rparr>)) (\<lambda>_.
              bnd (get_db tunnel_schema_ok) (\<lambda>ok.
                if \<not> ok then throw (HTTPException 400)
                else
                  bnd (set_db (\<lambda>d. d\<lparr>sim_assocs := sim_assocs d @
                         [\<lparr>sa_sim_id = sim_id, sa_token_id = mt_id token, sa_provide = as_provide req,
                           sa_request = as_request req\<rparr>]\<rparr>)) (\<lambda>_. flush_tunnel))))))))"

section \<open>The questions of the tunnel server\<close>

definition sim_matches :: "string option \<Rightarrow> string option \<Rightarrow> mgmt_sim \<Rightarrow> bool" where
  "sim_matches iccid imsi s \<longleftrightarrow>
     (iccid \<noteq> None \<longrightarrow> gs_iccid s = iccid) \<and> (imsi \<noteq> None \<longrightarrow> gs_imsi s = imsi)"

text \<open>The join over the associations of a token that allow it to provide.\<close>

definition providable :: "int \<Rightarrow> sim_ident \<Rightarrow> 'j mgmt_db \<Rightarrow> mgmt_sim list" where
  "providable token_id sim d =
     concat (map (\<lambda>s. map (\<lambda>a. s)
         (filter (\<lambda>a. sa_sim_id a = gs_id s \<and> sa_token_id a = token_id \<and> sa_provide a) (sim_assocs d)))
       (filter (sim_matches (si_iccid sim) (si_imsi sim)) (mgmt_sims d)))"

fun check_sims :: "int \<Rightarrow> sim_ident list \<Rightarrow> (('j, 'w) mgmt, bool) mact" where
  "check_sims token_id [] = ret True"
| "check_sims token_id (sim # sim_ids) =
     bnd (get_db (\<lambda>d. take 2 (providable token_id sim d))) (\<lambda>permission.
       if length permission \<noteq> 1 then throw (HTTPException 403) else check_sims token_id sim_ids)"

definition route_sim_registration :: "moat_token \<Rightarrow> sim_ident list \<Rightarrow> (('j, 'w) mgmt, bool) mact" where
  "route_sim_registration tok sim_ids =
     (if mt_admin tok then ret True else check_sims (mt_id tok) sim_ids)"

definition route_sim_request :: "moat_token \<Rightarrow> sim_ident \<Rightarrow> (('j, 'w) mgmt, bool) mact" where
  "route_sim_request tok sim =
     (if mt_admin tok then ret True
      else if si_iccid sim = None \<and> si_imsi sim = None then throw (HTTPException 403)
      else
        bnd (get_db (\<lambda>d. find (sim_matches (si_iccid sim) (si_imsi sim)) (mgmt_sims d))) (\<lambda>row.
          case row of
            None \<Rightarrow> throw (HTTPException 404)
          | Some row \<Rightarrow>
              if gs_public row then ret True
              else
                bnd (get_db (\<lambda>d. find (\<lambda>a. sa_token_id a = mt_id tok \<and> sa_sim_id a = gs_id row) (sim_assocs d))) (\<lambda>assoc.
                  case assoc of
                    None \<Rightarrow> throw (HTTPException 404)
                  | Some a \<Rightarrow> if sa_request a then ret True else throw (HTTPException 403))))"

definition route_identity :: "session_row \<Rightarrow> (('j, 'w) mgmt, uuid) mact" where
  "route_identity stok =
     (case st_probe_id stok of
        Some p \<Rightarrow> ret p
      | None \<Rightarrow> (case st_provider_id stok of Some p \<Rightarrow> ret p | None \<Rightarrow> throw Mg_AssertionError))"

section \<open>Their HTTP interface\<close>

text \<open>
  Bodies: a single parameter is the whole body, two are its fields. FastAPI runs the
  dependencies, which check the token, before it validates the rest of the body.
\<close>

record tunnel_env =
  te_basic_auth :: "mgmt_error + string"
  te_uuid_of_str :: "string \<Rightarrow> uuid option"
  te_str_of_uuid :: "uuid \<Rightarrow> string"

fun json_field :: "string \<Rightarrow> json \<Rightarrow> json option" where
  "json_field k (JObj kvs) = map_of kvs k"
| "json_field k _ = None"

fun json_token :: "json option \<Rightarrow> ('s, bytes) mact" where
  "json_token (Some (JStr s)) = body_token s"
| "json_token _ = throw RequestValidationError"

fun json_opt_number :: "json option \<Rightarrow> string option option" where
  "json_opt_number None = Some None"
| "json_opt_number (Some JNull) = Some None"
| "json_opt_number (Some (JStr s)) = (if valid_number s then Some (Some s) else None)"
| "json_opt_number (Some _) = None"

text \<open>\<^verbatim>\<open>SimId\<close>, with its validator \<^verbatim>\<open>require_id\<close>.\<close>

definition json_sim :: "json \<Rightarrow> sim_ident option" where
  "json_sim j =
     (case (json_field ''id'' j, json_opt_number (json_field ''iccid'' j), json_opt_number (json_field ''imsi'' j)) of
        (Some (JInt i), Some iccid, Some imsi) \<Rightarrow>
          if 0 \<le> i \<and> i < 2 ^ 64 \<and> \<not> (iccid = None \<and> imsi = None)
          then Some \<lparr>si_id = i, si_iccid = iccid, si_imsi = imsi\<rparr> else None
      | _ \<Rightarrow> None)"

definition distinct_ids :: "sim_ident list \<Rightarrow> bool" where
  "distinct_ids sim_ids \<longleftrightarrow> distinct_somes (map si_iccid sim_ids) \<and> distinct_somes (map si_imsi sim_ids)"

fun json_sims :: "json option \<Rightarrow> ('s, sim_ident list) mact" where
  "json_sims (Some (JList js)) =
     (if list_all (\<lambda>j. json_sim j \<noteq> None) js \<and> distinct_ids (map (\<lambda>j. the (json_sim j)) js)
      then ret (map (\<lambda>j. the (json_sim j)) js) else throw RequestValidationError)"
| "json_sims _ = throw RequestValidationError"

definition json_request :: "tunnel_env \<Rightarrow> json option \<Rightarrow> ('s, sim_ident) mact" where
  "json_request te j =
     (case (Option.bind j (json_field ''provider_id''), Option.bind (Option.bind j (json_field ''sim'')) json_sim) of
        (Some (JStr u), Some sim) \<Rightarrow>
          if te_uuid_of_str te u \<noteq> None then ret sim else throw RequestValidationError
      | _ \<Rightarrow> throw RequestValidationError)"

definition tunnel_auth_route ::
  "tunnel_env \<Rightarrow> string \<Rightarrow> json \<Rightarrow> (('j, 'w) mgmt, json) mact" where
  "tunnel_auth_route te path body =
     bnd (of_result (te_basic_auth te)) (\<lambda>_.
       if path = ''/allowed-provider-registration'' then
         bnd (json_token (Some body)) (\<lambda>t. bnd (get_valid_provider_token t) (\<lambda>_. ret (JBool True)))
       else if path = ''/allowed-sim-registration'' then
         bnd (json_token (json_field ''token'' body)) (\<lambda>t.
         bnd (get_valid_provider_token t) (\<lambda>st.
         bnd (json_sims (json_field ''sims'' body)) (\<lambda>sim_ids.
         bnd (route_sim_registration (snd st) sim_ids) (\<lambda>b. ret (JBool b)))))
       else if path = ''/allowed-probe-registration'' then
         bnd (json_token (Some body)) (\<lambda>t. bnd (get_valid_probe_token t) (\<lambda>_. ret (JBool True)))
       else if path = ''/allowed-sim-request'' then
         bnd (json_token (json_field ''token'' body)) (\<lambda>t.
         bnd (get_valid_probe_token t) (\<lambda>st.
         bnd (json_request te (json_field ''request'' body)) (\<lambda>sim.
         bnd (route_sim_request (snd st) sim) (\<lambda>b. ret (JBool b)))))
       else if path = ''/identity'' then
         bnd (json_token (Some body)) (\<lambda>t.
         bnd (get_valid_sess_token t) (\<lambda>st.
         bnd (route_identity (fst st)) (\<lambda>u. ret (JStr (te_str_of_uuid te u)))))
       else throw (HTTPException 404))"

definition tunnel_auth_post ::
  "tunnel_env \<Rightarrow> string \<Rightarrow> json \<Rightarrow> ('j, 'w) mgmt \<Rightarrow> http_response option \<times> ('j, 'w) mgmt" where
  "tunnel_auth_post te path body s =
     (case tunnel_auth_route te path body s of
        (Inl e, s') \<Rightarrow> (Some \<lparr>res_status = mgmt_status e, res_json = JNull\<rparr>, s')
      | (Inr j, s') \<Rightarrow> (Some \<lparr>res_status = 200, res_json = j\<rparr>, s'))"

text \<open>The tunnel server's client, connected to this server.\<close>

definition tunnel_mgmt_env :: "tunnel_env \<Rightarrow> ('j, 'w) mgmt mgmt_env" where
  "tunnel_mgmt_env te =
     \<lparr>env_post = tunnel_auth_post te, env_uuid_of_str = te_uuid_of_str te,
      env_str_of_uuid = te_str_of_uuid te, env_base64 = b64encode\<rparr>"

section \<open>What the routes answer\<close>

text \<open>A session that may be used: its row, and the token it belongs to.\<close>

definition live_session :: "bytes \<Rightarrow> 'j mgmt_db \<Rightarrow> (session_row \<times> moat_token) option" where
  "live_session v d =
     Option.bind (find (\<lambda>r. st_value r = v) (session_rows d)) (\<lambda>st.
       map_option (Pair st) (moat_token_of st d))"

definition no_expiry :: "'j mgmt_db \<Rightarrow> bool" where
  "no_expiry d \<longleftrightarrow> list_all (\<lambda>t. mt_expires t = None) (moat_tokens d)"

lemma get_valid_sess_token_run:
  assumes "no_expiry (mg_db s)" "tunnel_schema_ok (mg_db s)"
  shows "get_valid_sess_token v s =
    ((case live_session v (mg_db s) of None \<Rightarrow> Inl (AuthException InvalidToken) | Some x \<Rightarrow> Inr x), s)"
proof (cases "find (\<lambda>r. st_value r = v) (session_rows (mg_db s))")
  case None
  then show ?thesis by (simp add: get_valid_sess_token_def live_session_def transaction_def)
next
  case (Some st)
  from find_SomeD [OF Some] have "Some (st_token_id st) \<in> set (map (Some \<circ> st_token_id) (session_rows (mg_db s)))"
    by auto
  with assms(2) have "st_token_id st \<in> set (map mt_id (moat_tokens (mg_db s)))"
    unfolding tunnel_schema_ok_def refs_iff by blast
  then have "moat_token_of st (mg_db s) \<noteq> None" by (auto simp: moat_token_of_def find_None_iff)
  then obtain tok where tok: "moat_token_of st (mg_db s) = Some tok" by blast
  then have "tok \<in> set (moat_tokens (mg_db s))" unfolding moat_token_of_def by (blast dest: find_SomeD)
  with assms(1) have "expired tok = Inr False" by (auto simp: no_expiry_def list_all_iff expired_def)
  with Some tok show ?thesis
    by (simp add: get_valid_sess_token_def live_session_def transaction_def of_result_def bnd_def)
qed

lemma scoped_token_run:
  assumes "no_expiry (mg_db s)" "tunnel_schema_ok (mg_db s)"
  shows "scoped_token sc v s =
    ((case live_session v (mg_db s) of
        None \<Rightarrow> Inl (AuthException InvalidToken)
      | Some x \<Rightarrow> if scope_in sc (st_scope (fst x)) then Inr x else Inl (AuthException InvalidToken)), s)"
  by (simp add: scoped_token_def bnd_def get_valid_sess_token_run [OF assms] split: option.split)

lemma check_sims_run:
  "check_sims i sim_ids s =
     ((if list_all (\<lambda>sim. length (providable i sim (mg_db s)) = 1) sim_ids then Inr True
       else Inl (HTTPException 403)), s)"
  by (induction sim_ids) auto

text \<open>The bodies that \<^verbatim>\<open>MoatManagementAuth\<close> sends are read back as they were written.\<close>

definition ident_ok :: "sim_ident \<Rightarrow> bool" where
  "ident_ok s \<longleftrightarrow>
     0 \<le> si_id s \<and> si_id s < 2 ^ 64 \<and> opt_number_ok (si_iccid s) \<and> opt_number_ok (si_imsi s) \<and>
     \<not> (si_iccid s = None \<and> si_imsi s = None)"

lemma json_opt_number_json:
  "opt_number_ok x \<Longrightarrow> json_opt_number (Some (opt_str_json x)) = Some x"
  by (cases x) (auto simp: opt_number_ok_def opt_str_json_def)

lemma json_sim_json: "ident_ok x \<Longrightarrow> json_sim (sim_ident_json x) = Some x"
  by (auto simp: json_sim_def sim_ident_json_def ident_ok_def json_opt_number_json)

lemma json_sims_json:
  assumes "list_all ident_ok xs" "distinct_ids xs"
  shows "json_sims (Some (JList (map sim_ident_json xs))) s = (Inr xs, s)"
proof -
  have "map (\<lambda>x. the (json_sim (sim_ident_json x))) xs = xs"
    using assms(1) by (intro map_idI) (auto simp: list_all_iff json_sim_json)
  with assms show ?thesis by (auto simp: list_all_iff json_sim_json comp_def)
qed

lemma json_token_json [simp]: "json_token (Some (JStr (b64encode bs))) = ret bs"
  by (rule ext) (simp add: body_token_def)

declare json_token.simps [simp del] json_sims.simps [simp del]

text \<open>The decision of the management server on a list of SIMs.\<close>

definition may_provide :: "bytes \<Rightarrow> sim_ident list \<Rightarrow> 'j mgmt_db \<Rightarrow> bool" where
  "may_provide v xs d =
     (case live_session v d of
        None \<Rightarrow> False
      | Some (st, tok) \<Rightarrow>
          scope_in Moat_Provider (st_scope st) \<and>
          (mt_admin tok \<or> list_all (\<lambda>x. length (providable (mt_id tok) x d) = 1) xs))"


lemma live_session_registered:
  assumes "tunnel_schema_ok d" "r \<in> set (session_rows d)"
    "tok \<in> set (moat_tokens d)" "mt_id tok = st_token_id r"
  shows "live_session (st_value r) d = Some (r, tok)"
proof -
  have "find (\<lambda>q. st_value q = st_value r) (session_rows d) \<noteq> None" using assms(2) by (auto simp: find_None_iff)
  then obtain q where q: "find (\<lambda>q. st_value q = st_value r) (session_rows d) = Some q" by blast
  with find_SomeD [OF q] assms(1,2) have "q = r"
    by (auto simp: tunnel_schema_ok_def distinct_map dest: inj_onD)
  have "find (\<lambda>t. mt_id t = st_token_id r) (moat_tokens d) \<noteq> None" using assms(3,4) by (auto simp: find_None_iff)
  then obtain u where u: "find (\<lambda>t. mt_id t = st_token_id r) (moat_tokens d) = Some u" by blast
  moreover have "inj_on mt_id (set (moat_tokens d))" using assms(1) by (simp add: tunnel_schema_ok_def distinct_map)
  ultimately have "u = tok" using find_SomeD [OF u] assms(3,4) by (metis inj_onD)
  with q u \<open>q = r\<close> show ?thesis by (simp add: live_session_def moat_token_of_def)
qed

lemma is_valid_token_Inr:
  "is_valid_token v s = (Inr tok, s') \<Longrightarrow> tok \<in> set (moat_tokens (mg_db s)) \<and> s' = s \<and> mt_value tok = v"
  by (auto simp: is_valid_token_def bnd_def of_result_def expired_def split: option.splits if_splits
      dest: find_SomeD)

lemma flush_tunnel_Inr:
  "flush_tunnel s = (Inr x, s') \<longleftrightarrow> schema_ok (mg_db s) \<and> tunnel_schema_ok (mg_db s) \<and> s' = s"
  by (auto simp: flush_tunnel_def)

lemma mgmt_register_probe_Inr:
  assumes "mgmt_register_probe now rnd creds reg s = (Inr v, s')"
  obtains t p tok l where "check_token creds Scope_Probe (mg_db s) = Inr t"
    "probe_of (tk_id t) (mg_db s) = Some p" "tok \<in> set (moat_tokens (mg_db s))" "v = b64encode rnd"
    "scope_in Moat_Probe (mt_scope tok)"
    "mg_db s' = (add_log l (mg_db s))\<lparr>session_rows := session_rows (mg_db s) @
       [\<lparr>st_value = rnd, st_token_id = mt_id tok, st_scope = Moat_Probe, st_probe_id = Some (pr_id p),
         st_provider_id = None\<rparr>]\<rparr>" "tunnel_schema_ok (mg_db s')"
proof (cases "check_token creds Scope_Probe (mg_db s)")
  case (Inl e)
  with assms show thesis
    by (cases rule: bearer_cases [of creds Scope_Probe s now]) (auto simp: mgmt_register_probe_def bnd_cases)
next
  case (Inr t)
  then obtain l where b: "bearer_token now Scope_Probe creds s = (Inr t, s\<lparr>mg_db := add_log l (mg_db s)\<rparr>)"
    by (metis bearer_cases Inr_inject Inl_Inr_False)
  let ?s = "s\<lparr>mg_db := add_log l (mg_db s)\<rparr>"
  have same: "probe_of i (add_log l (mg_db s)) = probe_of i (mg_db s)" "moat_tokens (add_log l (mg_db s)) = moat_tokens (mg_db s)"
    "session_rows (add_log l (mg_db s)) = session_rows (mg_db s)" for i
    by (simp_all add: probe_of_def add_log_def)
  from assms b obtain bs where run: "transaction (bnd (is_valid_token bs) (\<lambda>token.
      bnd (get_db (probe_of (tk_id t))) (\<lambda>probe. case probe of None \<Rightarrow> throw Mg_AttributeError
        | Some probe \<Rightarrow> bnd (generate_session_token rnd Moat_Probe token (Some (pr_id probe)) None) (\<lambda>value.
              bnd flush_tunnel (\<lambda>_. ret (b64encode value)))))) ?s = (Inr v, s')"
    by (auto simp: mgmt_register_probe_def bnd_cases body_token_def bnd_Inr split: option.splits)
  then obtain tok s1 p where "is_valid_token bs ?s = (Inr tok, s1)" "probe_of (tk_id t) (mg_db s1) = Some p"
    "bnd (generate_session_token rnd Moat_Probe tok (Some (pr_id p)) None) (\<lambda>value.
              bnd flush_tunnel (\<lambda>_. ret (b64encode value))) s1 = (Inr v, s')"
    by (auto simp: transaction_Inr bnd_Inr split: option.splits)
  with is_valid_token_Inr [of bs ?s tok s1] show thesis
    by (intro that [OF Inr, of p tok l])
      (auto simp: generate_session_token_def same bnd_Inr flush_tunnel_Inr simp del: scope_in_simps split: if_splits)
qed

lemma scoped_answer:
  assumes "te_basic_auth te = Inr admin" "no_expiry (mg_db (world h))" "tunnel_schema_ok (mg_db (world h))"
  shows "allowed_probe_registration (moat_handler (tunnel_mgmt_env te)) t h =
      (Inr (case live_session (as_bytes t) (mg_db (world h)) of
         Some x \<Rightarrow> if scope_in Moat_Probe (st_scope (fst x)) then AR_Success else AR_Forbidden
       | None \<Rightarrow> AR_Forbidden), h)"
    "allowed_provider_registration (moat_handler (tunnel_mgmt_env te)) t h =
      (Inr (case live_session (as_bytes t) (mg_db (world h)) of
         Some x \<Rightarrow> if scope_in Moat_Provider (st_scope (fst x)) then AR_Success else AR_Forbidden
       | None \<Rightarrow> AR_Forbidden), h)"
  by (simp_all add: moat_handler_def moat_allowed_probe_registration_def
      moat_allowed_provider_registration_def bnd_def moat_post_def tunnel_mgmt_env_def
      tunnel_auth_post_def tunnel_auth_route_def token_json_def of_result_def assms(1)
      get_valid_probe_token_def get_valid_provider_token_def scoped_token_run [OF assms(2,3)]
      process_result_def http_success_def del: scope_in_simps split: option.split)

lemma identity_answer:
  assumes "te_basic_auth te = Inr admin" "no_expiry (mg_db (world h))" "tunnel_schema_ok (mg_db (world h))"
    "id_cache h t = None" "live_session (as_bytes t) (mg_db (world h)) = Some (st, tok)"
    "st_probe_id st = Some u" "te_uuid_of_str te (te_str_of_uuid te u) = Some u"
  shows "identity (moat_handler (tunnel_mgmt_env te)) t h =
    (Inr (Some u), h\<lparr>id_cache := (id_cache h)(t \<mapsto> u)\<rparr>)"
  using assms(4-7)
  by (simp add: moat_handler_def moat_identity_def bnd_def moat_post_def tunnel_mgmt_env_def
      tunnel_auth_post_def tunnel_auth_route_def token_json_def of_result_def assms(1)
      get_valid_sess_token_run [OF assms(2,3)] route_identity_def http_success_def)

text \<open>
  A registered probe is known to the tunnel server: the session token that
  \<^verbatim>\<open>POST /tunnel/probe\<close> returns identifies, through the tunnel server's handler, the probe of
  the access token it was requested with, is accepted for probes, and refused for providers.
\<close>

theorem registered_probe_known:
  assumes "mgmt_register_probe now rnd creds reg s = (Inr v, s')" "no_expiry (mg_db s)"
    "te_basic_auth te = Inr admin" "\<And>u. te_uuid_of_str te (te_str_of_uuid te u) = Some u"
    "world h = s'" "id_cache h (Token rnd) = None"
  shows "\<exists>t p. check_token creds Scope_Probe (mg_db s) = Inr t \<and> probe_of (tk_id t) (mg_db s) = Some p \<and>
    v = b64encode rnd \<and>
    allowed_probe_registration (moat_handler (tunnel_mgmt_env te)) (Token rnd) h = (Inr AR_Success, h) \<and>
    allowed_provider_registration (moat_handler (tunnel_mgmt_env te)) (Token rnd) h = (Inr AR_Forbidden, h) \<and>
    identity (moat_handler (tunnel_mgmt_env te)) (Token rnd) h =
      (Inr (Some (pr_id p)), h\<lparr>id_cache := (id_cache h)(Token rnd \<mapsto> pr_id p)\<rparr>)"
proof -
  from mgmt_register_probe_Inr [OF assms(1)] obtain t p tok l where
    t: "check_token creds Scope_Probe (mg_db s) = Inr t" "probe_of (tk_id t) (mg_db s) = Some p"
    and tok: "tok \<in> set (moat_tokens (mg_db s))" and v: "v = b64encode rnd"
    and s': "mg_db s' = (add_log l (mg_db s))\<lparr>session_rows := session_rows (mg_db s) @
       [\<lparr>st_value = rnd, st_token_id = mt_id tok, st_scope = Moat_Probe, st_probe_id = Some (pr_id p),
         st_provider_id = None\<rparr>]\<rparr>" and ok: "tunnel_schema_ok (mg_db s')" by metis
  let ?r = "\<lparr>st_value = rnd, st_token_id = mt_id tok, st_scope = Moat_Probe, st_probe_id = Some (pr_id p),
         st_provider_id = None\<rparr>"
  have toks: "moat_tokens (mg_db s') = moat_tokens (mg_db s)" by (simp add: s' add_log_def)
  have fresh: "no_expiry (mg_db (world h))" using assms(2) toks by (simp add: no_expiry_def assms(5))
  have sch: "tunnel_schema_ok (mg_db (world h))" using ok by (simp add: assms(5))
  have live: "live_session (as_bytes (Token rnd)) (mg_db (world h)) = Some (?r, tok)"
    using live_session_registered [OF ok, of ?r tok] tok toks by (simp add: s' assms(5))
  from scoped_answer [OF assms(3) fresh sch, of "Token rnd"] live
  have "allowed_probe_registration (moat_handler (tunnel_mgmt_env te)) (Token rnd) h = (Inr AR_Success, h)"
    "allowed_provider_registration (moat_handler (tunnel_mgmt_env te)) (Token rnd) h = (Inr AR_Forbidden, h)"
    by simp_all
  moreover have "identity (moat_handler (tunnel_mgmt_env te)) (Token rnd) h =
      (Inr (Some (pr_id p)), h\<lparr>id_cache := (id_cache h)(Token rnd \<mapsto> pr_id p)\<rparr>)"
    by (rule identity_answer [OF assms(3) fresh sch assms(6) live]) (simp_all add: assms(4))
  ultimately show ?thesis using t v by blast
qed

lemma live_session_deleted:
  "live_session v (d\<lparr>session_rows := filter (\<lambda>r. st_value r \<noteq> v) (session_rows d)\<rparr>) = None"
proof -
  have "find (\<lambda>r. st_value r = v) (filter (\<lambda>r. st_value r \<noteq> v) (session_rows d)) = None"
    by (auto simp: find_None_iff)
  then show ?thesis by (simp add: live_session_def)
qed

lemma tunnel_schema_filter:
  "tunnel_schema_ok d \<Longrightarrow> tunnel_schema_ok (d\<lparr>session_rows := filter Q (session_rows d)\<rparr>)"
  by (auto simp: tunnel_schema_ok_def distinct_map_filter list_all_iff refs_iff)

text \<open>
  C29: Deregistration ends a session at once: after \<^verbatim>\<open>DELETE /tunnel/probe\<close> or
  \<^verbatim>\<open>/tunnel/provider\<close> the token is refused for probes and for providers. The deletion asks for
  no credentials but the token itself. An identity that the tunnel server has cached for the
  token is still returned.
\<close>

theorem deregistration_ends_session:
  assumes "mgmt_deregister (b64encode (as_bytes t)) s = (Inr u, s')" "world h = s'"
    "no_expiry (mg_db s)" "tunnel_schema_ok (mg_db s)" "te_basic_auth te = Inr admin"
  shows "allowed_probe_registration (moat_handler (tunnel_mgmt_env te)) t h = (Inr AR_Forbidden, h) \<and>
    allowed_provider_registration (moat_handler (tunnel_mgmt_env te)) t h = (Inr AR_Forbidden, h) \<and>
    (\<forall>i. id_cache h t = Some i \<longrightarrow> identity (moat_handler (tunnel_mgmt_env te)) t h = (Inr (Some i), h))"
proof -
  from assms(1) have s': "mg_db s' = (mg_db s)\<lparr>session_rows := filter (\<lambda>r. st_value r \<noteq> as_bytes t) (session_rows (mg_db s))\<rparr>"
    by (auto simp: mgmt_deregister_def body_token_def delete_session_token_def transaction_def)
  have dead: "live_session (as_bytes t) (mg_db (world h)) = None"
    by (simp add: assms(2) s' live_session_deleted)
  have "no_expiry (mg_db (world h))" "tunnel_schema_ok (mg_db (world h))"
    using assms(3,4) tunnel_schema_filter by (simp_all add: assms(2) s' no_expiry_def)
  from scoped_answer [OF assms(5) this, of t] dead
  have "allowed_probe_registration (moat_handler (tunnel_mgmt_env te)) t h = (Inr AR_Forbidden, h)"
    "allowed_provider_registration (moat_handler (tunnel_mgmt_env te)) t h = (Inr AR_Forbidden, h)" by simp_all
  then show ?thesis using moat_auth.identity_known by blast
qed

subsection \<open>A small database\<close>

definition demo_tunnel_env :: tunnel_env where
  "demo_tunnel_env =
     \<lparr>te_basic_auth = Inr ''tunnel'',
      te_uuid_of_str = (\<lambda>s. if length s = 128 then Some (horner_sum of_bool 2 (map (\<lambda>c. c = CHR ''1'') s)) else None),
      te_str_of_uuid = (\<lambda>u. map (\<lambda>n. if bit u n then CHR ''1'' else CHR ''0'') [0..<128])\<rparr>"

lemma demo_uuid: "te_uuid_of_str demo_tunnel_env (te_str_of_uuid demo_tunnel_env u) = Some u"
proof -
  have "map (\<lambda>n. (if bit u n then CHR ''1'' else CHR ''0'') = CHR ''1'') [0..<128] = map (bit u) [0..<128]"
    by simp
  moreover have "horner_sum of_bool 2 (map (bit u) [0..<128]) = take_bit 128 u"
    by (rule horner_sum_bit_eq_take_bit)
  moreover have "take_bit 128 u = u" by (rule bit_eqI) (auto simp: bit_take_bit_iff dest: bit_imp_le_length)
  ultimately show ?thesis by (simp add: demo_tunnel_env_def comp_def)
qed

definition demo_moat :: "(unit, nat) mgmt" where
  "demo_moat = demo_mgmt\<lparr>mg_db := (mg_db demo_mgmt)
     \<lparr>moat_tokens := [\<lparr>mt_id = 0, mt_value = [1], mt_scope = 3, mt_expires = None, mt_admin = False\<rparr>],
      mgmt_sims := [\<lparr>gs_id = 1, gs_iccid = Some ''894301'', gs_imsi = None, gs_public = False\<rparr>],
      sim_assocs := [\<lparr>sa_sim_id = 1, sa_token_id = 0, sa_provide = True, sa_request = False\<rparr>],
      session_rows := [\<lparr>st_value = [2], st_token_id = 0, st_scope = Moat_Provider, st_probe_id = None,
        st_provider_id = Some 9\<rparr>],
      provider_ids := [9]\<rparr>\<rparr>"

lemma demo_moat_ok: "mgmt_ok (mg_db demo_moat)" "tunnel_schema_ok (mg_db demo_moat)" "no_expiry (mg_db demo_moat)"
  by (simp_all add: mgmt_ok_def mam_ok_def schema_ok_def demo_mgmt_def distinct_somes_def
      active_ids_code demo_moat_def tunnel_schema_ok_def no_expiry_def)


theorem registered_probe_known_witness:
  "\<exists>v s'. mgmt_register_probe 9 [3] (demo_value 0) ''AQ=='' demo_moat = (Inr v, s') \<and>
     allowed_probe_registration (moat_handler (tunnel_mgmt_env demo_tunnel_env)) (Token [3])
       \<lparr>id_cache = (\<lambda>t. None), world = s'\<rparr> = (Inr AR_Success, \<lparr>id_cache = (\<lambda>t. None), world = s'\<rparr>)"
proof -
  have aq: "b64decode_lenient ''AQ=='' = Some [1]" by code_simp
  obtain v s' where run: "mgmt_register_probe 9 [3] (demo_value 0) ''AQ=='' demo_moat = (Inr v, s')"
    by (simp add: mgmt_register_probe_def bearer_token_def transaction_def check_token_def demo_moat_def
        demo_mgmt_def bnd_def of_result_def add_log_def body_token_def aq is_valid_token_def expired_def
        probe_of_def generate_session_token_def flush_tunnel_def schema_ok_def tunnel_schema_ok_def
        distinct_somes_def token_value_def)
  from registered_probe_known [OF run demo_moat_ok(3), of demo_tunnel_env "''tunnel''" "\<lparr>id_cache = (\<lambda>t. None), world = s'\<rparr>"]
    demo_uuid run show ?thesis by (auto simp: demo_tunnel_env_def)
qed

theorem deregistration_ends_session_witness:
  "\<exists>s'. mgmt_deregister (b64encode [2]) demo_moat = (Inr (), s') \<and>
     allowed_provider_registration (moat_handler (tunnel_mgmt_env demo_tunnel_env)) (Token [2])
       \<lparr>id_cache = (\<lambda>t. None), world = s'\<rparr> = (Inr AR_Forbidden, \<lparr>id_cache = (\<lambda>t. None), world = s'\<rparr>)"
proof -
  obtain s' where run: "mgmt_deregister (b64encode [2]) demo_moat = (Inr (), s')"
    by (simp add: mgmt_deregister_def body_token_def delete_session_token_def transaction_def
        del: b64encode.simps)
  then have "mgmt_deregister (b64encode (as_bytes (Token [2]))) demo_moat = (Inr (), s')"
    by (simp only: token.sel)
  from deregistration_ends_session [OF this, of "\<lparr>id_cache = (\<lambda>t. None), world = s'\<rparr>"
      demo_tunnel_env "''tunnel''"] demo_moat_ok run
  show ?thesis by (simp add: demo_tunnel_env_def)
qed

end
