(* ===== verification/Mgmt_System.thy ===== *)
theory Mgmt_System
  imports Mgmt_Probes Mgmt_Tunnel
begin

text \<open>
  The management server as a whole: its routes and its periodic check as the steps of a
  transition system, one transaction at a time, at times that do not go back. The locale
  \<open>mgmt_frame\<close> states when a property of the database is not the business of the token and
  probe routes; it is interpreted for the tunnel's tables and for the status history.
  \<open>mgmt_reachable_ok\<close> is the invariant of every state the server can reach.
\<close>

section \<open>Operations that keep a property of other tables\<close>

lemma keeps_option [preserves]:
  "(x = None \<Longrightarrow> preserves P m) \<Longrightarrow> (\<And>y. x = Some y \<Longrightarrow> preserves P (f y)) \<Longrightarrow>
     preserves P (case x of None \<Rightarrow> m | Some y \<Rightarrow> f y)"
  by (cases x) simp_all

lemma keeps_list [preserves]:
  "preserves P m \<Longrightarrow> (\<And>y ys. preserves P (f y ys)) \<Longrightarrow>
     preserves P (case xs of [] \<Rightarrow> m | y # ys \<Rightarrow> f y ys)"
  by (cases xs) simp_all

lemma keeps_tx: "preserves P m \<Longrightarrow> preserves P (transaction m)"
  by (rule keeps_transaction) (rule keeps_ok_keeps)

lemma keeps_flushes [preserves]: "preserves P flush" "preserves P flush_tunnel"
  unfolding flush_def flush_tunnel_def by (intro preserves)+

lemma keeps_body_token [preserves]: "preserves P (body_token v)"
  unfolding body_token_def by (intro preserves)

locale mgmt_frame =
  fixes P :: "'j mgmt_db \<Rightarrow> bool"
  assumes tokens: "P d \<Longrightarrow> P (d\<lparr>mam_tokens := ts\<rparr>)"
    and logs: "P d \<Longrightarrow> P (d\<lparr>mam_logs := ls\<rparr>)"
    and wgs: "P d \<Longrightarrow> P (d\<lparr>wg_rows := ws\<rparr>)"
    and attempts: "P d \<Longrightarrow> P (d\<lparr>wg_logs := us\<rparr>)"
    and probes: "P d \<Longrightarrow> P (d\<lparr>mg_probes := ps\<rparr>)"
    and startups: "P d \<Longrightarrow> P (d\<lparr>mg_startups := ss\<rparr>)"
    and infos: "P d \<Longrightarrow> P (d\<lparr>mg_infos := is\<rparr>)"
    and fewer_statuses: "P d \<Longrightarrow> P (d\<lparr>mg_statuses := filter (\<lambda>r. ps_probe_id r \<notin> A) (mg_statuses d)\<rparr>)"
    and next_id: "P d \<Longrightarrow> P (d\<lparr>mg_next := mg_next d + 1\<rparr>)"
begin

lemma rows_kept:
  "P d \<Longrightarrow> P (add_log l d)" "P d \<Longrightarrow> P (update_token i f d)" "P d \<Longrightarrow> P (update_wg i g d)"
  "P d \<Longrightarrow> P (update_probe pid h d)" "P d \<Longrightarrow> P (set_last_poll pid now d)"
  "P d \<Longrightarrow> P (log_config_attempt now ip t pk b mac d)" "P d \<Longrightarrow> P (mark_successful k d)"
  by (simp_all add: add_log_def update_token_def update_wg_def update_probe_def set_last_poll_def
      log_config_attempt_def mark_successful_def logs tokens wgs probes attempts)

lemma delete_row_kept: "P d \<Longrightarrow> P (delete_row t d)"
proof -
  assume "P d"
  let ?gone = "map pr_id (filter (\<lambda>p. pr_token_id p = tk_id t) (mg_probes d))"
  let ?d1 = "d\<lparr>mg_statuses := filter (\<lambda>r. ps_probe_id r \<notin> set ?gone) (mg_statuses d)\<rparr>"
  have "P ?d1" using \<open>P d\<close> by (rule fewer_statuses)
  from infos [OF startups [OF probes [OF wgs [OF logs [OF tokens [OF this]]]]],
      of "filter (\<lambda>r. fst r \<notin> set ?gone) (mg_infos d)" "filter (\<lambda>r. su_probe_id r \<notin> set ?gone) (mg_startups d)"
        "filter (\<lambda>p. pr_token_id p \<noteq> tk_id t) (mg_probes d)" "filter (\<lambda>w. wg_token_id w \<noteq> tk_id t) (wg_rows d)"
        "map (\<lambda>l. if ml_token_id l = Some (tk_id t) then l\<lparr>ml_token_id := None\<rparr> else l) (mam_logs d)"
        "filter (\<lambda>u. tk_id u \<noteq> tk_id t) (mam_tokens d)"]
  show ?thesis
    by (rule back_subst) (rule mgmt_db.equality; simp add: delete_row_def Let_def)
qed

lemma set_peer_kept: "P d \<Longrightarrow> P (set_peer now t reg k d)"
  unfolding set_peer_def by (intro rows_kept)

lemma bearer_kept: "preserves P (bearer_token now sc creds)"
  unfolding bearer_token_def by (intro keeps_tx preserves keeps_set_db rows_kept)

lemma add_candidate_kept: "preserves P (add_token_candidate now cand sc mac)"
proof -
  have "P (d\<lparr>mam_tokens := ts, mam_logs := ls, mg_next := mg_next d + 1\<rparr>)" if "P d" for d ts ls
    using next_id [OF logs [OF tokens [OF that]], of ls ts] by simp
  then show ?thesis by (simp add: preserves_def add_token_candidate_def Let_def)
qed

lemma register_kept: "preserves P (token_register now reg)"
  unfolding token_register_def prune_candidates_def
  by (intro keeps_tx preserves keeps_set_db add_candidate_kept tokens)

lemma delete_all_kept: "preserves P (delete_all env now ts)"
proof (induction ts)
  case (Cons t ts)
  then show ?case
    unfolding delete_all.simps delete_one_def
    by (intro preserves keeps_set_db rows_kept delete_row_kept)
qed (simp add: preserves_def)

lemma delete_token_kept: "preserves P (delete_token env now v)"
  unfolding delete_token_def by (intro preserves delete_all_kept)

lemma deactivate_kept: "preserves P (token_deactivate env now auth v)"
  unfolding token_deactivate_def by (intro keeps_tx preserves delete_token_kept)

lemma revoke_kept: "preserves P (revoke env now creds)"
  unfolding revoke_def by (intro keeps_tx preserves delete_token_kept bearer_kept)

lemma activate_kept: "preserves P (token_activate now uid auth args)"
  unfolding token_activate_def find_candidate_def activate_token_def activate_def Let_def
    wg_after_activation_def probe_after_activation_def for_some_def commit_activation_def
  by (intro keeps_tx preserves keeps_set_db rows_kept add_candidate_kept wgs probes)

lemma wireguard_register_kept: "preserves P (wireguard_register env cfg now creds ip reg)"
  unfolding wireguard_register_def drop_orphan_def register_peer_def
  by (intro keeps_tx preserves keeps_set_db rows_kept delete_row_kept set_peer_kept bearer_kept)

lemma startup_kept: "preserves P (startup_log now creds mac)"
  unfolding startup_log_def probe_for_def by (intro keeps_tx preserves keeps_set_db startups bearer_kept)

lemma information_kept: "preserves P (probe_system_information now creds json)"
  unfolding probe_system_information_def probe_for_def
  by (intro keeps_tx preserves keeps_set_db infos bearer_kept)

lemma change_name_kept: "preserves P (change_probe_name auth pid name)"
  unfolding change_probe_name_def get_probe_def
  by (intro keeps_tx preserves keeps_set_db) (rule rows_kept(4))

lemma change_country_kept: "preserves P (change_country search auth pid country)"
  unfolding change_country_def get_probe_def
  by (intro keeps_tx preserves keeps_set_db) (rule rows_kept(4))

lemmas kept = register_kept deactivate_kept revoke_kept activate_kept wireguard_register_kept
  startup_kept information_kept change_name_kept change_country_kept

end


section \<open>The tunnel's tables\<close>

text \<open>Every session was granted within the scope of the token it stems from.\<close>

definition sessions_scoped :: "'j mgmt_db \<Rightarrow> bool" where
  "sessions_scoped d \<longleftrightarrow>
     list_all (\<lambda>r. list_ex (\<lambda>t. mt_id t = st_token_id r \<and> scope_in (st_scope r) (mt_scope t)) (moat_tokens d))
       (session_rows d)"

definition tunnel_ok :: "'j mgmt_db \<Rightarrow> bool" where
  "tunnel_ok d \<longleftrightarrow> tunnel_schema_ok d \<and> no_expiry d \<and> sessions_scoped d"

lemma tunnel_ok_cong:
  assumes "tunnel_ok d" "moat_tokens d' = moat_tokens d" "mgmt_sims d' = mgmt_sims d"
    "sim_assocs d' = sim_assocs d" "session_rows d' = session_rows d" "provider_ids d' = provider_ids d"
  shows "tunnel_ok d'"
  using assms(1) by (simp add: tunnel_ok_def tunnel_schema_ok_def no_expiry_def sessions_scoped_def assms(2-))

interpretation tables: mgmt_frame tunnel_ok
  by unfold_locales (erule tunnel_ok_cong; simp)+

lemma rows_of_remaining:
  "rows_of pid (filter (\<lambda>r. ps_probe_id r \<notin> A) rows) = (if pid \<in> A then [] else rows_of pid rows)"
  by (auto simp: rows_of_def filter_empty_conv intro: filter_cong)

interpretation history: mgmt_frame "\<lambda>d. history_ok clock (mg_statuses d)" for clock
  by unfold_locales (auto simp: history_ok_def rows_of_remaining)

section \<open>Checked transactions\<close>

text \<open>\<open>checks Q m\<close>: \<open>m\<close> returns normally only in a state of \<open>Q\<close>, as after a flush.\<close>

definition checks :: "('j mgmt_db \<Rightarrow> bool) \<Rightarrow> (('j, 'w) mgmt, 'a) mact \<Rightarrow> bool" where
  "checks Q m \<longleftrightarrow> (\<forall>s x s'. m s = (Inr x, s') \<longrightarrow> Q (mg_db s'))"

named_theorems checks "operations that end with a check of the constraints"

lemma checks_bnd [checks]: "(\<And>x. checks Q (f x)) \<Longrightarrow> checks Q (bnd m f)"
  unfolding checks_def bnd_Inr by blast

lemma checks_option [checks]:
  "checks Q m \<Longrightarrow> (\<And>y. checks Q (f y)) \<Longrightarrow> checks Q (case x of None \<Rightarrow> m | Some y \<Rightarrow> f y)"
  by (cases x) simp_all

lemma checks_cases [checks]: "checks Q m \<Longrightarrow> checks Q n \<Longrightarrow> checks Q (if c then m else n)"
  by simp

lemma checks_ends [checks]: "checks Q (throw e)" "checks schema_ok flush" "checks schema_ok flush_tunnel"
  "checks tunnel_schema_ok flush_tunnel" "checks schema_ok (bnd flush (\<lambda>_. ret x))"
  "checks schema_ok (bnd flush_tunnel (\<lambda>_. ret x))" "checks tunnel_schema_ok (bnd flush_tunnel (\<lambda>_. ret x))"
  by (auto simp: checks_def flush_Inr flush_tunnel_Inr bnd_Inr)

lemma keeps_checked: "preserves mam_ok m \<Longrightarrow> checks schema_ok m \<Longrightarrow> preserves mgmt_ok (transaction m)"
  by (rule keeps_transaction) (auto simp: preserves_ok_def checks_def mgmt_ok_def dest: keepsD)

lemma mam_ok_cong:
  assumes "mam_ok d" "mam_tokens d' = mam_tokens d" "wg_rows d' = wg_rows d"
    "map pr_token_id (mg_probes d') = map pr_token_id (mg_probes d)" "mg_next d' \<ge> mg_next d"
  shows "mam_ok d'"
proof -
  have "pr_token_id ` set (mg_probes d') = pr_token_id ` set (mg_probes d)"
    using assms(4) by (metis set_map)
  moreover have "active_ids sc d' = active_ids sc d" for sc by (simp add: active_ids_def assms(2))
  ultimately show ?thesis using assms(1,5) by (auto simp: mam_ok_def assms(2,3))
qed

declare keeps_transaction [preserves del]

lemma keeps_probe_for [preserves]: "preserves P (probe_for t)"
  unfolding probe_for_def by (intro preserves)

lemma keeps_get_probe [preserves]: "preserves P (get_probe pid)"
  unfolding get_probe_def by (intro preserves)

lemma update_probes_ok:
  "mam_ok d \<Longrightarrow> mam_ok (set_last_poll pid now d)"
  "mam_ok d \<Longrightarrow> (\<And>p. pr_token_id (f p) = pr_token_id p) \<Longrightarrow> mam_ok (update_probe pid f d)"
  by (erule mam_ok_cong; simp add: set_last_poll_def update_probe_def)+

lemma probe_routes_ok:
  "preserves mgmt_ok (startup_log now creds mac)"
  "preserves mgmt_ok (probe_system_information now creds json)"
  "preserves mgmt_ok (probe_poll interval now command creds)"
  "preserves mgmt_ok (check_probe_statuses interval now webhook p)"
  unfolding startup_log_def probe_system_information_def probe_poll_def check_probe_statuses_def
  by (intro preserves keeps_checked checks keeps_set_db update_probes_ok; (erule mam_ok_cong; simp)?)+

lemma admin_routes_ok:
  "preserves mgmt_ok (change_probe_name auth pid name)"
  "preserves mgmt_ok (create_token auth rnd sc admin)"
  unfolding change_probe_name_def create_token_def generate_tunnel_token_def
  by (intro preserves keeps_checked checks keeps_set_db update_probes_ok; (erule mam_ok_cong)?; simp)+

lemma change_country_ok: "preserves mgmt_ok (change_country search auth pid country)"
proof -
  have "preserves_ok mgmt_ok (bnd (get_probe pid) (\<lambda>p. case search country of
      None \<Rightarrow> throw Mg_LookupError | Some [] \<Rightarrow> ret False
    | Some (c # cs) \<Rightarrow> bnd (bnd (set_db (update_probe pid (\<lambda>p. p\<lparr>pr_country := Some c\<rparr>))) (\<lambda>_. flush)) (\<lambda>_. ret True)))"
    by (intro keeps_ok_bnd [OF keeps_ok_keeps] keeps_get_probe)
      (auto split: option.split list.split intro!: keeps_ok_bnd keeps_ok_flush keeps_set_db update_probes_ok
        keeps_ok_keeps [OF keeps_pure(1)] keeps_ok_keeps [OF keeps_pure(2)])
  then show ?thesis unfolding change_country_def by (intro preserves keeps_transaction) (simp only: bnd_assoc)
qed

lemma add_sim_ok: "preserves mgmt_ok (add_sim auth tid req)"
  unfolding add_sim_def
  by (intro preserves keeps_transaction keeps_okI)
    (auto simp: bnd_Inr flush_tunnel_Inr mgmt_ok_def split: option.splits if_splits elim!: mam_ok_cong)

lemma register_provider_body:
  "preserves mam_ok (bnd (generate_session_token rnd sc tok p q) (\<lambda>v. bnd flush_tunnel (\<lambda>_. ret (b64encode v))))"
  unfolding generate_session_token_def
  by (intro preserves keeps_set_db) (erule mam_ok_cong; simp)

lemma keeps_valid_token [preserves]: "preserves P (is_valid_token v)"
  unfolding is_valid_token_def by (intro preserves)

lemma tunnel_routes_ok:
  "preserves mgmt_ok (mgmt_register_probe now rnd creds reg)"
  "preserves mgmt_ok (mgmt_register_provider uid rnd creds)"
  unfolding mgmt_register_probe_def mgmt_register_provider_def get_valid_token_def
  by (intro preserves keeps_tx keeps_checked checks register_provider_body keeps_set_db; (erule mam_ok_cong)?; simp?)+

lemma deregister_mgmt_ok: "preserves mgmt_ok (mgmt_deregister v)"
proof -
  have "mgmt_ok (d\<lparr>session_rows := filter Q (session_rows d)\<rparr>)" if "mgmt_ok d" for d :: "'a mgmt_db" and Q
    using that by (auto simp: mgmt_ok_def schema_ok_def refs_iff elim!: mam_ok_cong)
  then show ?thesis
    unfolding mgmt_deregister_def delete_session_token_def
    by (intro keeps_tx preserves keeps_set_db keeps_body_token)
qed

lemmas routes_ok = keeps_register keeps_deactivate keeps_revoke keeps_activate keeps_wireguard_register
  probe_routes_ok admin_routes_ok change_country_ok add_sim_ok tunnel_routes_ok deregister_mgmt_ok

section \<open>The tunnel's routes and its tables\<close>

lemma keeps_add_log: "tunnel_ok d \<Longrightarrow> tunnel_ok (add_log l d)"
  by (rule tables.rows_kept)

lemma tunnel_ok_session:
  assumes "tunnel_ok d" "tok \<in> set (moat_tokens d)" "scope_in (st_scope r) (mt_scope tok)" "mt_id tok = st_token_id r"
    "tunnel_schema_ok d'" "moat_tokens d' = moat_tokens d" "session_rows d' = session_rows d @ [r]"
  shows "tunnel_ok d'"
proof -
  have "list_ex (\<lambda>t. mt_id t = st_token_id r \<and> scope_in (st_scope r) (mt_scope t)) (moat_tokens d)"
    unfolding list_ex_iff using assms(2-4) by blast
  with assms(1,5-7) show ?thesis by (simp add: tunnel_ok_def no_expiry_def sessions_scoped_def)
qed

lemma granted_tunnel_ok:
  assumes "bnd (generate_session_token rnd sc tok p q) (\<lambda>v. bnd flush_tunnel (\<lambda>_. ret (b64encode v))) s = (Inr x, s')"
    "tunnel_ok (mg_db s)" "tok \<in> set (moat_tokens (mg_db s))"
  shows "tunnel_ok (mg_db s')"
proof -
  let ?r = "\<lparr>st_value = rnd, st_token_id = mt_id tok, st_scope = sc, st_probe_id = p, st_provider_id = q\<rparr>"
  from assms(1) have "scope_in (st_scope ?r) (mt_scope tok)" "tunnel_schema_ok (mg_db s')"
    "mg_db s' = (mg_db s)\<lparr>session_rows := session_rows (mg_db s) @ [?r]\<rparr>"
    by (auto simp: generate_session_token_def bnd_Inr flush_tunnel_Inr simp del: scope_in_simps split: if_splits)
  then show ?thesis by (intro tunnel_ok_session [OF assms(2,3), of ?r]) simp_all
qed

lemma keeps_value:
  "preserves P m \<Longrightarrow> (\<And>s x s'. P (mg_db s) \<Longrightarrow> m s = (Inr x, s') \<Longrightarrow> P (mg_db s') \<Longrightarrow> P (mg_db (snd (f x s')))) \<Longrightarrow>
     preserves P (bnd m f)"
  by (fastforce simp: preserves_def bnd_def split: prod.splits sum.splits)

lemma transaction_keeps:
  "P (mg_db s) \<Longrightarrow> (\<And>x s'. m s = (Inr x, s') \<Longrightarrow> P (mg_db s')) \<Longrightarrow> P (mg_db (snd (transaction m s)))"
  by (auto simp: transaction_def split: prod.split sum.split)

lemma register_probe_tables: "preserves tunnel_ok (mgmt_register_probe now rnd creds reg)"
proof -
  have "preserves_ok tunnel_ok (bnd (is_valid_token bs) (\<lambda>token.
      bnd (get_db (probe_of i)) (\<lambda>probe. case probe of None \<Rightarrow> throw Mg_AttributeError
        | Some probe \<Rightarrow> bnd (generate_session_token rnd Moat_Probe token (Some (pr_id probe)) None) (\<lambda>value.
              bnd flush_tunnel (\<lambda>_. ret (b64encode value))))))" for bs i
  proof (rule keeps_okI)
    fix s x s'
    assume ok: "tunnel_ok (mg_db s)" and run: "bnd (is_valid_token bs) (\<lambda>token.
      bnd (get_db (probe_of i)) (\<lambda>probe. case probe of None \<Rightarrow> throw Mg_AttributeError
        | Some probe \<Rightarrow> bnd (generate_session_token rnd Moat_Probe token (Some (pr_id probe)) None) (\<lambda>value.
              bnd flush_tunnel (\<lambda>_. ret (b64encode value))))) s = (Inr x, s')"
    from run obtain tok s1 where v: "is_valid_token bs s = (Inr tok, s1)"
      and rest: "(case probe_of i (mg_db s1) of None \<Rightarrow> throw Mg_AttributeError
        | Some probe \<Rightarrow> bnd (generate_session_token rnd Moat_Probe tok (Some (pr_id probe)) None) (\<lambda>value.
              bnd flush_tunnel (\<lambda>_. ret (b64encode value)))) s1 = (Inr x, s')"
      unfolding bnd_Inr [of "is_valid_token bs"] by auto
    from is_valid_token_Inr [OF v] rest ok show "tunnel_ok (mg_db s')"
      by (cases "probe_of i (mg_db s1)") (auto dest: granted_tunnel_ok)
  qed
  then show ?thesis
    unfolding mgmt_register_probe_def
    by (intro preserves keeps_body_token tables.bearer_kept keeps_transaction)
qed

lemma provider_added_ok:
  "tunnel_ok d \<Longrightarrow> tunnel_schema_ok (d\<lparr>provider_ids := ps\<rparr>) \<Longrightarrow> tunnel_ok (d\<lparr>provider_ids := ps\<rparr>)"
  by (simp add: tunnel_ok_def no_expiry_def sessions_scoped_def)

lemma valid_token_Inr: "get_valid_token creds s = (Inr tok, s') \<Longrightarrow> tok \<in> set (moat_tokens (mg_db s)) \<and> s' = s"
  by (auto simp: get_valid_token_def transaction_Inr split: if_splits option.splits dest: is_valid_token_Inr)

lemma register_provider_tables: "preserves tunnel_ok (mgmt_register_provider uid rnd creds)"
  unfolding mgmt_register_provider_def
proof (rule keeps_value)
  show "preserves tunnel_ok (get_valid_token creds)"
    unfolding get_valid_token_def by (intro keeps_tx preserves)
next
  fix s s1 and tok
  assume ok: "tunnel_ok (mg_db s1)" and v: "get_valid_token creds s = (Inr tok, s1)"
  let ?grant = "bnd (generate_session_token rnd Moat_Provider tok None (Some uid)) (\<lambda>value.
      bnd flush_tunnel (\<lambda>_. ret (b64encode value)))"
  let ?s = "s1\<lparr>mg_db := (mg_db s1)\<lparr>provider_ids := provider_ids (mg_db s1) @ [uid]\<rparr>\<rparr>"
  show "tunnel_ok (mg_db (snd (transaction (bnd (set_db (\<lambda>d. d\<lparr>provider_ids := provider_ids d @ [uid]\<rparr>)) (\<lambda>_.
      bnd flush_tunnel (\<lambda>_. ?grant))) s1)))"
  proof (rule transaction_keeps [where P = tunnel_ok, OF ok])
    fix x s'
    assume "bnd (set_db (\<lambda>d. d\<lparr>provider_ids := provider_ids d @ [uid]\<rparr>)) (\<lambda>_. bnd flush_tunnel (\<lambda>_. ?grant)) s1 = (Inr x, s')"
    then have f: "tunnel_schema_ok (mg_db ?s)" and g: "?grant ?s = (Inr x, s')"
      by (simp_all add: bnd_Inr [of flush_tunnel "\<lambda>_. ?grant"] flush_tunnel_Inr)
    from provider_added_ok [OF ok] f have "tunnel_ok (mg_db ?s)" by simp
    from granted_tunnel_ok [OF g this] valid_token_Inr [OF v] show "tunnel_ok (mg_db s')" by simp
  qed
qed

lemma deregister_tables: "preserves tunnel_ok (mgmt_deregister v)"
proof -
  have "tunnel_ok (d\<lparr>session_rows := filter Q (session_rows d)\<rparr>)" if "tunnel_ok d" for d :: "'a mgmt_db" and Q
    using that tunnel_schema_filter by (auto simp: tunnel_ok_def no_expiry_def sessions_scoped_def list_all_iff)
  then show ?thesis
    unfolding mgmt_deregister_def delete_session_token_def
    by (intro keeps_tx preserves keeps_set_db keeps_body_token)
qed

text \<open>New tokens and new SIMs: the constraints are checked before the commit.\<close>

lemma tables_checked:
  assumes "tunnel_ok d" "tunnel_schema_ok d'" "session_rows d' = session_rows d"
    "moat_tokens d' = moat_tokens d @ ts" "list_all (\<lambda>t. mt_expires t = None) ts"
  shows "tunnel_ok d'"
  using assms by (auto simp: tunnel_ok_def no_expiry_def sessions_scoped_def list_all_iff)

lemma create_token_tables: "preserves tunnel_ok (create_token auth rnd sc admin)"
  unfolding create_token_def generate_tunnel_token_def
  by (intro preserves keeps_transaction keeps_okI)
    (auto simp: flush_tunnel_Inr elim!: tables_checked)

lemma add_sim_tables: "preserves tunnel_ok (add_sim auth tid req)"
  unfolding add_sim_def
  by (intro preserves keeps_transaction keeps_okI)
    (auto simp: bnd_Inr flush_tunnel_Inr split: option.splits if_splits
      elim!: tables_checked [where ts = "[]"])

lemmas tables_ok = register_probe_tables register_provider_tables deregister_tables create_token_tables
  add_sim_tables

section \<open>The status history\<close>

lemma history_later: "history_ok clock rows \<Longrightarrow> clock \<le> now \<Longrightarrow> history_ok now rows"
  by (force simp: history_ok_def)

abbreviation history_at :: "time \<Rightarrow> 'j mgmt_db \<Rightarrow> bool" where
  "history_at clock d \<equiv> history_ok clock (mg_statuses d)"

lemma poll_keeps_history: "preserves (history_at now) (probe_poll interval now command creds)"
  unfolding probe_poll_def
  by (intro preserves keeps_tx keeps_set_db history.bearer_kept history.rows_kept)
    (simp_all add: poll_status_history [OF _ order_refl])

lemma check_keeps_history:
  "0 \<le> interval \<Longrightarrow> preserves (history_at now) (check_probe_statuses interval now webhook p)"
  unfolding check_probe_statuses_def
  by (intro preserves keeps_tx keeps_set_db) (simp_all add: check_rows_history [OF _ order_refl])

lemma keeps_session_grant [preserves]:
  "(\<And>d rs. P d \<Longrightarrow> P (d\<lparr>session_rows := rs\<rparr>)) \<Longrightarrow> preserves P (generate_session_token rnd sc tok p q)"
  unfolding generate_session_token_def by (intro preserves keeps_set_db) blast

lemma tunnel_keeps_history:
  "preserves (history_at c) (mgmt_register_probe now rnd creds reg)"
  "preserves (history_at c) (mgmt_register_provider uid rnd creds)"
  "preserves (history_at c) (mgmt_deregister v)"
  "preserves (history_at c) (create_token auth rnd sc admin)"
  "preserves (history_at c) (add_sim auth tid req)"
  unfolding mgmt_register_probe_def mgmt_register_provider_def mgmt_deregister_def create_token_def add_sim_def
    get_valid_token_def delete_session_token_def generate_tunnel_token_def
  by (intro preserves keeps_tx keeps_set_db keeps_body_token history.bearer_kept; simp)+

section \<open>The server's runs\<close>

record 'w mgmt_cfg =
  mc_daemon :: "'w wg_env"
  mc_settings :: wg_settings
  mc_interval :: time

text \<open>
  One request or one periodic check at a time; the arguments are whatever the caller sends, the
  answer may be an error. The daemon's state may change by itself.
\<close>

inductive mgmt_step :: "'w mgmt_cfg \<Rightarrow> time \<Rightarrow> ('j, 'w) mgmt \<Rightarrow> ('j, 'w) mgmt \<Rightarrow> bool"
  for c :: "'w mgmt_cfg" and now :: time where
  step_register: "token_register now reg s = (r, s') \<Longrightarrow> mgmt_step c now s s'"
| step_activate: "token_activate now uid auth args s = (r, s') \<Longrightarrow> mgmt_step c now s s'"
| step_deactivate: "token_deactivate (mc_daemon c) now auth v s = (u, s') \<Longrightarrow> mgmt_step c now s s'"
| step_revoke: "revoke (mc_daemon c) now creds s = (u, s') \<Longrightarrow> mgmt_step c now s s'"
| step_wireguard: "wireguard_register (mc_daemon c) (mc_settings c) now creds ip req s = (a, s') \<Longrightarrow> mgmt_step c now s s'"
| step_startup: "startup_log now creds mac s = (u, s') \<Longrightarrow> mgmt_step c now s s'"
| step_information: "probe_system_information now creds json s = (u, s') \<Longrightarrow> mgmt_step c now s s'"
| step_poll: "probe_poll (mc_interval c) now command creds s = (m, s') \<Longrightarrow> mgmt_step c now s s'"
| step_check: "check_probe_statuses (mc_interval c) now webhook (p :: unit) s = (q, s') \<Longrightarrow> mgmt_step c now s s'"
| step_name: "change_probe_name auth pid name s = (u, s') \<Longrightarrow> mgmt_step c now s s'"
| step_country: "change_country search auth pid country s = (b, s') \<Longrightarrow> mgmt_step c now s s'"
| step_probe: "mgmt_register_probe now rnd creds v s = (x, s') \<Longrightarrow> mgmt_step c now s s'"
| step_provider: "mgmt_register_provider uid rnd creds s = (x, s') \<Longrightarrow> mgmt_step c now s s'"
| step_deregister: "mgmt_deregister v s = (u, s') \<Longrightarrow> mgmt_step c now s s'"
| step_token: "create_token auth rnd sc admin s = (u, s') \<Longrightarrow> mgmt_step c now s s'"
| step_sim: "add_sim auth tid sim s = (u, s') \<Longrightarrow> mgmt_step c now s s'"
| step_daemon: "mgmt_step c now s (s\<lparr>mg_world := w\<rparr>)"

definition empty_mgmt :: "'j mgmt_db" where
  "empty_mgmt =
     \<lparr>mam_tokens = [], mam_logs = [], wg_rows = [], wg_logs = [], mg_probes = [], mg_statuses = [],
      mg_startups = [], mg_infos = [], mg_next = 1, moat_tokens = [], mgmt_sims = [], sim_assocs = [],
      session_rows = [], provider_ids = []\<rparr>"

inductive mgmt_reach :: "'w mgmt_cfg \<Rightarrow> time \<Rightarrow> ('j, 'w) mgmt \<Rightarrow> bool" for c :: "'w mgmt_cfg" where
  reach_start: "mgmt_reach c now \<lparr>mg_db = empty_mgmt, mg_world = w\<rparr>"
| reach_step: "mgmt_reach c clock s \<Longrightarrow> clock \<le> now \<Longrightarrow> mgmt_step c now s s' \<Longrightarrow> mgmt_reach c now s'"

definition server_ok :: "time \<Rightarrow> 'j mgmt_db \<Rightarrow> bool" where
  "server_ok clock d \<longleftrightarrow> mgmt_ok d \<and> tunnel_ok d \<and> history_ok clock (mg_statuses d)"

inductive_cases mgmt_stepE: "mgmt_step c now s s'"

lemma step_mgmt_ok: "mgmt_step c now s s' \<Longrightarrow> mgmt_ok (mg_db s) \<Longrightarrow> mgmt_ok (mg_db s')"
  by (erule mgmt_stepE)
    ((erule keepsD [where s = s and P = mgmt_ok, rotated 2], rule routes_ok, assumption)+, simp)

lemma poll_and_check_tables:
  "preserves tunnel_ok (probe_poll interval now command creds)"
  "preserves tunnel_ok (check_probe_statuses interval now webhook p)"
  unfolding probe_poll_def check_probe_statuses_def
  by (intro preserves keeps_tx keeps_set_db tables.bearer_kept tables.rows_kept; (erule tunnel_ok_cong; simp))+

lemma step_tunnel_ok: "mgmt_step c now s s' \<Longrightarrow> tunnel_ok (mg_db s) \<Longrightarrow> tunnel_ok (mg_db s')"
  by (erule mgmt_stepE)
    ((erule keepsD [where s = s and P = tunnel_ok, rotated 2],
      rule tables.kept tables_ok poll_and_check_tables, assumption)+, simp)

lemma step_history:
  "mgmt_step c now s s' \<Longrightarrow> 0 \<le> mc_interval c \<Longrightarrow> history_at now (mg_db s) \<Longrightarrow> history_at now (mg_db s')"
  by (erule mgmt_stepE)
    ((erule keepsD [where s = s and P = "history_at now", rotated 2],
      (rule history.kept poll_keeps_history tunnel_keeps_history | (rule check_keeps_history, assumption)), assumption)+,
     simp)

lemma server_ok_start: "server_ok now empty_mgmt"
  by (simp add: server_ok_def empty_mgmt_def mgmt_ok_def mam_ok_def schema_ok_def distinct_somes_def
      active_ids_def tunnel_ok_def tunnel_schema_ok_def no_expiry_def sessions_scoped_def history_ok_def rows_of_def)

lemma reach_server_ok:
  assumes "mgmt_reach c clock s" "0 \<le> mc_interval c"
  shows "server_ok clock (mg_db s)"
  using assms(1)
proof (induction rule: mgmt_reach.induct)
  case (reach_start now w)
  then show ?case by (simp add: server_ok_start)
next
  case (reach_step clock s now s')
  then have "history_at now (mg_db s)" by (auto simp: server_ok_def intro: history_later)
  with step_history [OF reach_step.hyps(3) assms(2)] step_mgmt_ok [OF reach_step.hyps(3)]
    step_tunnel_ok [OF reach_step.hyps(3)] reach_step.IH
  show ?case by (simp add: server_ok_def)
qed

text \<open>
  C4: In every state the management server can reach, whatever requests are sent to it and
  whatever the WireGuard daemon answers: the constraints of the database hold; an active token's
  value is its candidate's; exactly the active tokens with the WireGuard scope have a
  configuration and exactly those with the probe scope have a probe; each tunnel session was
  granted within the scope of its token, and belongs to one probe or provider; and the status rows
  of each probe follow one another without gap or overlap, only the last one active.
\<close>

theorem mgmt_reachable_ok:
  assumes "mgmt_reach c clock s" "0 \<le> mc_interval c"
  shows "server_ok clock (mg_db s)"
  using assms by (rule reach_server_ok)

lemma scope_in_trans: "scope_in x y \<Longrightarrow> scope_in y z \<Longrightarrow> scope_in x z"
  unfolding scope_in_def by (metis and.assoc)

lemma owned_once:
  assumes "distinct (map f xs)" "i \<in> f ` set xs"
  shows "\<exists>x. filter (\<lambda>x. f x = i) xs = [x]"
  using assms by (induction xs) (auto simp: filter_empty_conv, metis image_eqI)

text \<open>
  C13: A token the server accepts is equipped: in every reachable state, a token that is valid for
  the WireGuard scope has exactly one WireGuard configuration, and one that is valid for the probe
  scope has exactly one probe. So the branches of the routes for a token without configuration
  or without probe are never taken.
\<close>

theorem accepted_token_equipped:
  assumes "mgmt_reach c clock s" "0 \<le> mc_interval c" "check_token creds sc (mg_db s) = Inr t"
  shows "(scope_in Scope_Wireguard sc \<longrightarrow> (\<exists>w. filter (\<lambda>w. wg_token_id w = tk_id t) (wg_rows (mg_db s)) = [w])) \<and>
    (scope_in Scope_Probe sc \<longrightarrow> (\<exists>p. filter (\<lambda>p. pr_token_id p = tk_id t) (mg_probes (mg_db s)) = [p]))"
proof -
  have ok: "mgmt_ok (mg_db s)" using reach_server_ok [OF assms(1,2)] by (simp add: server_ok_def)
  from check_token_Inr [OF assms(3)] have t: "t \<in> set (mam_tokens (mg_db s))" "tk_token t \<noteq> None"
    "scope_in sc (tk_scope t)" by auto
  have "tk_id t \<in> active_ids x (mg_db s)" if "scope_in x sc" for x
    unfolding active_ids_def using t scope_in_trans [OF that t(3)] by blast
  moreover have "active_ids Scope_Wireguard (mg_db s) = wg_token_id ` set (wg_rows (mg_db s))"
    "active_ids Scope_Probe (mg_db s) = pr_token_id ` set (mg_probes (mg_db s))"
    using ok by (simp_all only: mgmt_ok_def mam_ok_def)
  ultimately have rows: "scope_in Scope_Wireguard sc \<Longrightarrow> tk_id t \<in> wg_token_id ` set (wg_rows (mg_db s))"
    "scope_in Scope_Probe sc \<Longrightarrow> tk_id t \<in> pr_token_id ` set (mg_probes (mg_db s))"
    by blast+
  from ok have "distinct (map wg_token_id (wg_rows (mg_db s)))" "distinct (map pr_token_id (mg_probes (mg_db s)))"
    by (simp_all add: mgmt_ok_def schema_ok_def)
  then show ?thesis by (intro conjI impI owned_once rows)
qed

subsection \<open>A run\<close>

definition demo_cfg :: "nat mgmt_cfg" where
  "demo_cfg =
     \<lparr>mc_daemon = demo_daemon,
      mc_settings = \<lparr>wgs_endpoint = ''e'', wgs_public_key = ''k'', wgs_allowed_ips = ''a'', wgs_dns = ''d''\<rparr>,
      mc_interval = 60000000\<rparr>"

lemma demo_mgmt_run:
  obtains s :: "(unit, nat) mgmt" and t where "mgmt_reach demo_cfg 5 s" "mam_tokens (mg_db s) = [t]"
    "check_token (demo_value 3) Scope_Both (mg_db s) = Inr t"
proof -
  let ?s = "\<lparr>mg_db = empty_mgmt, mg_world = 0\<rparr> :: (unit, nat) mgmt"
  let ?args = "ActivateTokenAll (demo_value 3) ''vienna'' ''10.0.0.1''"
  obtain s n t where run: "token_activate 5 7 (Inr ''admin'') ?args ?s = (Inr n, s)"
    "mam_tokens (mg_db s) = [t]" "tk_token t = Some (demo_value 3)" "tk_scope t = Scope_Both"
    by (simp add: token_activate_def of_result_def bnd_def validate_def transaction_def find_candidate_def
        empty_mgmt_def add_token_candidate_def Let_def schema_ok_def distinct_somes_def activate_token_def
        activate_def update_token_def add_log_def for_some_def wg_after_activation_def wg_of_def
        probe_after_activation_def commit_activation_def)
  have reach: "mgmt_reach demo_cfg 5 s"
    by (rule reach_step [OF reach_start order_refl]) (rule step_activate [OF run(1)])
  have "check_token (demo_value 3) Scope_Both (mg_db s) = Inr t"
    unfolding check_token_def run(2) using run(3,4) by simp
  then show thesis by (rule that [OF reach run(2)])
qed

theorem mgmt_reachable_ok_witness:
  "\<exists>s :: (unit, nat) mgmt. mam_tokens (mg_db s) \<noteq> [] \<and> server_ok 5 (mg_db s)"
proof -
  obtain s :: "(unit, nat) mgmt" and t where "mgmt_reach demo_cfg 5 s" "mam_tokens (mg_db s) = [t]"
    by (rule demo_mgmt_run)
  moreover have "server_ok 5 (mg_db s)"
    by (rule mgmt_reachable_ok [OF \<open>mgmt_reach demo_cfg 5 s\<close>]) (simp add: demo_cfg_def)
  ultimately show ?thesis by (intro exI [of _ s]) simp
qed

theorem accepted_token_equipped_witness:
  "\<exists>s :: (unit, nat) mgmt. \<exists>t w p. check_token (demo_value 3) Scope_Both (mg_db s) = Inr t \<and>
     filter (\<lambda>w. wg_token_id w = tk_id t) (wg_rows (mg_db s)) = [w] \<and>
     filter (\<lambda>p. pr_token_id p = tk_id t) (mg_probes (mg_db s)) = [p]"
proof -
  obtain s :: "(unit, nat) mgmt" and t where "mgmt_reach demo_cfg 5 s"
    "check_token (demo_value 3) Scope_Both (mg_db s) = Inr t" by (rule demo_mgmt_run)
  with accepted_token_equipped [of demo_cfg 5 s "demo_value 3" Scope_Both t] show ?thesis
    by (auto simp: demo_cfg_def)
qed

end
