(* ===== verification/Wg_Daemon.thy ===== *)
theory Wg_Daemon
  imports Mgmt_Tunnel
begin

text \<open>
  The WireGuard daemon (\<^verbatim>\<open>wg-daemon\<close>): it runs \<^verbatim>\<open>wg\<close> and \<^verbatim>\<open>wg-quick\<close> under \<^verbatim>\<open>sudo\<close>
  and offers them over HTTP (\<^verbatim>\<open>wg.py\<close>, \<^verbatim>\<open>routes.py\<close>, \<^verbatim>\<open>models.py\<close>), until it has been
  idle for a while (\<^verbatim>\<open>cli.py\<close>). What a command does is a parameter, a function on the state of
  the machine; the properties rest on what \<^verbatim>\<open>wg(8)\<close> documents (\<open>wg_documented\<close>).
  \<open>daemon_http\<close> has the type of the management server's parameter \<open>wg_env\<close>, so the two can be
  run together.
\<close>

section \<open>Commands\<close>

text \<open>What comes of a process: no end within the time limit, or its exit status and decoded output.\<close>

datatype sudo_result = Sudo_Timeout | Sudo_Exit int string

type_synonym 'k sudo_env = "string list \<Rightarrow> 'k \<Rightarrow> sudo_result \<times> 'k"

datatype daemon_error = Dm_TimeoutError | Dm_CalledProcessError | WgError

type_synonym ('k, 'a) dact = "(daemon_error, 'k, 'a) eff"

definition sudo :: "'k sudo_env \<Rightarrow> string list \<Rightarrow> ('k, string) dact" where
  "sudo run args k =
     (case run args k of
        (Sudo_Timeout, k') \<Rightarrow> (Inl Dm_TimeoutError, k')
      | (Sudo_Exit returncode stdout, k') \<Rightarrow>
          if returncode \<noteq> 0 then (Inl Dm_CalledProcessError, k') else (Inr stdout, k'))"

text \<open>\<^verbatim>\<open>raise WgError from e\<close>.\<close>

definition or_wg_error :: "('k, 'a) dact \<Rightarrow> ('k, 'a) dact" where
  "or_wg_error m k = (case m k of (Inl e, k') \<Rightarrow> (Inl WgError, k') | (Inr x, k') \<Rightarrow> (Inr x, k'))"

definition daemon_status :: "'k sudo_env \<Rightarrow> string \<Rightarrow> ('k, string) dact" where
  "daemon_status run interface = or_wg_error (sudo run [''wg'', ''show'', interface])"

definition save_wg_config :: "'k sudo_env \<Rightarrow> string \<Rightarrow> ('k, unit) dact" where
  "save_wg_config run config_file =
     bnd (or_wg_error (sudo run [''wg-quick'', ''save'', config_file])) (\<lambda>_. ret ())"

record peer =
  pe_pub_key :: bytes
  pe_allowed_ips :: "string list"

fun join_commas :: "string list \<Rightarrow> string" where
  "join_commas [] = []"
| "join_commas [s] = s"
| "join_commas (s # ss) = s @ '','' @ join_commas ss"

definition daemon_add_peer :: "'k sudo_env \<Rightarrow> peer \<Rightarrow> string \<Rightarrow> string option \<Rightarrow> ('k, unit) dact" where
  "daemon_add_peer run peer interface config_file =
     bnd (or_wg_error (sudo run
            [''wg'', ''set'', interface, ''peer'', b64encode (pe_pub_key peer), ''allowed-ips'',
             join_commas (pe_allowed_ips peer)])) (\<lambda>_.
     case config_file of None \<Rightarrow> ret () | Some f \<Rightarrow> save_wg_config run f)"

definition daemon_delete_peer :: "'k sudo_env \<Rightarrow> string \<Rightarrow> string \<Rightarrow> string option \<Rightarrow> ('k, unit) dact" where
  "daemon_delete_peer run pub_key interface config_file =
     bnd (or_wg_error (sudo run [''wg'', ''set'', interface, ''peer'', pub_key, ''remove''])) (\<lambda>_.
     case config_file of None \<Rightarrow> ret () | Some f \<Rightarrow> save_wg_config run f)"

section \<open>The HTTP interface\<close>

text \<open>\<^verbatim>\<open>urlsafe_b64\<close>: the alternative digits are translated before the standard ones are read.\<close>

definition from_urlsafe :: "string \<Rightarrow> string" where
  "from_urlsafe = map (\<lambda>c. if c = CHR ''-'' then CHR ''+'' else if c = CHR ''_'' then CHR ''/'' else c)"

definition urlsafe_b64 :: "string \<Rightarrow> string option" where
  "urlsafe_b64 v = (if is_ascii v then map_option b64encode (b64decode (from_urlsafe v)) else None)"

text \<open>The body of \<^verbatim>\<open>PUT /peers\<close>; \<open>net\<close> parses a network and gives its compressed form.\<close>

definition peer_of_json :: "(json \<Rightarrow> string option) \<Rightarrow> json option \<Rightarrow> peer option" where
  "peer_of_json net body =
     (case (Option.bind body (json_field ''pub_key''), Option.bind body (json_field ''allowed_ips'')) of
        (Some (JStr k), Some (JList js)) \<Rightarrow>
          (case b64decode_lenient k of
             None \<Rightarrow> None
           | Some bs \<Rightarrow>
               if list_all (\<lambda>j. net j \<noteq> None) js
               then Some \<lparr>pe_pub_key = bs, pe_allowed_ips = map (\<lambda>j. the (net j)) js\<rparr> else None)
      | _ \<Rightarrow> None)"

record daemon_settings =
  ds_interface :: string
  ds_wg_config :: string

definition answer_of :: "('a \<Rightarrow> json) \<Rightarrow> (daemon_error + 'a) \<times> 'k \<Rightarrow> http_response option \<times> 'k" where
  "answer_of f r =
     (case r of
        (Inl e, k) \<Rightarrow> (Some \<lparr>res_status = 500, res_json = JNull\<rparr>, k)
      | (Inr x, k) \<Rightarrow> (Some \<lparr>res_status = 200, res_json = f x\<rparr>, k))"

definition refuse_http :: "int \<Rightarrow> 'k \<Rightarrow> http_response option \<times> 'k" where
  "refuse_http n k = (Some \<lparr>res_status = n, res_json = JNull\<rparr>, k)"

definition daemon_http :: "(json \<Rightarrow> string option) \<Rightarrow> daemon_settings \<Rightarrow> 'k sudo_env \<Rightarrow> 'k wg_env" where
  "daemon_http net st run meth path body k =
     (if path = ''/status'' then
        (if meth = ''GET'' then answer_of JStr (daemon_status run (ds_interface st) k) else refuse_http 405 k)
      else if path = ''/peers'' then
        (if meth = ''PUT'' then
           (case peer_of_json net body of
              None \<Rightarrow> refuse_http 422 k
            | Some p \<Rightarrow>
                answer_of (\<lambda>_. JNull) (daemon_add_peer run p (ds_interface st) (Some (ds_wg_config st)) k))
         else refuse_http 405 k)
      else if take 7 path = ''/peers/'' \<and> drop 7 path \<noteq> [] \<and> CHR ''/'' \<notin> set (drop 7 path) then
        (if meth = ''DELETE'' then
           (case urlsafe_b64 (drop 7 path) of
              None \<Rightarrow> refuse_http 422 k
            | Some pk \<Rightarrow>
                answer_of (\<lambda>_. JNull) (daemon_delete_peer run pk (ds_interface st) (Some (ds_wg_config st)) k))
         else refuse_http 405 k)
      else refuse_http 404 k)"

section \<open>The life of the process\<close>

text \<open>
  \<^verbatim>\<open>run_server\<close>: what each wait of ten minutes ends with, \<open>None\<close> when the server task is done and
  else the number of requests served so far.
\<close>

datatype server_end = Server_Done | Server_Cancelled

fun run_server :: "bool \<Rightarrow> nat \<Rightarrow> nat option list \<Rightarrow> server_end option" where
  "run_server should_exit requests [] = None"
| "run_server should_exit requests (None # waits) = Some Server_Done"
| "run_server should_exit requests (Some served # waits) =
     (if should_exit then Some Server_Cancelled else run_server (requests = served) served waits)"

section \<open>What the management server obtains\<close>

text \<open>
  \<^verbatim>\<open>wg(8)\<close>: a successful \<^verbatim>\<open>set ... peer K allowed-ips N\<close> creates the peer or changes it, and may
  take networks from other peers; \<^verbatim>\<open>remove\<close> removes exactly the peer; saving does not touch the
  interface. \<open>peers\<close> is the configuration of the interface in a state of the machine.
\<close>

definition wg_documented :: "'k sudo_env \<Rightarrow> string \<Rightarrow> ('k \<Rightarrow> string \<rightharpoonup> string) \<Rightarrow> bool" where
  "wg_documented run interface peers \<longleftrightarrow>
     (\<forall>k k' pk n out. run [''wg'', ''set'', interface, ''peer'', pk, ''allowed-ips'', n] k = (Sudo_Exit 0 out, k') \<longrightarrow>
        peers k' pk = Some n \<and> dom (peers k') = insert pk (dom (peers k))) \<and>
     (\<forall>k k' pk out. run [''wg'', ''set'', interface, ''peer'', pk, ''remove''] k = (Sudo_Exit 0 out, k') \<longrightarrow>
        peers k' = (peers k)(pk := None)) \<and>
     (\<forall>k k' f r. run [''wg-quick'', ''save'', f] k = (r, k') \<longrightarrow> peers k' = peers k)"

lemma sudo_Inr:
  "or_wg_error (sudo run args) k = (Inr out, k') \<Longrightarrow> run args k = (Sudo_Exit 0 out, k')"
  by (auto simp: or_wg_error_def sudo_def split: prod.splits sudo_result.splits sum.splits if_splits)

lemma save_Inr:
  "save_wg_config run f k = (Inr u, k') \<Longrightarrow> \<exists>out. run [''wg-quick'', ''save'', f] k = (Sudo_Exit 0 out, k')"
  unfolding save_wg_config_def by (auto simp: bnd_Inr dest: sudo_Inr)

lemma daemon_add_peer_ok:
  assumes "wg_documented run i peers" "daemon_add_peer run p i (Some f) k = (Inr u, k')"
  shows "peers k' (b64encode (pe_pub_key p)) = Some (join_commas (pe_allowed_ips p)) \<and>
    dom (peers k') = insert (b64encode (pe_pub_key p)) (dom (peers k))"
proof -
  from assms(2) obtain out k1 where
    "or_wg_error (sudo run [''wg'', ''set'', i, ''peer'', b64encode (pe_pub_key p), ''allowed-ips'',
       join_commas (pe_allowed_ips p)]) k = (Inr out, k1)" and s: "save_wg_config run f k1 = (Inr u, k')"
    by (auto simp: daemon_add_peer_def bnd_Inr)
  note r = sudo_Inr [OF this(1)]
  from save_Inr [OF s] obtain out' where "run [''wg-quick'', ''save'', f] k1 = (Sudo_Exit 0 out', k')" by blast
  with r assms(1) show ?thesis unfolding wg_documented_def by metis
qed

lemma daemon_delete_peer_ok:
  assumes "wg_documented run i peers" "daemon_delete_peer run pk i (Some f) k = (Inr u, k')"
  shows "peers k' = (peers k)(pk := None)"
proof -
  from assms(2) obtain out k1 where
    "or_wg_error (sudo run [''wg'', ''set'', i, ''peer'', pk, ''remove'']) k = (Inr out, k1)"
    and s: "save_wg_config run f k1 = (Inr u, k')"
    by (auto simp: daemon_delete_peer_def bnd_Inr)
  note r = sudo_Inr [OF this(1)]
  from save_Inr [OF s] obtain out' where "run [''wg-quick'', ''save'', f] k1 = (Sudo_Exit 0 out', k')" by blast
  with r assms(1) show ?thesis unfolding wg_documented_def by metis
qed

lemma answer_success:
  "answer_of f r = (Some res, k) \<Longrightarrow> http_success (res_status res) \<Longrightarrow> \<exists>x. r = (Inr x, k)"
  by (auto simp: answer_of_def http_success_def split: prod.splits sum.splits)

text \<open>A key in the path is read back as the key it was made of.\<close>

lemma b64_chars:
  "b64decode s = Some bs \<Longrightarrow> c \<in> set s \<Longrightarrow> b64_val c \<noteq> None \<or> c = CHR ''=''"
proof -
  assume d: "b64decode s = Some bs" and c: "c \<in> set s"
  let ?P = "\<lambda>c. b64_val c \<noteq> None"
  from d have pad: "list_all (\<lambda>c. c = CHR ''='') (dropWhile ?P s)"
    by (auto simp: b64decode_def Let_def split: if_splits)
  from c have "c \<in> set (takeWhile ?P s) \<or> c \<in> set (dropWhile ?P s)"
    by (metis UnE set_append takeWhile_dropWhile_id)
  with pad show ?thesis by (auto simp: list_all_iff dest: set_takeWhileD)
qed

lemma from_urlsafe_urlsafe:
  assumes "b64decode pk = Some bs"
  shows "from_urlsafe (urlsafe pk) = pk"
proof -
  have "c \<noteq> CHR ''-'' \<and> c \<noteq> CHR ''_''" if "c \<in> set pk" for c
    using b64_chars [OF assms that] by (auto simp: b64_val_def)
  then show ?thesis by (auto simp: from_urlsafe_def urlsafe_def intro!: map_idI)
qed

lemma urlsafe_chars:
  assumes "b64decode pk = Some bs"
  shows "is_ascii (urlsafe pk)" "CHR ''/'' \<notin> set (urlsafe pk)"
proof -
  have "(of_char c :: nat) < 128" if "c \<in> set pk" for c
    using b64_chars [OF assms that] by (auto simp: b64_val_def Let_def split: if_splits)
  then show "is_ascii (urlsafe pk)" by (auto simp: is_ascii_def urlsafe_def list_all_iff)
  show "CHR ''/'' \<notin> set (urlsafe pk)" by (auto simp: urlsafe_def)
qed

lemma wg_call_Inr:
  assumes "wg_call env meth path body s = (Inr j, s')"
  obtains r w where "env meth path body (mg_world s) = (Some r, w)" "http_success (res_status r)"
    "s' = s\<lparr>mg_world := w\<rparr>"
  using assms by (auto simp: wg_call_def split: prod.splits option.splits if_splits)

lemma refused: "refuse_http n k = (Some r, w) \<Longrightarrow> res_status r = n"
  by (auto simp: refuse_http_def)

lemma http_errors: "\<not> http_success 404" "\<not> http_success 422"
  by (simp_all add: http_success_def)

lemma daemon_put:
  "daemon_http net st run ''PUT'' ''/peers'' body k =
     (case peer_of_json net body of
        None \<Rightarrow> refuse_http 422 k
      | Some p \<Rightarrow> answer_of (\<lambda>_. JNull) (daemon_add_peer run p (ds_interface st) (Some (ds_wg_config st)) k))"
  by (simp add: daemon_http_def)

lemma daemon_delete:
  assumes "CHR ''/'' \<notin> set pk"
  shows "daemon_http net st run ''DELETE'' (''/peers/'' @ pk) body k =
     (if pk = [] then refuse_http 404 k
      else case urlsafe_b64 pk of
        None \<Rightarrow> refuse_http 422 k
      | Some pk \<Rightarrow>
          answer_of (\<lambda>_. JNull) (daemon_delete_peer run pk (ds_interface st) (Some (ds_wg_config st)) k))"
proof -
  have path: "take 7 (''/peers/'' @ pk) = ''/peers/''" "drop 7 (''/peers/'' @ pk) = pk"
    "''/peers/'' @ pk \<noteq> ''/status''" "''/peers/'' @ pk \<noteq> ''/peers''" by simp_all
  show ?thesis using assms unfolding daemon_http_def path by simp
qed

lemma peer_sent:
  assumes "b64decode pk = Some bs"
  shows "peer_of_json net (Some (JObj [(''pub_key'', JStr pk), (''allowed_ips'', JList [JStr ip])])) =
    map_option (\<lambda>n. \<lparr>pe_pub_key = bs, pe_allowed_ips = [n]\<rparr>) (net (JStr ip))"
proof -
  from assms have "b64decode_lenient pk = Some bs" by (simp add: b64decode_def Let_def split: if_splits)
  then show ?thesis by (cases "net (JStr ip)") (simp_all add: peer_of_json_def)
qed

lemma wg_add_peer_ok:
  assumes "wg_documented run (ds_interface st) peers"
    "wg_add_peer (daemon_http net st run) pk ip s = (Inr u, s')" "b64decode pk = Some bs"
  obtains n where "net (JStr ip) = Some n" "peers (mg_world s') (b64encode bs) = Some n"
    "dom (peers (mg_world s')) = insert (b64encode bs) (dom (peers (mg_world s)))"
proof -
  from assms(2) obtain j where "wg_call (daemon_http net st run) ''PUT'' ''/peers''
      (Some (JObj [(''pub_key'', JStr pk), (''allowed_ips'', JList [JStr ip])])) s = (Inr j, s')"
    unfolding wg_add_peer_def bnd_Inr by (simp only: act_simps prod.inject) blast
  then obtain r w where http: "daemon_http net st run ''PUT'' ''/peers''
      (Some (JObj [(''pub_key'', JStr pk), (''allowed_ips'', JList [JStr ip])])) (mg_world s) = (Some r, w)"
    and ok: "http_success (res_status r)" and s': "s' = s\<lparr>mg_world := w\<rparr>" by (rule wg_call_Inr)
  note put = http [unfolded daemon_put peer_sent [OF assms(3)]]
  from put ok obtain n where n: "net (JStr ip) = Some n"
    by (cases "net (JStr ip)") (auto dest: refused simp: http_errors)
  let ?p = "\<lparr>pe_pub_key = bs, pe_allowed_ips = [n]\<rparr>"
  from put n have "answer_of (\<lambda>_. JNull)
      (daemon_add_peer run ?p (ds_interface st) (Some (ds_wg_config st)) (mg_world s)) = (Some r, w)" by simp
  from answer_success [OF this ok] obtain x where
    "daemon_add_peer run ?p (ds_interface st) (Some (ds_wg_config st)) (mg_world s) = (Inr x, w)" by blast
  from daemon_add_peer_ok [OF assms(1) this] n s' show thesis by (intro that [of n]) simp_all
qed

lemma wg_remove_peer_ok:
  assumes "wg_documented run (ds_interface st) peers"
    "wg_remove_peer (daemon_http net st run) pk s = (Inr u, s')" "b64decode pk = Some bs"
  shows "peers (mg_world s') = (peers (mg_world s))(b64encode bs := None)"
proof -
  from assms(2) obtain j where "wg_call (daemon_http net st run) ''DELETE'' (''/peers/'' @ urlsafe pk) None s = (Inr j, s')"
    unfolding wg_remove_peer_def bnd_Inr by (simp only: act_simps prod.inject) blast
  then obtain r w where http: "daemon_http net st run ''DELETE'' (''/peers/'' @ urlsafe pk) None (mg_world s) = (Some r, w)"
    and ok: "http_success (res_status r)" and s': "s' = s\<lparr>mg_world := w\<rparr>" by (rule wg_call_Inr)
  have key: "urlsafe_b64 (urlsafe pk) = Some (b64encode bs)"
    using assms(3) urlsafe_chars(1) [OF assms(3)] from_urlsafe_urlsafe [OF assms(3)]
    by (simp add: urlsafe_b64_def)
  note del = http [unfolded daemon_delete [OF urlsafe_chars(2) [OF assms(3)]] key option.case]
  have "urlsafe pk \<noteq> []"
    using del ok refused [of 404 "mg_world s" r w] http_errors(1) by (cases "urlsafe pk = []") simp_all
  with del have "answer_of (\<lambda>_. JNull)
      (daemon_delete_peer run (b64encode bs) (ds_interface st) (Some (ds_wg_config st)) (mg_world s)) = (Some r, w)"
    by simp
  from answer_success [OF this ok] obtain x where
    "daemon_delete_peer run (b64encode bs) (ds_interface st) (Some (ds_wg_config st)) (mg_world s) = (Inr x, w)" by blast
  from daemon_delete_peer_ok [OF assms(1) this] s' show ?thesis by simp
qed

lemma wireguard_register_valid:
  assumes "wireguard_register env cfg now creds ip reg s = (Inr c, s')"
  shows "\<exists>bs. b64decode (rr_publickey reg) = Some bs"
  using assms by (auto simp: wireguard_register_def bnd_Inr validate_def split: if_splits)

text \<open>
  C17: A registered WireGuard key is a peer of the interface: when \<^verbatim>\<open>/wireguard/register\<close>
  succeeds against the daemon, the interface has, under the key in standard form, a peer with
  exactly the network of the address the client was told; every other peer is still there, in
  particular that of a key the same token registered before.
\<close>

theorem registered_key_is_peer:
  assumes "wg_documented run (ds_interface st) peers" "mgmt_ok (mg_db s)"
    "wireguard_register (daemon_http net st run) cfg now creds ip reg s = (Inr c, s')"
  shows "\<exists>bs n. b64decode (rr_publickey reg) = Some bs \<and> net (JStr (wgc_ip c)) = Some n \<and>
    peers (mg_world s') (b64encode bs) = Some n \<and>
    dom (peers (mg_world s')) = insert (b64encode bs) (dom (peers (mg_world s)))"
proof (cases "check_token creds Scope_Wireguard (mg_db s)")
  case (Inl e)
  with assms(3) show ?thesis
    by (cases rule: bearer_cases [of creds Scope_Wireguard s now]) (auto simp: wireguard_register_def bnd_cases)
next
  case (Inr t)
  let ?env = "daemon_http net st run"
  from wireguard_register_run [OF assms(2) Inr, of ?env cfg now ip reg] assms(3) obtain l where
    run: "register_peer ?env cfg now t reg (length (wg_logs (mg_db s))) (attempted now ip t reg l s) = (Inr c, s')"
    by (metis Inl_Inr_False prod.inject transaction_Inr)
  then obtain w s1 where w: "c = wg_answer cfg w" "mg_world s' = mg_world s1"
    and add: "wg_add_peer ?env (rr_publickey reg) (wg_ip w) (attempted now ip t reg l s) = (Inr (), s1)"
    by (auto simp: register_peer_def bnd_Inr flush_Inr split: option.splits if_splits)
  obtain bs where bs: "b64decode (rr_publickey reg) = Some bs"
    using wireguard_register_valid [OF assms(3)] by blast
  have "mg_world (attempted now ip t reg l s) = mg_world s" by (simp add: attempted_def)
  with wg_add_peer_ok [OF assms(1) add bs] obtain n where "net (JStr (wg_ip w)) = Some n"
    "peers (mg_world s1) (b64encode bs) = Some n"
    "dom (peers (mg_world s1)) = insert (b64encode bs) (dom (peers (mg_world s)))" by metis
  with bs w show ?thesis by (simp add: wg_answer_def)
qed

text \<open>
  C18: A deactivated token's WireGuard peer is gone: when \<^verbatim>\<open>/tokens/deactivate\<close> succeeds
  against the daemon, the peer of the key registered with the token has been removed from the
  interface, whatever the case of its Base64 form, and no other one.
\<close>

theorem deactivation_removes_peer:
  assumes "wg_documented run (ds_interface st) peers" "mgmt_ok (mg_db s)"
    "token_deactivate (daemon_http net st run) now auth v s = (Inr u, s')"
    "t \<in> set (mam_tokens (mg_db s))" "token_value t = Some v" "scope_in Scope_Wireguard (tk_scope t)"
    "wg_of (tk_id t) (mg_db s) = Some w" "wg_publickey w = Some pk" "b64decode pk = Some bs"
  shows "peers (mg_world s') = (peers (mg_world s))(b64encode bs := None)"
proof -
  let ?env = "daemon_http net st run"
  note row = token_row_unique [OF assms(2,4,5)]
  from assms(3) have "delete_all ?env now [t] s = (Inr (), s')"
    by (auto simp: token_deactivate_def delete_token_def bnd_Inr flush_Inr of_result_def validate_def
        transaction_Inr row simp del: delete_all.simps split: if_splits)
  then obtain x where "delete_one ?env now t s = (Inr x, s')" by (auto simp: bnd_Inr)
  then obtain y s1 where rm: "wg_before_deletion ?env t s = (Inr y, s1)" "mg_world s' = mg_world s1"
    using assms(6) by (auto simp: delete_one_def bnd_Inr simp del: scope_in_simps)
  from rm(1) assms(7,8) have "wg_remove_peer ?env pk s = (Inr y, s1)"
    by (simp add: wg_before_deletion_def)
  from wg_remove_peer_ok [OF assms(1) this assms(9)] rm(2) show ?thesis by simp
qed

subsection \<open>A machine\<close>

text \<open>The peers of one interface as the state, with the commands \<^verbatim>\<open>wg(8)\<close> describes.\<close>

definition demo_wg :: "(string \<rightharpoonup> string) sudo_env" where
  "demo_wg args k =
     (case args of
        [a, b, c, d, pk, e, n] \<Rightarrow>
          if [a, b, c, d, e] = [''wg'', ''set'', ''wg0'', ''peer'', ''allowed-ips'']
          then (Sudo_Exit 0 [], k(pk \<mapsto> n)) else (Sudo_Exit 1 [], k)
      | [a, b, c, d, pk, e] \<Rightarrow>
          if [a, b, c, d, e] = [''wg'', ''set'', ''wg0'', ''peer'', ''remove'']
          then (Sudo_Exit 0 [], k(pk := None)) else (Sudo_Exit 1 [], k)
      | _ \<Rightarrow> (Sudo_Exit 0 [], k))"

definition demo_ds :: daemon_settings where
  "demo_ds = \<lparr>ds_interface = ''wg0'', ds_wg_config = ''/etc/wireguard/wg0.conf''\<rparr>"

lemma demo_wg_documented: "wg_documented demo_wg (ds_interface demo_ds) id"
  by (auto simp: wg_documented_def demo_wg_def demo_ds_def split: if_splits)

fun demo_net :: "json \<Rightarrow> string option" where
  "demo_net (JStr ip) = Some (ip @ ''/32'')"
| "demo_net _ = None"

definition demo_machine :: "(unit, string \<rightharpoonup> string) mgmt" where
  "demo_machine = \<lparr>mg_db = (mg_db demo_mgmt)\<lparr>session_rows := []\<rparr>, mg_world = [''AA=='' \<mapsto> ''10.0.0.9/32'']\<rparr>"

lemma demo_machine_ok: "mgmt_ok (mg_db demo_machine)"
  by (simp add: mgmt_ok_def mam_ok_def schema_ok_def demo_mgmt_def distinct_somes_def
      active_ids_code demo_machine_def)

theorem deactivation_removes_peer_witness:
  "\<exists>s'. token_deactivate (daemon_http demo_net demo_ds demo_wg) 9 (Inr ''admin'') (demo_value 0) demo_machine =
     (Inr (), s') \<and> mg_world s' = Map.empty"
proof -
  have aa: "b64decode ''AA=='' = Some [0]" "urlsafe ''AA=='' = ''AA==''" "urlsafe_b64 ''AA=='' = Some ''AA==''"
    by code_simp+
  obtain s' where run: "token_deactivate (daemon_http demo_net demo_ds demo_wg) 9 (Inr ''admin'') (demo_value 0) demo_machine = (Inr (), s')"
    by (simp add: token_deactivate_def transaction_def bnd_def of_result_def validate_def demo_mgmt_def
        delete_token_def delete_one_def add_log_def token_value_def delete_row_def flush_def
        schema_ok_def distinct_somes_def Let_def demo_machine_def wg_before_deletion_def wg_of_def
        wg_remove_peer_def wg_call_def aa daemon_http_def demo_ds_def daemon_delete_peer_def or_wg_error_def
        sudo_def demo_wg_def save_wg_config_def answer_of_def http_success_def)
  have "b64encode [0] = ''AA==''" by code_simp
  with deactivation_removes_peer [OF demo_wg_documented demo_machine_ok run,
      of "mam_tokens (mg_db demo_machine) ! 0" "hd (wg_rows (mg_db demo_machine))" "''AA==''" "[0]"] aa(1) run
  show ?thesis by (simp add: demo_machine_def demo_mgmt_def wg_of_def token_value_def)
qed

theorem registered_key_is_peer_witness:
  "\<exists>c s'. wireguard_register (daemon_http demo_net demo_ds demo_wg)
      \<lparr>wgs_endpoint = ''e'', wgs_public_key = ''k'', wgs_allowed_ips = ''a'', wgs_dns = ''d''\<rparr>
      9 (demo_value 0) (Inr ''192.0.2.1'') \<lparr>rr_publickey = ''AQ=='', rr_mac = ''00:00:00:00:00:00''\<rparr>
      demo_machine = (Inr c, s') \<and> mg_world s' ''AQ=='' = Some ''10.0.0.1/32'' \<and> ''AA=='' \<in> dom (mg_world s')"
proof -
  let ?cfg = "\<lparr>wgs_endpoint = ''e'', wgs_public_key = ''k'', wgs_allowed_ips = ''a'', wgs_dns = ''d''\<rparr>"
  let ?reg = "\<lparr>rr_publickey = ''AQ=='', rr_mac = ''00:00:00:00:00:00''\<rparr>"
  have input: "is_ascii ''AQ==''" "b64decode ''AQ=='' = Some [1]" "b64decode_lenient ''AQ=='' = Some [1]"
    "mac_ok ''00:00:00:00:00:00''" "b64encode [1] = ''AQ==''" by code_simp+
  obtain c s' where run: "wireguard_register (daemon_http demo_net demo_ds demo_wg) ?cfg 9 (demo_value 0)
      (Inr ''192.0.2.1'') ?reg demo_machine = (Inr c, s')" and ip: "wgc_ip c = ''10.0.0.1''"
    by (simp add: wireguard_register_def bearer_token_def transaction_def check_token_def demo_mgmt_def
        bnd_def of_result_def validate_def input drop_orphan_def wg_of_def add_log_def log_config_attempt_def
        register_peer_def wg_add_peer_def wg_call_def daemon_put peer_of_json_def http_success_def flush_def
        set_peer_def mark_successful_def update_token_def update_wg_def token_value_def
        schema_ok_def distinct_somes_def demo_machine_def wg_answer_def daemon_add_peer_def or_wg_error_def
        sudo_def demo_wg_def demo_ds_def save_wg_config_def answer_of_def)
  from registered_key_is_peer [OF demo_wg_documented demo_machine_ok run] input(2,5) ip
  have "mg_world s' ''AQ=='' = Some ''10.0.0.1/32''" "''AA=='' \<in> dom (mg_world s')"
    by (auto simp: demo_machine_def)
  with run show ?thesis by blast
qed

end
