(* ===== verification/Sim_Devices.thy ===== *)
theory Sim_Devices
  imports Tunnel_Clients
begin

text \<open>
  The SIM provider's side before a tunnel is up: the observer of serial ports and smart card
  readers (\<^verbatim>\<open>device_observer.py\<close>), the table of SIMs it feeds (\<^verbatim>\<open>sim_provider.py\<close>), and the
  lookups of the provider script (\<^verbatim>\<open>sim.py\<close>). What the operating system lists, what a card
  answers and the callback on a change are parameters.
\<close>

section \<open>Devices\<close>

text \<open>
  A serial port is its path; a reader is its name, by which readers are compared; \<open>No_Reader\<close>
  is the \<^verbatim>\<open>None\<close> the lookup of a reader may return.
\<close>

datatype device = Tty string | Reader string | No_Reader

datatype device_type = Serial | PCSC

fun type_name :: "device_type \<Rightarrow> string" where
  "type_name Serial = ''Serial''"
| "type_name PCSC = ''PC/SC''"

fun device_str :: "device \<Rightarrow> string" where
  "device_str (Tty path) = path"
| "device_str (Reader name) = name"
| "device_str No_Reader = ''None''"

definition device_name :: "device_type \<Rightarrow> device \<Rightarrow> string" where
  "device_name ty d = type_name ty @ ''['' @ device_str d @ '']''"

datatype device_event = Device_Added device_type device | Device_Removed device_type device

datatype provider_error =
    Pv_ValueError | Pv_AttributeError | Pv_IndexError | Pv_CallbackError

record 'p observer =
  current_devices :: "device list"
  permission_warning :: "device list"
  listener :: 'p

type_synonym ('p, 'a) oact = "(provider_error, 'p observer, 'a) eff"

text \<open>A listener's method may raise, which ends the round of the observer.\<close>

type_synonym 'p notify = "device_event \<Rightarrow> 'p \<Rightarrow> bool \<times> 'p"

definition notify_listener :: "'p notify \<Rightarrow> device_event \<Rightarrow> ('p, unit) oact" where
  "notify_listener nt e s =
     (case nt e (listener s) of (ok, p) \<Rightarrow>
        ((if ok then Inr () else Inl Pv_CallbackError), s\<lparr>listener := p\<rparr>))"

definition modify :: "('s \<Rightarrow> 's) \<Rightarrow> ('e, 's, unit) eff" where
  "modify f s = (Inr (), f s)"

definition gets :: "('s \<Rightarrow> 'a) \<Rightarrow> ('e, 's, 'a) eff" where
  "gets f s = (Inr (f s), s)"

text \<open>\<^verbatim>\<open>list.remove\<close>.\<close>

definition list_remove :: "'a \<Rightarrow> 'a list \<Rightarrow> (provider_error, 's, 'a list) eff" where
  "list_remove x xs = (if x \<in> set xs then ret (remove1 x xs) else throw Pv_ValueError)"

section \<open>The observer\<close>

text \<open>
  The three loops of \<^verbatim>\<open>observe\<close>; \<open>current\<close> is the copy from which what is still there is
  removed. A port comes with the permission to read and write it.
\<close>

fun scan_ports :: "'p notify \<Rightarrow> (string \<times> bool) list \<Rightarrow> device list \<Rightarrow> ('p, device list) oact" where
  "scan_ports nt [] current = ret current"
| "scan_ports nt ((path, has_permission) # ports) current =
     (let device = Tty path in
      if device \<notin> set current \<and> has_permission then
        bnd (modify (\<lambda>s. s\<lparr>current_devices := current_devices s @ [device]\<rparr>)) (\<lambda>_.
        bnd (notify_listener nt (Device_Added Serial device)) (\<lambda>_. scan_ports nt ports current))
      else if device \<in> set current then scan_ports nt ports (remove1 device current)
      else
        bnd (modify (\<lambda>s. if \<not> has_permission \<and> device \<notin> set (permission_warning s)
               then s\<lparr>permission_warning := permission_warning s @ [device]\<rparr> else s)) (\<lambda>_.
        scan_ports nt ports current))"

fun scan_readers :: "'p notify \<Rightarrow> string list \<Rightarrow> device list \<Rightarrow> ('p, device list) oact" where
  "scan_readers nt [] current = ret current"
| "scan_readers nt (name # names) current =
     (let r = Reader name in
      bnd (gets current_devices) (\<lambda>known.
        if r \<in> set known then
          bnd (list_remove r current) (\<lambda>current. scan_readers nt names current)
        else
          bnd (notify_listener nt (Device_Added PCSC r)) (\<lambda>_.
          bnd (modify (\<lambda>s. s\<lparr>current_devices := current_devices s @ [r]\<rparr>)) (\<lambda>_.
            scan_readers nt names current))))"

text \<open>Whatever was removed is reported as a serial device.\<close>

fun drop_removed :: "'p notify \<Rightarrow> device list \<Rightarrow> ('p, unit) oact" where
  "drop_removed nt [] = ret ()"
| "drop_removed nt (removed # rest) =
     bnd (gets current_devices) (\<lambda>known.
     bnd (list_remove removed known) (\<lambda>known.
     bnd (modify (\<lambda>s. s\<lparr>current_devices := known,
            permission_warning := remove1 removed (permission_warning s)\<rparr>)) (\<lambda>_.
     bnd (notify_listener nt (Device_Removed Serial removed)) (\<lambda>_. drop_removed nt rest))))"

text \<open>\<^verbatim>\<open>observe\<close>: an exception is logged.\<close>

definition observe :: "'p notify \<Rightarrow> (string \<times> bool) list \<Rightarrow> string list \<Rightarrow> 'p observer \<Rightarrow> 'p observer" where
  "observe nt ports readers s =
     snd (bnd (gets current_devices) (\<lambda>current.
          bnd (scan_ports nt ports current) (\<lambda>current.
          bnd (scan_readers nt readers current) (\<lambda>current. drop_removed nt current))) s)"

text \<open>
  The card monitor's callback: a card names its reader, by a string or as the object, and the
  listener is told of the reader.
\<close>

datatype card_reader = By_Name string | By_Object device

fun get_scard_reader :: "string list \<Rightarrow> card_reader \<Rightarrow> device" where
  "get_scard_reader readers (By_Name name) = (if name \<in> set readers then Reader name else No_Reader)"
| "get_scard_reader readers (By_Object d) = d"

fun notify_each :: "'p notify \<Rightarrow> device_event list \<Rightarrow> ('p, unit) oact" where
  "notify_each nt [] = ret ()"
| "notify_each nt (e # es) = bnd (notify_listener nt e) (\<lambda>_. notify_each nt es)"

definition card_update :: "'p notify \<Rightarrow> string list \<Rightarrow> card_reader list \<Rightarrow> card_reader list \<Rightarrow> ('p, unit) oact" where
  "card_update nt readers added removed =
     notify_each nt (map (Device_Added PCSC \<circ> get_scard_reader readers) added @
       map (Device_Removed PCSC \<circ> get_scard_reader readers) removed)"

section \<open>The SIMs\<close>

text \<open>The IMSI of a card is a string; for a T=1 card the code uses a hash of the reader's name.\<close>

datatype imsi_value = Imsi_Str string | Imsi_Hash int

record 'l sim_info =
  sd_iccid :: "string option"
  sd_imsi :: imsi_value
  sd_device_name :: string
  sd_atr :: bytes
  sd_sl :: 'l

text \<open>What a card answers: ICCID with status word, IMSI, ATR; or the name of a T=1 reader.\<close>

record card_reading =
  rd_iccid :: "string option"
  rd_iccid_sw :: string
  rd_imsi :: "string option"
  rd_atr :: bytes
  rd_t1_reader :: "string option"

definition present :: "string option \<Rightarrow> bool" where
  "present x \<longleftrightarrow> x \<noteq> None \<and> x \<noteq> Some []"

text \<open>\<^verbatim>\<open>reader_name[:-5]\<close>; \<open>md5\<close> is the digest as a number, less than \<open>2 ^ 128\<close>.\<close>

definition query_sim_info :: "(string \<Rightarrow> int) \<Rightarrow> string \<Rightarrow> 'l \<Rightarrow> card_reading \<Rightarrow> 'l sim_info option" where
  "query_sim_info md5 name sl rd =
     (case rd_t1_reader rd of
        Some reader_name \<Rightarrow>
          let canonical_name = take (length reader_name - 5) reader_name in
          Some \<lparr>sd_iccid = None, sd_imsi = Imsi_Hash (\<bar>md5 canonical_name\<bar> mod 2 ^ 64),
            sd_device_name = name, sd_atr = rd_atr rd, sd_sl = sl\<rparr>
      | None \<Rightarrow>
          if \<not> present (rd_iccid rd) \<or> rd_iccid_sw rd \<noteq> ''9000'' then None
          else if \<not> present (rd_imsi rd) then None
          else Some \<lparr>sd_iccid = rd_iccid rd, sd_imsi = Imsi_Str (the (rd_imsi rd)),
            sd_device_name = name, sd_atr = rd_atr rd, sd_sl = sl\<rparr>)"

text \<open>
  \<^verbatim>\<open>SimProvider\<close>: \<^verbatim>\<open>query_sim_info\<close> returns \<^verbatim>\<open>None\<close> for a card it cannot read, and that
  is what is appended. \<open>open_link\<close> is the construction of the link and the reading of the card,
  \<open>None\<close> when it raises.
\<close>

record ('l, 'w) sim_provider =
  sp_sims :: "'l sim_info option list"
  sp_world :: 'w

record ('l, 'w) provider_env =
  open_link :: "device_type \<Rightarrow> device \<Rightarrow> ('l \<times> card_reading) option"
  md5_int :: "string \<Rightarrow> int"
  change_callback :: "('l, 'w) sim_provider \<Rightarrow> bool \<times> ('l, 'w) sim_provider"

definition prepare_sim_interface ::
  "('l, 'w) provider_env \<Rightarrow> string \<Rightarrow> device_type \<Rightarrow> device \<Rightarrow> ('l, 'w) sim_provider \<Rightarrow> ('l, 'w) sim_provider" where
  "prepare_sim_interface env name ty d p =
     (case open_link env ty d of
        None \<Rightarrow> p
      | Some (sl, rd) \<Rightarrow> p\<lparr>sp_sims := sp_sims p @ [query_sim_info (md5_int env) name sl rd]\<rparr>)"

definition device_added ::
  "('l, 'w) provider_env \<Rightarrow> device_type \<Rightarrow> device \<Rightarrow> ('l, 'w) sim_provider \<Rightarrow> bool \<times> ('l, 'w) sim_provider" where
  "device_added env ty d p = change_callback env (prepare_sim_interface env (device_name ty d) ty d p)"

text \<open>The comprehension reads \<^verbatim>\<open>device_name\<close> of every entry.\<close>

definition device_removed ::
  "('l, 'w) provider_env \<Rightarrow> device_type \<Rightarrow> device \<Rightarrow> ('l, 'w) sim_provider \<Rightarrow> bool \<times> ('l, 'w) sim_provider" where
  "device_removed env ty d p =
     (if None \<in> set (sp_sims p) then (False, p)
      else change_callback env
        (p\<lparr>sp_sims := filter (\<lambda>e. sd_device_name (the e) \<noteq> device_name ty d) (sp_sims p)\<rparr>))"

fun sim_listener :: "('l, 'w) provider_env \<Rightarrow> ('l, 'w) sim_provider notify" where
  "sim_listener env (Device_Added ty d) p = device_added env ty d p"
| "sim_listener env (Device_Removed ty d) p = device_removed env ty d p"

text \<open>\<^verbatim>\<open>get_sims\<close> logs the name and the IMSI of every entry.\<close>

definition sims_of :: "('l, 'w) sim_provider \<Rightarrow> provider_error + 'l sim_info list" where
  "sims_of p = (if None \<in> set (sp_sims p) then Inl Pv_AttributeError else Inr (map the (sp_sims p)))"

section \<open>The lookups of the provider script\<close>

fun imsi_of :: "imsi_value \<Rightarrow> provider_error + imsi" where
  "imsi_of (Imsi_Str s) = (case Imsi_init s of Inl e \<Rightarrow> Inl Pv_ValueError | Inr i \<Rightarrow> Inr i)"
| "imsi_of (Imsi_Hash n) = Inl Pv_AttributeError"

fun iccid_of :: "string option \<Rightarrow> provider_error + iccid" where
  "iccid_of (Some s) = (case Iccid_init s of Inl e \<Rightarrow> Inl Pv_ValueError | Inr i \<Rightarrow> Inr i)"
| "iccid_of None = Inl Pv_AttributeError"

fun script_sims :: "int \<Rightarrow> 'l sim_info list \<Rightarrow> provider_error + provider_sim list" where
  "script_sims i [] = Inr []"
| "script_sims i (x # xs) =
     bind_r (iccid_of (sd_iccid x)) (\<lambda>iccid.
     bind_r (imsi_of (sd_imsi x)) (\<lambda>imsi.
     bind_r (script_sims (i + 1) xs) (\<lambda>sims.
       Inr (\<lparr>ps_id = i, ps_iccid = Some iccid, ps_imsi = Some imsi\<rparr> # sims))))"

definition script_get_sims :: "('l, 'w) sim_provider \<Rightarrow> provider_error + provider_sim list" where
  "script_get_sims p = bind_r (sims_of p) (script_sims 0)"

text \<open>Indexing, from the end for negative numbers.\<close>

definition py_nth :: "'a list \<Rightarrow> int \<Rightarrow> provider_error + 'a" where
  "py_nth xs i =
     (let j = (if i < 0 then i + int (length xs) else i) in
      if 0 \<le> j \<and> j < int (length xs) then Inr (xs ! nat j) else Inl Pv_IndexError)"

text \<open>The generator constructs an \<^verbatim>\<open>Imsi\<close>, and if it differs an \<^verbatim>\<open>Iccid\<close>, of each entry.\<close>

fun first_match :: "sim_identifier \<Rightarrow> 'l sim_info list \<Rightarrow> provider_error + 'l sim_info option" where
  "first_match ident [] = Inr None"
| "first_match ident (x # xs) =
     bind_r (imsi_of (sd_imsi x)) (\<lambda>imsi.
       if By_Imsi imsi = ident then Inr (Some x)
       else bind_r (iccid_of (sd_iccid x)) (\<lambda>iccid.
         if By_Iccid iccid = ident then Inr (Some x) else first_match ident xs))"

fun script_get_sim :: "sim_identifier \<Rightarrow> ('l, 'w) sim_provider \<Rightarrow> provider_error + 'l sim_info option" where
  "script_get_sim (By_SimId i) p =
     bind_r (sims_of p) (\<lambda>sims.
       if sim_id_id i < int (length sims) then bind_r (py_nth sims (sim_id_id i)) (\<lambda>x. Inr (Some x))
       else Inr None)"
| "script_get_sim (By_SimIndex i) p =
     bind_r (sims_of p) (\<lambda>sims.
       if sim_index_index i < int (length sims) then bind_r (py_nth sims (sim_index_index i)) (\<lambda>x. Inr (Some x))
       else Inr None)"
| "script_get_sim ident p = bind_r (sims_of p) (first_match ident)"

definition provides_sim :: "('l, 'w) sim_provider \<Rightarrow> connect_request \<Rightarrow> provider_error + connect_status" where
  "provides_sim p req =
     bind_r (script_get_sim (cr_identifier req) p) (\<lambda>sim.
       Inr (if sim \<noteq> None then Con_Success else Con_NotFound))"

section \<open>A round of the observer\<close>

text \<open>Listeners that do not raise in the states of \<open>I\<close>, and the effect of a list of events.\<close>

definition quiet_on :: "('p \<Rightarrow> bool) \<Rightarrow> 'p notify \<Rightarrow> bool" where
  "quiet_on I nt \<longleftrightarrow> (\<forall>e p. I p \<longrightarrow> fst (nt e p) \<and> I (snd (nt e p)))"

definition tell :: "'p notify \<Rightarrow> device_event list \<Rightarrow> 'p \<Rightarrow> 'p" where
  "tell nt es p = fold (\<lambda>e p. snd (nt e p)) es p"

lemma tell_simps [simp]:
  "tell nt [] p = p" "tell nt (e # es) p = tell nt es (snd (nt e p))"
  "tell nt (es @ fs) p = tell nt fs (tell nt es p)"
  by (simp_all add: tell_def)

lemma tell_keeps: "quiet_on I nt \<Longrightarrow> I p \<Longrightarrow> I (tell nt es p)"
  by (induction es arbitrary: p) (simp_all add: quiet_on_def)

lemma notify_quiet:
  "quiet_on I nt \<Longrightarrow> I (listener s) \<Longrightarrow>
     bnd (notify_listener nt e) f s = f () (s\<lparr>listener := snd (nt e (listener s))\<rparr>)"
proof -
  assume "quiet_on I nt" "I (listener s)"
  then have "fst (nt e (listener s))" by (simp add: quiet_on_def)
  then show ?thesis by (cases "nt e (listener s)") (simp add: notify_listener_def bnd_def)
qed

lemma observer_simps [simp]:
  "bnd (modify g) f s = f () (g s)" "bnd (gets h) k s = k (h s) s"
  by (simp_all add: modify_def gets_def bnd_def)

definition new_ports :: "device list \<Rightarrow> (string \<times> bool) list \<Rightarrow> device list" where
  "new_ports current ports =
     map (Tty \<circ> fst) (filter (\<lambda>(path, ok). Tty path \<notin> set current \<and> ok) ports)"

lemma scan_ports_run:
  assumes "quiet_on I nt" "I (listener s)" "distinct (map fst ports)" "distinct current"
  shows "\<exists>w. scan_ports nt ports current s =
    (Inr (filter (\<lambda>d. d \<notin> Tty ` fst ` set ports) current),
     s\<lparr>current_devices := current_devices s @ new_ports current ports, permission_warning := w,
       listener := tell nt (map (Device_Added Serial) (new_ports current ports)) (listener s)\<rparr>)"
  using assms
proof (induction ports arbitrary: current s)
  case Nil
  then show ?case by (intro exI [of _ "permission_warning s"]) (simp add: new_ports_def)
next
  case (Cons port ports)
  obtain path ok where port: "port = (path, ok)" by fastforce
  have rest: "path \<notin> fst ` set ports" using Cons.prems(3) port by simp
  show ?case
  proof (cases "Tty path \<in> set current")
    case True
    have eq: "new_ports (remove1 (Tty path) current) ports = new_ports current ports"
      unfolding new_ports_def using rest Cons.prems(4)
      by (intro arg_cong [where f = "map (Tty \<circ> fst)"] filter_cong) force+
    have "filter (\<lambda>d. d \<notin> Tty ` fst ` set ports) (remove1 (Tty path) current) =
        filter (\<lambda>d. d \<notin> Tty ` fst ` set (port # ports)) current"
      unfolding distinct_remove1_removeAll [OF Cons.prems(4)] removeAll_filter_not_eq
      by (auto simp: port intro: filter_cong)
    moreover have "new_ports current (port # ports) = new_ports current ports"
      using True by (simp add: port new_ports_def)
    moreover have "scan_ports nt (port # ports) current s = scan_ports nt ports (remove1 (Tty path) current) s"
      using True by (simp add: port)
    ultimately show ?thesis
      using Cons.IH [OF Cons.prems(1,2) _ distinct_remove1 [OF Cons.prems(4), of "Tty path"]] Cons.prems(3) eq
      by simp
  next
    case False
    have same: "filter (\<lambda>d. d \<notin> Tty ` fst ` set (port # ports)) current = filter (\<lambda>d. d \<notin> Tty ` fst ` set ports) current"
      using False by (intro filter_cong) (auto simp: port)
    show ?thesis
    proof (cases ok)
      case True
      let ?s = "s\<lparr>current_devices := current_devices s @ [Tty path],
          listener := snd (nt (Device_Added Serial (Tty path)) (listener s))\<rparr>"
      have "I (listener ?s)" using Cons.prems(1,2) by (simp add: quiet_on_def)
      from Cons.IH [OF Cons.prems(1) this _ Cons.prems(4)] Cons.prems(3) port obtain w where
        "scan_ports nt ports current ?s = (Inr (filter (\<lambda>d. d \<notin> Tty ` fst ` set ports) current),
          ?s\<lparr>current_devices := current_devices ?s @ new_ports current ports, permission_warning := w,
            listener := tell nt (map (Device_Added Serial) (new_ports current ports)) (listener ?s)\<rparr>)" by auto
      with False True Cons.prems(1,2) show ?thesis unfolding same
        by (intro exI [of _ w]) (simp add: port Let_def notify_quiet [of I nt] new_ports_def)
    next
      case nok: False
      let ?s = "if Tty path \<notin> set (permission_warning s)
          then s\<lparr>permission_warning := permission_warning s @ [Tty path]\<rparr> else s"
      have "I (listener ?s)" using Cons.prems(2) by simp
      from Cons.IH [OF Cons.prems(1) this _ Cons.prems(4)] Cons.prems(3) port obtain w where
        "scan_ports nt ports current ?s = (Inr (filter (\<lambda>d. d \<notin> Tty ` fst ` set ports) current),
          ?s\<lparr>current_devices := current_devices ?s @ new_ports current ports, permission_warning := w,
            listener := tell nt (map (Device_Added Serial) (new_ports current ports)) (listener ?s)\<rparr>)" by auto
      with False nok show ?thesis unfolding same
        by (intro exI [of _ w]) (simp add: port Let_def new_ports_def split: if_splits)
    qed
  qed
qed

definition new_readers :: "device list \<Rightarrow> string list \<Rightarrow> device list" where
  "new_readers known names = filter (\<lambda>d. d \<notin> set known) (map Reader names)"

lemma scan_readers_run:
  assumes "quiet_on I nt" "I (listener s)" "distinct names" "distinct current"
    "\<forall>n \<in> set names. Reader n \<in> set (current_devices s) \<longrightarrow> Reader n \<in> set current"
    "set current \<subseteq> set (current_devices s)"
  shows "scan_readers nt names current s =
    (Inr (filter (\<lambda>d. d \<notin> Reader ` set names) current),
     s\<lparr>current_devices := current_devices s @ new_readers (current_devices s) names,
       listener := tell nt (map (Device_Added PCSC) (new_readers (current_devices s) names)) (listener s)\<rparr>)"
  using assms
proof (induction names arbitrary: current s)
  case Nil
  then show ?case by (simp add: new_readers_def)
next
  case (Cons name names)
  have rest: "Reader name \<notin> Reader ` set names" using Cons.prems(3) by auto
  show ?case
  proof (cases "Reader name \<in> set (current_devices s)")
    case True
    with Cons.prems(5) have inc: "Reader name \<in> set current" by simp
    have run: "scan_readers nt (name # names) current s = scan_readers nt names (remove1 (Reader name) current) s"
      using True inc by (simp add: list_remove_def Let_def)
    have left: "filter (\<lambda>d. d \<notin> Reader ` set names) (remove1 (Reader name) current) =
        filter (\<lambda>d. d \<notin> Reader ` set (name # names)) current"
      unfolding distinct_remove1_removeAll [OF Cons.prems(4)] removeAll_filter_not_eq
      by (auto intro: filter_cong)
    have new: "new_readers (current_devices s) (name # names) = new_readers (current_devices s) names"
      using True by (simp add: new_readers_def)
    have "\<forall>n \<in> set names. Reader n \<in> set (current_devices s) \<longrightarrow> Reader n \<in> set (remove1 (Reader name) current)"
      using Cons.prems(5) rest
      by (metis imageI list.set_intros(2) in_set_remove1)
    moreover have "set (remove1 (Reader name) current) \<subseteq> set (current_devices s)"
      using Cons.prems(6) set_remove1_subset by fastforce
    ultimately show ?thesis
      using Cons.IH [OF Cons.prems(1,2) _ distinct_remove1 [OF Cons.prems(4)]] Cons.prems(3)
      unfolding run new by (simp add: left)
  next
    case False
    let ?s = "s\<lparr>listener := snd (nt (Device_Added PCSC (Reader name)) (listener s)),
        current_devices := current_devices s @ [Reader name]\<rparr>"
    have run: "scan_readers nt (name # names) current s = scan_readers nt names current ?s"
      using False Cons.prems(1,2) by (simp add: Let_def notify_quiet [of I nt])
    have left: "filter (\<lambda>d. d \<notin> Reader ` set (name # names)) current =
        filter (\<lambda>d. d \<notin> Reader ` set names) current"
      using False Cons.prems(6) by (intro filter_cong) auto
    have new: "new_readers (current_devices s) (name # names) =
        Reader name # new_readers (current_devices s @ [Reader name]) names"
      using False rest by (auto simp: new_readers_def intro!: filter_cong)
    have "I (listener ?s)" using Cons.prems(1,2) by (simp add: quiet_on_def)
    moreover have "\<forall>n \<in> set names. Reader n \<in> set (current_devices ?s) \<longrightarrow> Reader n \<in> set current"
      using Cons.prems(5) rest by auto
    moreover have "set current \<subseteq> set (current_devices ?s)" using Cons.prems(6) by auto
    ultimately show ?thesis
      using Cons.IH [OF Cons.prems(1) _ _ Cons.prems(4), of ?s] Cons.prems(3)
      unfolding run new left by simp
  qed
qed

lemma drop_removed_run:
  assumes "quiet_on I nt" "I (listener s)" "distinct gone" "set gone \<subseteq> set (current_devices s)"
    "distinct (current_devices s)"
  shows "\<exists>w. drop_removed nt gone s =
    (Inr (), s\<lparr>current_devices := filter (\<lambda>d. d \<notin> set gone) (current_devices s),
       permission_warning := w,
       listener := tell nt (map (Device_Removed Serial) gone) (listener s)\<rparr>)"
  using assms
proof (induction gone arbitrary: s)
  case Nil
  then show ?case by (intro exI [of _ "permission_warning s"]) simp
next
  case (Cons d gone)
  let ?s = "s\<lparr>current_devices := remove1 d (current_devices s),
      permission_warning := remove1 d (permission_warning s),
      listener := snd (nt (Device_Removed Serial d) (listener s))\<rparr>"
  have run: "drop_removed nt (d # gone) s = drop_removed nt gone ?s"
    using Cons.prems by (simp add: list_remove_def notify_quiet [of I nt])
  have rem: "remove1 d (current_devices s) = filter (\<lambda>x. x \<noteq> d) (current_devices s)"
    unfolding distinct_remove1_removeAll [OF Cons.prems(5)] removeAll_filter_not_eq
    by (auto intro: filter_cong)
  have "I (listener ?s)" using Cons.prems(1,2) by (simp add: quiet_on_def)
  moreover have "set gone \<subseteq> set (current_devices ?s)" using Cons.prems(3,4) by (auto simp: rem)
  moreover have "distinct (current_devices ?s)" using Cons.prems(5) by (simp add: rem)
  ultimately obtain w where "drop_removed nt gone ?s =
    (Inr (), ?s\<lparr>current_devices := filter (\<lambda>d. d \<notin> set gone) (current_devices ?s),
       permission_warning := w,
       listener := tell nt (map (Device_Removed Serial) gone) (listener ?s)\<rparr>)"
    using Cons.IH [OF Cons.prems(1)] Cons.prems(3) by fastforce
  then show ?case unfolding run
    by (intro exI [of _ w]) (auto simp: rem intro!: filter_cong)
qed


definition still_there :: "(string \<times> bool) list \<Rightarrow> string list \<Rightarrow> device \<Rightarrow> bool" where
  "still_there ports readers d \<longleftrightarrow> d \<in> Tty ` fst ` set ports \<or> d \<in> Reader ` set readers"

lemma observe_run:
  assumes "quiet_on I nt" "I (listener s)" "distinct (map fst ports)" "distinct readers"
    "distinct (current_devices s)"
  shows "current_devices (observe nt ports readers s) =
      filter (still_there ports readers) (current_devices s) @ new_ports (current_devices s) ports @
        new_readers (current_devices s) readers \<and>
    listener (observe nt ports readers s) =
      tell nt (map (Device_Added Serial) (new_ports (current_devices s) ports) @
        map (Device_Added PCSC) (new_readers (current_devices s) readers) @
        map (Device_Removed Serial) (filter (\<lambda>d. \<not> still_there ports readers d) (current_devices s)))
        (listener s)"
proof -
  let ?old = "current_devices s" and ?np = "new_ports (current_devices s) ports"
    and ?nr = "new_readers (current_devices s) readers"
  let ?left = "filter (\<lambda>d. d \<notin> Tty ` fst ` set ports) ?old"
    and ?gone = "filter (\<lambda>d. \<not> still_there ports readers d) ?old"
  obtain w where ports: "scan_ports nt ports ?old s = (Inr ?left,
      s\<lparr>current_devices := ?old @ ?np, permission_warning := w,
        listener := tell nt (map (Device_Added Serial) ?np) (listener s)\<rparr>)"
      (is "_ = (_, ?s1)")
    using scan_ports_run [OF assms(1,2,3,5)] by auto
  have i1: "I (listener ?s1)" using assms(1,2) by (simp add: tell_keeps)
  have nr: "new_readers (?old @ ?np) readers = ?nr"
    by (auto simp: new_readers_def new_ports_def intro!: filter_cong)
  have left: "filter (\<lambda>d. d \<notin> Reader ` set readers) ?left = ?gone"
    by (auto simp: still_there_def intro!: filter_cong)
  have known: "\<forall>n \<in> set readers. Reader n \<in> set (current_devices ?s1) \<longrightarrow> Reader n \<in> set ?left"
    by (auto simp: new_ports_def)
  have sub: "set ?left \<subseteq> set (current_devices ?s1)" by auto
  have readers: "scan_readers nt readers ?left ?s1 = (Inr ?gone,
      ?s1\<lparr>current_devices := (?old @ ?np) @ ?nr,
        listener := tell nt (map (Device_Added PCSC) ?nr) (listener ?s1)\<rparr>)" (is "_ = (_, ?s2)")
    using scan_readers_run [OF assms(1) i1 assms(4) distinct_filter [OF assms(5)] known sub]
    by (simp add: nr left del: filter_filter)
  have "distinct ?np" using assms(3) unfolding new_ports_def
    by (auto simp: distinct_map inj_on_def intro!: distinct_filter)
  moreover have "distinct ?nr" using assms(4) by (simp add: new_readers_def distinct_map inj_on_def)
  ultimately have dist: "distinct (current_devices ?s2)"
    using assms(5) by (auto simp: new_ports_def new_readers_def)
  have "I (listener ?s2)" using assms(1) i1 by (simp add: tell_keeps)
  then obtain w' where "drop_removed nt ?gone ?s2 =
      (Inr (), ?s2\<lparr>current_devices := filter (\<lambda>d. d \<notin> set ?gone) (current_devices ?s2),
        permission_warning := w', listener := tell nt (map (Device_Removed Serial) ?gone) (listener ?s2)\<rparr>)"
    using drop_removed_run [OF assms(1) _ _ _ dist, of ?gone] assms(5) by auto
  then have "observe nt ports readers s =
      ?s2\<lparr>current_devices := filter (\<lambda>d. d \<notin> set ?gone) (current_devices ?s2),
        permission_warning := w', listener := tell nt (map (Device_Removed Serial) ?gone) (listener ?s2)\<rparr>"
    unfolding observe_def by (simp add: bnd_def gets_def ports readers del: filter_filter)
  moreover have "filter (\<lambda>d. d \<notin> set ?gone) ?old = filter (still_there ports readers) ?old"
    by (rule filter_cong) auto
  moreover have "filter (\<lambda>d. d \<notin> set ?gone) ?np = ?np"
    unfolding filter_id_conv by (auto simp: new_ports_def)
  moreover have "filter (\<lambda>d. d \<notin> set ?gone) ?nr = ?nr"
    unfolding filter_id_conv by (auto simp: new_readers_def)
  ultimately show ?thesis by simp
qed

text \<open>
  C32: A round of the observer brings its list of devices up to date and tells its listener what
  changed: with a listener that does not raise, the list afterwards holds the known devices that
  are still there, then the new ports that may be read and written, then the new readers; the
  listener is told of each new port, each new reader and each device that went, once and in
  this order, the latter always as a serial device.
\<close>
theorem observe_exact:
  assumes "quiet_on I nt" "I (listener s)" "distinct (map fst ports)" "distinct readers"
    "distinct (current_devices s)"
  shows "current_devices (observe nt ports readers s) =
      filter (still_there ports readers) (current_devices s) @ new_ports (current_devices s) ports @
        new_readers (current_devices s) readers \<and>
    listener (observe nt ports readers s) =
      tell nt (map (Device_Added Serial) (new_ports (current_devices s) ports) @
        map (Device_Added PCSC) (new_readers (current_devices s) readers) @
        map (Device_Removed Serial) (filter (\<lambda>d. \<not> still_there ports readers d) (current_devices s)))
        (listener s)"
  by (rule observe_run [OF assms])


text \<open>A listener that records what it is told.\<close>

lemma observe_exact_witness:
  "current_devices (observe (\<lambda>e p. (True, e # p)) [(''ttyACM0'', True)] [''Omnikey'']
     \<lparr>current_devices = [Tty ''ttyUSB0''], permission_warning = [], listener = []\<rparr>)
   = [Tty ''ttyACM0'', Reader ''Omnikey'']"
  using observe_exact [of "\<lambda>_. True" "\<lambda>e p. (True, e # p)"
      "\<lparr>current_devices = [Tty ''ttyUSB0''], permission_warning = [], listener = []\<rparr>"
      "[(''ttyACM0'', True)]" "[''Omnikey'']"]
  by (simp add: quiet_on_def still_there_def new_ports_def new_readers_def)


section \<open>The table of SIMs follows the devices\<close>

text \<open>Cards that can be read and a callback that only succeeds.\<close>

definition readable_env :: "('l, 'w) provider_env \<Rightarrow> bool" where
  "readable_env env \<longleftrightarrow>
     (\<forall>p. change_callback env p = (True, p)) \<and>
     (\<forall>ty d sl rd name. open_link env ty d = Some (sl, rd) \<longrightarrow> query_sim_info (md5_int env) name sl rd \<noteq> None)"

lemma readable_added:
  "readable_env env \<Longrightarrow> None \<notin> set (sp_sims p) \<Longrightarrow>
     \<exists>new. device_added env ty d p = (True, p\<lparr>sp_sims := sp_sims p @ new\<rparr>) \<and> None \<notin> set new"
proof (cases "open_link env ty d")
  case None
  assume "readable_env env"
  with None show ?thesis
    by (intro exI [of _ "[]"]) (simp add: readable_env_def device_added_def prepare_sim_interface_def)
next
  case (Some link)
  assume env: "readable_env env"
  obtain sl rd where link: "link = (sl, rd)" by fastforce
  from env Some obtain y where "query_sim_info (md5_int env) (device_name ty d) sl rd = Some y"
    unfolding readable_env_def link by blast
  with env Some show ?thesis
    by (intro exI [of _ "[Some y]"]) (simp add: readable_env_def device_added_def prepare_sim_interface_def link)
qed

lemma readable_removed:
  "readable_env env \<Longrightarrow> None \<notin> set (sp_sims p) \<Longrightarrow>
     device_removed env ty d p =
       (True, p\<lparr>sp_sims := filter (\<lambda>e. sd_device_name (the e) \<noteq> device_name ty d) (sp_sims p)\<rparr>)"
  by (simp add: readable_env_def device_removed_def)

lemma readable_quiet:
  assumes "readable_env env"
  shows "quiet_on (\<lambda>p. None \<notin> set (sp_sims p)) (sim_listener env)"
  unfolding quiet_on_def
proof (intro allI impI)
  fix e and p :: "('a, 'b) sim_provider" assume p: "None \<notin> set (sp_sims p)"
  show "fst (sim_listener env e p) \<and> None \<notin> set (sp_sims (snd (sim_listener env e p)))"
  proof (cases e)
    case (Device_Added ty d)
    with readable_added [OF assms p, of ty d] p show ?thesis by auto
  next
    case (Device_Removed ty d)
    with readable_removed [OF assms p, of ty d] p show ?thesis by simp
  qed
qed

lemma tell_invariant:
  assumes "\<And>e p. e \<in> set es \<Longrightarrow> J p \<Longrightarrow> J (snd (nt e p))" "J p"
  shows "J (tell nt es p)"
  using assms by (induction es arbitrary: p) auto

lemma device_name_inject: "device_name ty d = device_name ty' d' \<Longrightarrow> ty = ty'"
  by (cases ty; cases ty') (simp_all add: device_name_def)

text \<open>
  A SIM in a card reader outlives its reader. The observer reports every device that went
  as a serial device, so the provider looks for SIMs of the device "Serial[name]" and drops
  none of "PC/SC[name]": whatever ports and readers a round finds, a SIM that was found in a
  reader is still offered after it, also when that reader is gone.
\<close>
theorem unplugged_reader_keeps_sim:
  assumes "readable_env env" "None \<notin> set (sp_sims (listener s))"
    "distinct (map fst ports)" "distinct readers" "distinct (current_devices s)"
    "Some x \<in> set (sp_sims (listener s))" "sd_device_name x = device_name PCSC d"
  shows "Some x \<in> set (sp_sims (listener (observe (sim_listener env) ports readers s)))"
proof -
  let ?J = "\<lambda>p. None \<notin> set (sp_sims p) \<and> Some x \<in> set (sp_sims p)"
  have step: "?J (snd (sim_listener env e p))" if "e \<notin> range (Device_Removed PCSC)" "?J p" for e p
  proof (cases e)
    case (Device_Added ty d')
    with readable_added [OF assms(1), of p ty d'] that(2) show ?thesis by auto
  next
    case (Device_Removed ty d')
    with that(1) have "ty = Serial" by (cases ty) auto
    moreover have "sd_device_name x \<noteq> device_name Serial d'"
      using assms(7) device_name_inject by fastforce
    ultimately show ?thesis
      using Device_Removed readable_removed [OF assms(1), of p Serial d'] that(2) by auto
  qed
  show ?thesis
    unfolding observe_run [OF readable_quiet [OF assms(1)] assms(2-5), THEN conjunct2]
    by (rule tell_invariant [where J = ?J, THEN conjunct2]) (use step assms(2,6) in auto)
qed

text \<open>
  The SIMs of an unplugged serial port go with it: after a round in which the port is not
  listed any more, no SIM of the table belongs to it.
\<close>
theorem unplugged_port_loses_sims:
  assumes "readable_env env" "None \<notin> set (sp_sims (listener s))"
    "distinct (map fst ports)" "distinct readers" "distinct (current_devices s)"
    "Tty path \<in> set (current_devices s)" "path \<notin> fst ` set ports"
    "Some x \<in> set (sp_sims (listener (observe (sim_listener env) ports readers s)))"
  shows "sd_device_name x \<noteq> device_name Serial (Tty path)"
proof -
  let ?I = "\<lambda>p. None \<notin> set (sp_sims p)" and ?gone = "filter (\<lambda>d. \<not> still_there ports readers d) (current_devices s)"
  note quiet = readable_quiet [OF assms(1)]
  have "Tty path \<in> set ?gone" using assms(6,7) by (auto simp: still_there_def)
  then obtain before rest where gone: "?gone = before @ Tty path # rest" by (meson split_list)
  let ?es = "map (Device_Added Serial) (new_ports (current_devices s) ports) @
      map (Device_Added PCSC) (new_readers (current_devices s) readers) @ map (Device_Removed Serial) before"
  have all: "listener (observe (sim_listener env) ports readers s) =
      tell (sim_listener env) (map (Device_Removed Serial) rest)
        (snd (sim_listener env (Device_Removed Serial (Tty path)) (tell (sim_listener env) ?es (listener s))))"
    using observe_run [OF quiet assms(2-5), THEN conjunct2] gone by simp
  let ?J = "\<lambda>p. ?I p \<and> (\<forall>y. Some y \<in> set (sp_sims p) \<longrightarrow> sd_device_name y \<noteq> device_name Serial (Tty path))"
  have "?I (tell (sim_listener env) ?es (listener s))" by (rule tell_keeps [OF quiet assms(2)])
  then have "?J (snd (sim_listener env (Device_Removed Serial (Tty path)) (tell (sim_listener env) ?es (listener s))))"
    by (auto simp: readable_removed [OF assms(1)])
  then have "?J (listener (observe (sim_listener env) ports readers s))"
    unfolding all by (rule tell_invariant [rotated]) (auto simp: readable_removed [OF assms(1)])
  with assms(8) show ?thesis by blast
qed


section \<open>What the script registers is what it serves\<close>

lemma script_sims_Inr:
  "script_sims k xs = Inr offered \<Longrightarrow>
     length offered = length xs \<and>
     (\<forall>j < length xs. ps_id (offered ! j) = k + int j \<and>
        (\<exists>c i. iccid_of (sd_iccid (xs ! j)) = Inr c \<and> imsi_of (sd_imsi (xs ! j)) = Inr i \<and>
           ps_iccid (offered ! j) = Some c \<and> ps_imsi (offered ! j) = Some i))"
proof (induction xs arbitrary: k offered)
  case (Cons x xs)
  from Cons.prems obtain c i offered' where
    "iccid_of (sd_iccid x) = Inr c" "imsi_of (sd_imsi x) = Inr i" "script_sims (k + 1) xs = Inr offered'"
    "offered = \<lparr>ps_id = k, ps_iccid = Some c, ps_imsi = Some i\<rparr> # offered'"
    by (auto simp: bind_r_Inr_iff)
  with Cons.IH [of "k + 1" offered'] show ?case by (auto simp: nth_Cons split: nat.split)
qed simp

definition registered_as :: "sim_identifier \<Rightarrow> provider_sim \<Rightarrow> bool" where
  "registered_as ident ps \<longleftrightarrow>
     (case ident of
        By_SimId s \<Rightarrow> ps_id ps = sim_id_id s
      | By_SimIndex s \<Rightarrow> ps_id ps = sim_index_index s
      | By_Iccid c \<Rightarrow> ps_iccid ps = Some c
      | By_Imsi i \<Rightarrow> ps_imsi ps = Some i)"

lemma first_match_registered:
  assumes "script_sims k xs = Inr offered" "\<forall>s. ident \<noteq> By_SimId s" "\<forall>s. ident \<noteq> By_SimIndex s"
  shows "\<exists>r. first_match ident xs = Inr r \<and> (r \<noteq> None \<longleftrightarrow> (\<exists>ps \<in> set offered. registered_as ident ps))"
  using assms
proof (induction xs arbitrary: k offered)
  case (Cons x xs)
  from Cons.prems(1) obtain c i offered' where
    x: "iccid_of (sd_iccid x) = Inr c" "imsi_of (sd_imsi x) = Inr i" "script_sims (k + 1) xs = Inr offered'"
    "offered = \<lparr>ps_id = k, ps_iccid = Some c, ps_imsi = Some i\<rparr> # offered'"
    by (auto simp: bind_r_Inr_iff)
  from Cons.IH [OF x(3) Cons.prems(2,3)] x Cons.prems(2,3) show ?case
    by (cases ident) (auto simp: registered_as_def)
qed simp

text \<open>
  The provider script serves exactly the SIMs it registers: when the list to register can
  be built, a request is answered with Success if some registered SIM has the identifier it
  asks for (the id or index with which it was registered, its ICCID, its IMSI) and with
  NotFound otherwise.
\<close>
theorem registered_sims_provided:
  assumes "script_get_sims p = Inr offered"
    "\<forall>s. cr_identifier req = By_SimId s \<longrightarrow> 0 \<le> sim_id_id s"
    "\<forall>s. cr_identifier req = By_SimIndex s \<longrightarrow> 0 \<le> sim_index_index s"
  shows "provides_sim p req =
    Inr (if \<exists>ps \<in> set offered. registered_as (cr_identifier req) ps then Con_Success else Con_NotFound)"
proof -
  obtain xs where xs: "sims_of p = Inr xs" "script_sims 0 xs = Inr offered"
    using assms(1) by (auto simp: script_get_sims_def bind_r_Inr_iff)
  note entries = script_sims_Inr [OF xs(2)]
  have pos: "(\<exists>ps \<in> set offered. ps_id ps = n) \<longleftrightarrow> n < int (length xs)" if "0 \<le> n" for n
  proof -
    have "(\<exists>ps \<in> set offered. ps_id ps = n) \<longleftrightarrow> (\<exists>j < length xs. int j = n)"
      using entries unfolding Bex_def in_set_conv_nth by (metis add_0)
    also have "\<dots> \<longleftrightarrow> n < int (length xs)" using that by (metis nat_0_le of_nat_less_iff)
    finally show ?thesis .
  qed
  show ?thesis
  proof (cases "cr_identifier req")
    case (By_SimId s)
    with assms(2) pos [of "sim_id_id s"] show ?thesis
      by (simp add: provides_sim_def xs py_nth_def registered_as_def)
  next
    case (By_SimIndex s)
    with assms(3) pos [of "sim_index_index s"] show ?thesis
      by (simp add: provides_sim_def xs py_nth_def registered_as_def)
  next
    case (By_Iccid c)
    with first_match_registered [OF xs(2), of "By_Iccid c"] show ?thesis
      by (auto simp: provides_sim_def xs)
  next
    case (By_Imsi i)
    with first_match_registered [OF xs(2), of "By_Imsi i"] show ?thesis
      by (auto simp: provides_sim_def xs)
  qed
qed

section \<open>A provider with a reader and a port\<close>

definition demo_env :: "(nat, unit) provider_env" where
  "demo_env = \<lparr>
     open_link = (\<lambda>ty d. Some (0, \<lparr>rd_iccid = Some ''8943010000000000007'', rd_iccid_sw = ''9000'',
        rd_imsi = Some ''232010000000001'', rd_atr = [0x3b], rd_t1_reader = None\<rparr>)),
     md5_int = (\<lambda>_. 7), change_callback = (\<lambda>p. (True, p))\<rparr>"

definition demo_sim :: "device_type \<Rightarrow> device \<Rightarrow> nat sim_info" where
  "demo_sim ty d = \<lparr>sd_iccid = Some ''8943010000000000007'', sd_imsi = Imsi_Str ''232010000000001'',
     sd_device_name = device_name ty d, sd_atr = [0x3b], sd_sl = 0\<rparr>"

definition demo_observer :: "(nat, unit) sim_provider observer" where
  "demo_observer = \<lparr>current_devices = [Reader ''Omnikey'', Tty ''ttyUSB0''], permission_warning = [],
     listener = \<lparr>sp_sims = [Some (demo_sim PCSC (Reader ''Omnikey'')), Some (demo_sim Serial (Tty ''ttyUSB0''))],
       sp_world = ()\<rparr>\<rparr>"

lemma demo_env_readable: "readable_env demo_env"
  by (simp add: readable_env_def demo_env_def query_sim_info_def present_def)

lemma unplugged_reader_keeps_sim_witness:
  "Some (demo_sim PCSC (Reader ''Omnikey'')) \<in>
     set (sp_sims (listener (observe (sim_listener demo_env) [] [] demo_observer)))"
  by (rule unplugged_reader_keeps_sim [OF demo_env_readable])
    (simp_all add: demo_observer_def demo_sim_def)

lemma unplugged_port_loses_sims_witness:
  "sd_device_name (demo_sim PCSC (Reader ''Omnikey'')) \<noteq> device_name Serial (Tty ''ttyUSB0'')"
  by (rule unplugged_port_loses_sims [OF demo_env_readable, of demo_observer "[]" "[]"])
    (simp_all add: demo_observer_def observe_def bnd_def gets_def modify_def notify_listener_def
       list_remove_def device_removed_def demo_env_def demo_sim_def device_name_def)

definition demo_offered :: "provider_sim list" where
  "demo_offered = map (\<lambda>i. \<lparr>ps_id = i, ps_iccid = Some (Iccid ''8943010000000000007''),
     ps_imsi = Some (Imsi ''232010000000001'')\<rparr>) [0, 1]"

lemma demo_offers: "script_get_sims (listener demo_observer) = Inr demo_offered"
  by code_simp

lemma registered_sims_provided_witness:
  "provides_sim (listener demo_observer)
     \<lparr>cr_identifier = By_SimId (SimId 5 1), cr_flags = DEFAULT\<rparr> = Inr Con_Success"
  using registered_sims_provided [OF demo_offers,
      of "\<lparr>cr_identifier = By_SimId (SimId 5 1), cr_flags = DEFAULT\<rparr>"]
  by (simp add: demo_offered_def registered_as_def)

end
