(* ===== verification/Sim_Bridge.thy ===== *)
theory Sim_Bridge
  imports Sim_Devices
begin

text \<open>
  The two ends of a SIM tunnel: \<^verbatim>\<open>SimTunnel\<close> (\<^verbatim>\<open>sim_tunnel.py\<close>), which passes the APDUs of a
  connection to a card, \<^verbatim>\<open>ModemTunnel\<close> (\<^verbatim>\<open>modem_tunnel.py\<close>), which passes those of the modem
  to the connection, and the loops of the provider script (\<^verbatim>\<open>sim.py\<close>) that start the former.
  The card and pySim's hexadecimal codecs are parameters, as is what a connection delivers.
\<close>

section \<open>Connections\<close>

datatype bridge_error =
    Br_ApduMessage bytes | Br_AttributeError | Br_NameError | Br_Link | Br_Hex | Br_Wire py_error
  | Br_Connection | Br_PeerClosed | Br_Registration client_error | Br_Setup client_error

text \<open>
  A connection is a client's: \<^verbatim>\<open>ApduStream\<close> reads it through the buffer, direct mode reads the
  socket. \<^verbatim>\<open>recv\<close> always returns (\<^verbatim>\<open>client_source.apdu_recv_total\<close>), so the first branch is
  never taken.
\<close>

definition conn_recv :: "(bridge_error, client, apdu_packet option) eff" where
  "conn_recv c =
     (case cli_recv (cl_stream c) of
        None \<Rightarrow> (Inl (Br_Wire EOFError), c)
      | Some (r, str) \<Rightarrow>
          ((case r of Inl e \<Rightarrow> Inl (Br_Wire e) | Inr p \<Rightarrow> Inr p), c\<lparr>cl_stream := str\<rparr>))"

definition conn_send :: "bytes \<Rightarrow> (bridge_error, client, unit) eff" where
  "conn_send bs c =
     (if cl_broken c then (Inl Br_Connection, c) else (Inr (), c\<lparr>cl_out := cl_out c @ bs\<rparr>))"

definition conn_send_apdu :: "bytes \<Rightarrow> (bridge_error, client, unit) eff" where
  "conn_send_apdu payload c =
     (case send_apdu payload [] of Inl e \<Rightarrow> (Inl (Br_Wire e), c) | Inr bs \<Rightarrow> conn_send bs c)"

definition sock_recv :: "nat \<Rightarrow> (bridge_error, client, bytes) eff" where
  "sock_recv n c =
     (case sr_read n (rs_socket (cl_stream c)) of
        (b, sock) \<Rightarrow> (Inr b, c\<lparr>cl_stream := (cl_stream c)\<lparr>rs_socket := sock\<rparr>\<rparr>))"

section \<open>SimTunnel\<close>

text \<open>
  The link to a card: \<^verbatim>\<open>send_apdu\<close> takes and returns hexadecimal strings and may raise, as may
  \<^verbatim>\<open>h2b\<close>.
\<close>

record 'c sim_link =
  sl_connect :: "'c \<Rightarrow> bool \<times> 'c"
  sl_atr :: "'c \<Rightarrow> bytes"
  sl_send_apdu :: "string \<Rightarrow> 'c \<Rightarrow> (string \<times> string) option \<times> 'c"
  sl_disconnect :: "'c \<Rightarrow> 'c"
  sl_b2h :: "bytes \<Rightarrow> string"
  sl_h2b :: "string \<Rightarrow> bytes option"

record 'c sim_tunnel =
  st_conn :: client
  st_card :: 'c
  st_connected :: bool
  st_direct :: bool

type_synonym ('c, 'a) tact = "(bridge_error, 'c sim_tunnel, 'a) eff"

definition on_conn :: "(bridge_error, client, 'a) eff \<Rightarrow> ('c, 'a) tact" where
  "on_conn f st = (case f (st_conn st) of (r, c) \<Rightarrow> (r, st\<lparr>st_conn := c\<rparr>))"

text \<open>\<^verbatim>\<open>h2b(data + sw)\<close> of what the card answers to \<^verbatim>\<open>b2h(apdu)\<close>.\<close>

definition card_answer :: "'c sim_link \<Rightarrow> bytes \<Rightarrow> ('c, bytes) tact" where
  "card_answer env apdu st =
     (case sl_send_apdu env (sl_b2h env apdu) (st_card st) of
        (None, k) \<Rightarrow> (Inl Br_Link, st\<lparr>st_card := k\<rparr>)
      | (Some (data, sw), k) \<Rightarrow>
          ((case sl_h2b env (data @ sw) of None \<Rightarrow> Inl Br_Hex | Some resp \<Rightarrow> Inr resp),
            st\<lparr>st_card := k\<rparr>))"

definition process_packet_indirect :: "'c sim_link \<Rightarrow> ('c, unit) tact" where
  "process_packet_indirect env =
     bnd (on_conn conn_recv) (\<lambda>apdu.
       case apdu of
         None \<Rightarrow> modify (\<lambda>st. st\<lparr>st_connected := False\<rparr>)
       | Some p \<Rightarrow>
           bnd (card_answer env (apdu_payload p)) (\<lambda>resp. on_conn (conn_send_apdu resp)))"

definition process_packet_direct :: "'c sim_link \<Rightarrow> ('c, unit) tact" where
  "process_packet_direct env =
     bnd (on_conn (sock_recv 256)) (\<lambda>apdu.
       if length apdu < 5 then
         bnd (modify (\<lambda>st. st\<lparr>st_connected := False\<rparr>)) (\<lambda>_. throw (Br_ApduMessage apdu))
       else bnd (card_answer env apdu) (\<lambda>resp. on_conn (conn_send resp)))"

definition process_packet :: "'c sim_link \<Rightarrow> ('c, unit) tact" where
  "process_packet env st =
     (if st_direct st then process_packet_direct env st else process_packet_indirect env st)"

text \<open>Every packet takes bytes of the connection, or ends the loop.\<close>

lemma conn_recv_SomeD:
  assumes "conn_recv c = (Inr (Some p), c')"
  shows "wf_apdu p" "length (raw_content (cl_stream c')) < length (raw_content (cl_stream c))"
proof -
  obtain str where r: "cli_recv (cl_stream c) = Some (Inr (Some p), str)" and c': "c' = c\<lparr>cl_stream := str\<rparr>"
    using assms by (auto simp: conn_recv_def split: option.splits sum.splits)
  obtain bs where bs: "wf_apdu p" "apdu_encode p = Inr bs"
      "raw_content (cl_stream c) = bs @ raw_content str"
    using client_source.apdu_recv_sound [OF r [unfolded cli_recv_def]] by blast
  then show "wf_apdu p" "length (raw_content (cl_stream c')) < length (raw_content (cl_stream c))"
    using apdu_header(4) [OF bs(1,2) order_refl] by (simp_all add: c')
qed

lemma sock_recv_content:
  assumes "sock_recv n c = (Inr b, c')"
  shows "length (raw_content (cl_stream c)) = length b + length (raw_content (cl_stream c'))"
proof -
  obtain b' sock where r: "sr_read n (rs_socket (cl_stream c)) = (b', sock)" by fastforce
  with assms sr_read_content [OF r] show ?thesis by (auto simp: sock_recv_def raw_content_def)
qed

lemma card_answer_conn: "card_answer env apdu st = (r, st') \<Longrightarrow> st_conn st' = st_conn st \<and> st_connected st' = st_connected st"
  by (auto simp: card_answer_def split: option.splits prod.splits)

lemma conn_send_stream:
  "conn_send bs c = (r, c') \<Longrightarrow> cl_stream c' = cl_stream c"
  "conn_send_apdu bs c = (r, c') \<Longrightarrow> cl_stream c' = cl_stream c"
  by (auto simp: conn_send_def conn_send_apdu_def split: if_splits sum.splits)

lemma on_conn_InrD:
  "on_conn f st = (Inr x, st') \<Longrightarrow> \<exists>c. f (st_conn st) = (Inr x, c) \<and> st' = st\<lparr>st_conn := c\<rparr>"
  by (auto simp: on_conn_def split: prod.splits)

definition input_left :: "'c sim_tunnel \<Rightarrow> nat" where
  "input_left st = length (raw_content (cl_stream (st_conn st)))"

lemma process_packet_progress:
  assumes "process_packet env st = (Inr u, st')"
  shows "input_left st' < input_left st \<or> \<not> st_connected st'"
proof (cases "st_direct st")
  case True
  with assms obtain apdu t where t: "on_conn (sock_recv 256) st = (Inr apdu, t)" "5 \<le> length apdu"
      "bnd (card_answer env apdu) (\<lambda>resp. on_conn (conn_send resp)) t = (Inr u, st')"
    by (auto simp: process_packet_def process_packet_direct_def bnd_Inr split: if_splits)
  from t(1) have "input_left t < input_left st"
    using t(2) by (auto simp: input_left_def dest!: on_conn_InrD sock_recv_content)
  moreover from t(3) have "input_left st' = input_left t"
    by (auto simp: bnd_Inr input_left_def dest!: on_conn_InrD card_answer_conn conn_send_stream)
  ultimately show ?thesis by simp
next
  case False
  with assms obtain r t where t: "on_conn conn_recv st = (Inr r, t)"
      "(case r of None \<Rightarrow> modify (\<lambda>st. st\<lparr>st_connected := False\<rparr>)
        | Some p \<Rightarrow> bnd (card_answer env (apdu_payload p)) (\<lambda>resp. on_conn (conn_send_apdu resp))) t
       = (Inr u, st')"
    by (auto simp: process_packet_def process_packet_indirect_def bnd_Inr)
  show ?thesis
  proof (cases r)
    case None
    with t(2) show ?thesis by (auto simp: modify_def)
  next
    case (Some p)
    with t(1) have "input_left t < input_left st"
      by (auto simp: input_left_def dest!: on_conn_InrD conn_recv_SomeD(2))
    moreover from t(2) Some have "input_left st' = input_left t"
      by (auto simp: bnd_Inr input_left_def dest!: on_conn_InrD card_answer_conn conn_send_stream)
    ultimately show ?thesis by simp
  qed
qed

function tunnel_loop :: "'c sim_link \<Rightarrow> 'c sim_tunnel \<Rightarrow> (bridge_error + unit) \<times> 'c sim_tunnel" where
  "tunnel_loop env st =
     (if \<not> st_connected st then (Inr (), st)
      else case process_packet env st of
          (Inl e, st') \<Rightarrow> (Inl e, st')
        | (Inr u, st') \<Rightarrow> tunnel_loop env st')"
  by pat_completeness auto
termination
  by (relation "measures [\<lambda>(env, st). if st_connected st then 1 else 0, \<lambda>(env, st). input_left st]")
    (auto dest!: sym [of "(Inr _, _)"] process_packet_progress)

declare tunnel_loop.simps [simp del]

text \<open>
  \<^verbatim>\<open>maintain_connection\<close>: an exception is logged; in both modes \<^verbatim>\<open>unwrap\<close> is no method of the
  connection or succeeds, and the connection is closed.
\<close>

definition maintain_connection :: "'c sim_link \<Rightarrow> 'c sim_tunnel \<Rightarrow> 'c sim_tunnel" where
  "maintain_connection env st =
     (case tunnel_loop env st of
        (r, st') \<Rightarrow> st'\<lparr>st_card := sl_disconnect env (st_card st'), st_conn := client_close (st_conn st')\<rparr>)"

text \<open>\<^verbatim>\<open>run\<close>: an \<^verbatim>\<open>ApduStream\<close> has no method \<^verbatim>\<open>write_all\<close>.\<close>

definition tunnel_run :: "'c sim_link \<Rightarrow> ('c, unit) tact" where
  "tunnel_run env st =
     (case sl_connect env (st_card st) of
        (False, k) \<Rightarrow> (Inl Br_Link, st\<lparr>st_card := k\<rparr>)
      | (True, k) \<Rightarrow>
          bnd (\<lambda>st. if st_direct st then on_conn (conn_send (sl_atr env k)) st else throw Br_AttributeError st)
            (\<lambda>_ st. (Inr (), maintain_connection env st))
            (st\<lparr>st_card := k, st_connected := True\<rparr>))"


section \<open>The tunnel answers every APDU\<close>

text \<open>The bytes of an APDU on the wire, and of several.\<close>

definition frame :: "bytes \<Rightarrow> bytes" where
  "frame payload = (case send_apdu payload [] of Inl e \<Rightarrow> [] | Inr bs \<Rightarrow> bs)"

definition frames :: "bytes list \<Rightarrow> bytes" where
  "frames = concat \<circ> map frame"

lemma frames_simps [simp]: "frames [] = []" "frames (p # ps) = frame p @ frames ps"
  by (simp_all add: frames_def)

lemma frame_sent:
  assumes "length payload < 1024"
  shows "send_apdu payload [] = Inr (frame payload)"
    "\<exists>p. wf_apdu p \<and> apdu_payload p = payload \<and> apdu_encode p = Inr (frame payload)"
proof -
  obtain p where p: "ApduPacket_init Op_Apdu payload = Inr p" "wf_apdu p" "apdu_payload p = payload"
    using assms by (auto simp: ApduPacket_init_def wf_apdu_def)
  then obtain bs where "apdu_encode p = Inr bs" using apdu_format.enc_total by blast
  with p show "send_apdu payload [] = Inr (frame payload)"
    "\<exists>p. wf_apdu p \<and> apdu_payload p = payload \<and> apdu_encode p = Inr (frame payload)"
    by (auto simp: frame_def send_apdu_def apdu_send_def)
qed

lemma conn_recv_frame:
  assumes "raw_content (cl_stream c) = frame payload @ rest" "length payload < 1024"
  obtains p str where "conn_recv c = (Inr (Some p), c\<lparr>cl_stream := str\<rparr>)"
    "apdu_payload p = payload" "raw_content str = rest"
proof -
  obtain p where p: "wf_apdu p" "apdu_payload p = payload" "apdu_encode p = Inr (frame payload)"
    using frame_sent(2) [OF assms(2)] by blast
  from client_source.apdu_recv_delivers [OF p(1,3) assms(1), of EOFError] p(2) that show thesis
    by (auto simp: conn_recv_def cli_recv_def)
qed

lemma conn_recv_eof:
  assumes "raw_content (cl_stream c) = []"
  obtains str where "conn_recv c = (Inr None, c\<lparr>cl_stream := str\<rparr>)" "raw_content str = []"
  using client_source.apdu_recv_eof [OF assms, of EOFError] that by (auto simp: conn_recv_def cli_recv_def)

lemma conn_send_frame:
  "length payload < 1024 \<Longrightarrow> \<not> cl_broken c \<Longrightarrow>
     conn_send_apdu payload c = (Inr (), c\<lparr>cl_out := cl_out c @ frame payload\<rparr>)"
  by (simp add: conn_send_apdu_def conn_send_def frame_sent)

text \<open>What a card answers to a sequence of APDUs, when it does and the answers fit a packet.\<close>

fun card_answers :: "'c sim_link \<Rightarrow> bytes list \<Rightarrow> 'c \<Rightarrow> (bytes list \<times> 'c) option" where
  "card_answers env [] k = Some ([], k)"
| "card_answers env (apdu # apdus) k =
     (case sl_send_apdu env (sl_b2h env apdu) k of
        (Some (data, sw), k') \<Rightarrow>
          (case sl_h2b env (data @ sw) of
             Some resp \<Rightarrow>
               if length resp < 1024 then
                 (case card_answers env apdus k' of
                    Some (resps, k'') \<Rightarrow> Some (resp # resps, k'')
                  | None \<Rightarrow> None)
               else None
           | None \<Rightarrow> None)
      | _ \<Rightarrow> None)"

lemma card_answers_ConsD:
  assumes "card_answers env (apdu # apdus) k = Some (answers, k'')"
  obtains resp resps k' where "answers = resp # resps" "length resp < 1024"
    "card_answers env apdus k' = Some (resps, k'')"
    "\<And>st. st_card st = k \<Longrightarrow> card_answer env apdu st = (Inr resp, st\<lparr>st_card := k'\<rparr>)"
  using assms by (auto simp: card_answer_def split: prod.splits option.splits if_splits)

lemma tunnel_loop_answers:
  assumes "st_connected st" "\<not> st_direct st" "\<not> cl_broken (st_conn st)"
    "raw_content (cl_stream (st_conn st)) = frames apdus" "\<forall>a \<in> set apdus. length a < 1024"
    "card_answers env apdus (st_card st) = Some (answers, k)"
  shows "\<exists>st'. tunnel_loop env st = (Inr (), st') \<and> st_card st' = k \<and>
    cl_out (st_conn st') = cl_out (st_conn st) @ frames answers"
  using assms
proof (induction apdus arbitrary: st answers)
  case Nil
  from Nil.prems(4) obtain str where
    "conn_recv (st_conn st) = (Inr None, (st_conn st)\<lparr>cl_stream := str\<rparr>)"
    by (auto elim: conn_recv_eof)
  with Nil.prems show ?case
    by (simp add: tunnel_loop.simps [of env st] process_packet_def process_packet_indirect_def
        bnd_def on_conn_def modify_def) (simp add: tunnel_loop.simps)
next
  case (Cons apdu apdus)
  obtain resp resps k' where card: "answers = resp # resps" "length resp < 1024"
    "card_answers env apdus k' = Some (resps, k)"
    "\<And>t. st_card t = st_card st \<Longrightarrow> card_answer env apdu t = (Inr resp, t\<lparr>st_card := k'\<rparr>)"
    using card_answers_ConsD [OF Cons.prems(6)] by blast
  obtain p str where recv: "conn_recv (st_conn st) = (Inr (Some p), (st_conn st)\<lparr>cl_stream := str\<rparr>)"
    "apdu_payload p = apdu" "raw_content str = frames apdus"
    using conn_recv_frame [of "st_conn st" apdu "frames apdus"] Cons.prems(4,5) by auto
  let ?c = "(st_conn st)\<lparr>cl_stream := str, cl_out := cl_out (st_conn st) @ frame resp\<rparr>"
  let ?st = "st\<lparr>st_conn := ?c, st_card := k'\<rparr>"
  have "process_packet env st = (Inr (), ?st)"
    using Cons.prems(2,3) recv card(2)
      card(4) [of "st\<lparr>st_conn := (st_conn st)\<lparr>cl_stream := str\<rparr>\<rparr>"]
    by (simp add: process_packet_def process_packet_indirect_def bnd_def on_conn_def conn_send_frame)
  then have "tunnel_loop env st = tunnel_loop env ?st"
    using Cons.prems(1) by (simp add: tunnel_loop.simps [of env st])
  moreover obtain st' where "tunnel_loop env ?st = (Inr (), st')" "st_card st' = k"
      "cl_out (st_conn st') = cl_out ?c @ frames resps"
    using Cons.IH [of ?st resps] Cons.prems(1-3,5) recv(3) card(3) by auto
  ultimately show ?case using card(1) by simp
qed


text \<open>
  A SIM tunnel of the tunnel server never gets that far: whatever the card and the
  connection, \<^verbatim>\<open>run\<close> calls a method \<^verbatim>\<open>ApduStream\<close> does not have, so nothing is sent, no APDU is
  read and the connection stays open.
\<close>
theorem indirect_run_dies:
  assumes "\<not> st_direct st"
  shows "(\<exists>e. fst (tunnel_run env st) = Inl e) \<and> st_conn (snd (tunnel_run env st)) = st_conn st"
  using assms by (auto simp: tunnel_run_def bnd_def split: prod.split bool.split)


section \<open>ModemTunnel\<close>

definition modem_clk :: "string \<Rightarrow> int option" where
  "modem_clk modem =
     (if modem = ''telit'' then Some 3250000
      else if modem = ''huawei'' then Some 3759000
      else if modem = ''simcom'' then Some 3842000
      else if modem = ''quectel'' then Some 3842000
      else if modem = ''rm520'' then Some 4800000
      else None)"

text \<open>A pin of the modem's power supply and the level that switches it off.\<close>

definition powerup_pins :: "string \<Rightarrow> (int \<times> bool) list" where
  "powerup_pins modem_adapter_type =
     (if modem_adapter_type = ''mpcie'' then [(26, True)]
      else if modem_adapter_type = ''m2'' then [(16, True), (26, False)]
      else [])"

text \<open>What is done to the hardware, in order.\<close>

datatype hw_action = Gpio_Output int bool | Sleep_S int | Usb_Power_Cycle

definition set_modem_power :: "(int \<times> bool) list \<Rightarrow> bool \<Rightarrow> hw_action list" where
  "set_modem_power pins power_state =
     map (\<lambda>(pin, off_state). Gpio_Output pin (if power_state then \<not> off_state else off_state)) pins"

definition reset_modem :: "(int \<times> bool) list \<Rightarrow> hw_action list" where
  "reset_modem pins =
     (if pins \<noteq> [] then set_modem_power pins False @ [Sleep_S 2] @ set_modem_power pins True
      else [Usb_Power_Cycle])"

text \<open>
  The state of a tunnel that is set up: \<open>mt_running\<close> is the thread of pySim's \<^verbatim>\<open>VirtualSim\<close>,
  which calls \<^verbatim>\<open>handle_apdu\<close> for every APDU of the modem.
\<close>

record modem_tunnel =
  mt_conn :: client
  mt_direct :: bool
  mt_running :: bool
  mt_hw :: "hw_action list"

type_synonym 'a mact = "(bridge_error, modem_tunnel, 'a) eff"

definition on_link :: "(bridge_error, client, 'a) eff \<Rightarrow> 'a mact" where
  "on_link f mt = (case f (mt_conn mt) of (r, c) \<Rightarrow> (r, mt\<lparr>mt_conn := c\<rparr>))"

text \<open>\<^verbatim>\<open>shutdown\<close>: without direct mode it calls \<^verbatim>\<open>deregister\<close>, which is no name of the module.\<close>

definition modem_shutdown :: "unit mact" where
  "modem_shutdown =
     bnd (modify (\<lambda>mt. mt\<lparr>mt_conn := client_close (mt_conn mt)\<rparr>)) (\<lambda>_.
     bnd (gets mt_direct) (\<lambda>direct.
       if direct then modify (\<lambda>mt. mt\<lparr>mt_running := False\<rparr>) else throw Br_NameError))"

definition handle_apdu_indirect :: "bytes \<Rightarrow> bytes mact" where
  "handle_apdu_indirect apdu =
     bnd (on_link (conn_send_apdu apdu)) (\<lambda>_.
     bnd (on_link conn_recv) (\<lambda>response.
       case response of
         None \<Rightarrow> bnd modem_shutdown (\<lambda>_. throw Br_PeerClosed)
       | Some p \<Rightarrow> ret (apdu_payload p)))"

definition handle_apdu_direct :: "bytes \<Rightarrow> bytes mact" where
  "handle_apdu_direct apdu =
     bnd (on_link (conn_send apdu)) (\<lambda>_. on_link (sock_recv 65535))"

definition handle_apdu :: "bytes \<Rightarrow> bytes mact" where
  "handle_apdu apdu mt =
     (if mt_direct mt then handle_apdu_direct apdu mt else handle_apdu_indirect apdu mt)"

text \<open>\<^verbatim>\<open>_setup_modem\<close>.\<close>

definition setup_modem :: "string \<Rightarrow> unit mact" where
  "setup_modem adapter_type =
     modify (\<lambda>mt. mt\<lparr>mt_hw := mt_hw mt @ reset_modem (powerup_pins adapter_type), mt_running := True\<rparr>)"

text \<open>
  \<^verbatim>\<open>_setup_indirect_connection\<close>: \<open>dial\<close> is the result of connecting to the tunnel server.
\<close>

definition request_sim :: "token \<Rightarrow> string \<Rightarrow> client option \<Rightarrow> client_error + client" where
  "request_sim session_token sim_imsi dial =
     bind_r (case Imsi_init sim_imsi of Inl e \<Rightarrow> Inl (Client_Wire e) | Inr i \<Rightarrow> Inr i) (\<lambda>imsi.
       case dial of
         None \<Rightarrow> Inl Client_ConnectionError
       | Some c \<Rightarrow>
           (case probe_connect session_token False (By_Imsi imsi) c of
              (Inl e, c') \<Rightarrow> Inl e
            | (Inr _, c') \<Rightarrow> Inr c'))"

definition setup_indirect_connection ::
  "'w http_client \<Rightarrow> string \<Rightarrow> token \<Rightarrow> token \<Rightarrow> string \<Rightarrow> client option \<Rightarrow> 'w \<Rightarrow>
     (bridge_error + token \<times> client) \<times> 'w"
where
  "setup_indirect_connection hc api_url mam_token token sim_imsi dial w =
     (case client_register_probe hc api_url mam_token token w of
        (Inl e, w) \<Rightarrow> (Inl (Br_Registration e), w)
      | (Inr session_token, w) \<Rightarrow>
          (case request_sim session_token sim_imsi dial of
             Inr c \<Rightarrow> (Inr (session_token, c), w)
           | Inl e \<Rightarrow>
               (case client_deregister_probe hc api_url session_token w of
                  (Inl e', w) \<Rightarrow> (Inl (Br_Setup e'), w)
                | (Inr _, w) \<Rightarrow> (Inl (Br_Setup e), w))))"

text \<open>\<^verbatim>\<open>_setup_direct_connection\<close> sends the IMSI as a 64-bit number.\<close>

definition setup_direct_connection :: "int \<Rightarrow> (bridge_error, client, unit) eff" where
  "setup_direct_connection sim_imsi c =
     (case struct_pack 8 sim_imsi of Inl e \<Rightarrow> (Inl (Br_Wire e), c) | Inr bs \<Rightarrow> conn_send bs c)"

section \<open>The modem talks to the card\<close>

text \<open>The APDUs of the modem, one after the other.\<close>

fun forward_apdus :: "bytes list \<Rightarrow> bytes list mact" where
  "forward_apdus [] = ret []"
| "forward_apdus (apdu # apdus) =
     bnd (handle_apdu apdu) (\<lambda>resp. bnd (forward_apdus apdus) (\<lambda>resps. ret (resp # resps)))"

lemma forward_indirect:
  assumes "\<not> mt_direct mt" "\<not> cl_broken (mt_conn mt)" "length answers = length apdus"
    "raw_content (cl_stream (mt_conn mt)) = frames answers @ rest"
    "\<forall>a \<in> set apdus. length a < 1024" "\<forall>a \<in> set answers. length a < 1024"
  shows "\<exists>mt'. forward_apdus apdus mt = (Inr answers, mt') \<and>
    cl_out (mt_conn mt') = cl_out (mt_conn mt) @ frames apdus"
  using assms
proof (induction apdus arbitrary: mt answers)
  case (Cons apdu apdus)
  then obtain resp resps where ans: "answers = resp # resps" by (cases answers) auto
  let ?c = "(mt_conn mt)\<lparr>cl_out := cl_out (mt_conn mt) @ frame apdu\<rparr>"
  obtain p str where recv: "conn_recv ?c = (Inr (Some p), ?c\<lparr>cl_stream := str\<rparr>)"
    "apdu_payload p = resp" "raw_content str = frames resps @ rest"
    using conn_recv_frame [of ?c resp "frames resps @ rest"] Cons.prems(4,6) ans by auto
  let ?mt = "mt\<lparr>mt_conn := ?c\<lparr>cl_stream := str\<rparr>\<rparr>"
  have "handle_apdu apdu mt = (Inr resp, ?mt)"
    using Cons.prems(1,2,5) recv
    by (simp add: handle_apdu_def handle_apdu_indirect_def bnd_def on_link_def conn_send_frame)
  moreover obtain mt' where "forward_apdus apdus ?mt = (Inr resps, mt')"
      "cl_out (mt_conn mt') = cl_out ?c @ frames apdus"
    using Cons.IH [of ?mt resps] Cons.prems ans recv(3) by auto
  ultimately show ?case using ans by (simp add: bnd_def)
qed simp

lemma card_answers_length:
  assumes "card_answers env apdus k = Some (answers, k')"
  shows "length answers = length apdus \<and> (\<forall>a \<in> set answers. length a < 1024)"
  using assms
proof (induction apdus arbitrary: k answers)
  case (Cons apdu apdus)
  from Cons.prems show ?case by (rule card_answers_ConsD) (use Cons.IH in auto)
qed simp


section \<open>Direct mode\<close>

lemma sr_read_seg: "0 < n \<Longrightarrow> seg \<noteq> [] \<Longrightarrow> length seg \<le> n \<Longrightarrow> sr_read n (seg # segs) = (seg, segs)"
  by simp

lemma tunnel_loop_direct:
  assumes "st_connected st" "st_direct st" "\<not> cl_broken (st_conn st)"
    "rs_socket (cl_stream (st_conn st)) = apdus" "\<forall>a \<in> set apdus. 5 \<le> length a \<and> length a \<le> 256"
    "card_answers env apdus (st_card st) = Some (answers, k)"
  shows "cl_out (st_conn (snd (tunnel_loop env st))) = cl_out (st_conn st) @ concat answers"
  using assms
proof (induction apdus arbitrary: st answers)
  case Nil
  then show ?case
    by (simp add: tunnel_loop.simps [of env st] process_packet_def process_packet_direct_def
        bnd_def on_conn_def sock_recv_def modify_def)
next
  case (Cons apdu apdus)
  obtain resp resps k' where card: "answers = resp # resps"
    "card_answers env apdus k' = Some (resps, k)"
    "\<And>t. st_card t = st_card st \<Longrightarrow> card_answer env apdu t = (Inr resp, t\<lparr>st_card := k'\<rparr>)"
    using card_answers_ConsD [OF Cons.prems(6)] by blast
  let ?c = "(st_conn st)\<lparr>cl_stream := (cl_stream (st_conn st))\<lparr>rs_socket := apdus\<rparr>\<rparr>"
  let ?st = "st\<lparr>st_conn := ?c\<lparr>cl_out := cl_out ?c @ resp\<rparr>, st_card := k'\<rparr>"
  have apdu: "apdu \<noteq> []" "5 \<le> length apdu" "length apdu \<le> 256" using Cons.prems(5) by auto
  then have "sock_recv 256 (st_conn st) = (Inr apdu, ?c)"
    using Cons.prems(4) by (simp add: sock_recv_def)
  then have "process_packet env st = (Inr (), ?st)"
    using Cons.prems(2,3) apdu card(3) [of "st\<lparr>st_conn := ?c\<rparr>"]
    by (simp add: process_packet_def process_packet_direct_def bnd_def on_conn_def conn_send_def)
  then have "tunnel_loop env st = tunnel_loop env ?st"
    using Cons.prems(1) by (simp add: tunnel_loop.simps [of env st])
  moreover have "cl_out (st_conn (snd (tunnel_loop env ?st))) = cl_out (st_conn ?st) @ concat resps"
    using Cons.IH [of ?st resps] Cons.prems(1-3,5) card(2) by auto
  ultimately show ?case using card(1) by simp
qed

text \<open>
  In direct mode the modem gets the answer to its previous APDU: the SIM tunnel sends the
  card's ATR and then the answers, the modem tunnel never reads the ATR, so when each message
  arrives on its own, the first APDU is answered by the ATR and every later one by the card's
  answer to the one before.
\<close>
theorem direct_answers_shifted:
  assumes "mt_direct mt" "\<not> cl_broken (mt_conn mt)"
    "rs_socket (cl_stream (mt_conn mt)) = sl_atr env k # answers"
    "\<forall>m \<in> set (sl_atr env k # answers). m \<noteq> [] \<and> length m \<le> 65535" "apdus \<noteq> []"
    and "st_direct st" "\<not> cl_broken (st_conn st)" "sl_connect env (st_card st) = (True, k)"
    "rs_socket (cl_stream (st_conn st)) = apdus" "\<forall>a \<in> set apdus. 5 \<le> length a \<and> length a \<le> 256"
    "card_answers env apdus k = Some (answers, k')"
  shows "cl_out (st_conn (snd (tunnel_run env st))) =
      cl_out (st_conn st) @ concat (sl_atr env k # answers) \<and>
    fst (forward_apdus apdus mt) = Inr (sl_atr env k # butlast answers)"
proof
  let ?st = "st\<lparr>st_card := k, st_connected := True,
      st_conn := (st_conn st)\<lparr>cl_out := cl_out (st_conn st) @ sl_atr env k\<rparr>\<rparr>"
  have "cl_out (st_conn (snd (tunnel_loop env ?st))) = cl_out (st_conn ?st) @ concat answers"
    using tunnel_loop_direct [of ?st] assms(6,7,9-11) by simp
  then show "cl_out (st_conn (snd (tunnel_run env st))) =
      cl_out (st_conn st) @ concat (sl_atr env k # answers)"
    using assms(6-8) by (cases "tunnel_loop env ?st")
      (simp add: tunnel_run_def bnd_def on_conn_def conn_send_def maintain_connection_def client_close_def)
next
  show "fst (forward_apdus apdus mt) = Inr (sl_atr env k # butlast answers)"
proof -
  have run: "fst (forward_apdus as mt) = Inr (take (length as) msgs)"
    if "mt_direct mt" "\<not> cl_broken (mt_conn mt)" "rs_socket (cl_stream (mt_conn mt)) = msgs"
      "\<forall>m \<in> set msgs. m \<noteq> [] \<and> length m \<le> 65535" "length as \<le> length msgs" for as msgs mt
    using that
  proof (induction as arbitrary: mt msgs)
    case (Cons a as)
    then obtain m ms where msgs: "msgs = m # ms" by (cases msgs) auto
    let ?c = "mt_conn mt"
    let ?mt = "mt\<lparr>mt_conn := ?c\<lparr>cl_out := cl_out ?c @ a, cl_stream := (cl_stream ?c)\<lparr>rs_socket := ms\<rparr>\<rparr>\<rparr>"
    have "handle_apdu a mt = (Inr m, ?mt)"
      using Cons.prems msgs sr_read_seg [of 65535 m ms]
      by (simp add: handle_apdu_def handle_apdu_direct_def bnd_def on_link_def conn_send_def sock_recv_def
          del: sr_read.simps)
    moreover have "fst (forward_apdus as ?mt) = Inr (take (length as) ms)"
      using Cons.IH [of ?mt ms] Cons.prems msgs by simp
    ultimately show ?case
      by (cases "forward_apdus as ?mt") (simp add: bnd_def msgs)
  qed simp
  have len: "length answers = length apdus" using card_answers_length [OF assms(11)] by simp
  have "take (length apdus) (sl_atr env k # answers) = sl_atr env k # butlast answers"
    using assms(5) len by (cases apdus) (simp_all add: butlast_conv_take)
  with run [OF assms(1-4), of apdus] len show ?thesis by simp
qed
qed

text \<open>
  A modem tunnel whose peer hangs up stops with the wrong exception: \<^verbatim>\<open>shutdown\<close> raises
  NameError after closing the connection, so the virtual SIM is not stopped.
\<close>
theorem peer_close_leaves_virtualsim:
  assumes "\<not> mt_direct mt" "\<not> cl_broken (mt_conn mt)" "length apdu < 1024"
    "raw_content (cl_stream (mt_conn mt)) = []"
  shows "fst (handle_apdu apdu mt) = Inl Br_NameError \<and>
    cl_closed (mt_conn (snd (handle_apdu apdu mt))) \<and>
    mt_running (snd (handle_apdu apdu mt)) = mt_running mt"
proof -
  let ?c = "(mt_conn mt)\<lparr>cl_out := cl_out (mt_conn mt) @ frame apdu\<rparr>"
  obtain str where "conn_recv ?c = (Inr None, ?c\<lparr>cl_stream := str\<rparr>)"
    using conn_recv_eof [of ?c] assms(4) by auto
  with assms(1-3) show ?thesis
    by (simp add: handle_apdu_def handle_apdu_indirect_def bnd_def on_link_def conn_send_frame
        modem_shutdown_def modify_def gets_def client_close_def)
qed


section \<open>The loops of the provider script\<close>

text \<open>
  Direct mode: the device whose IMSI is the number received. A string is never equal to a
  number in Python. \<^verbatim>\<open>struct.unpack\<close> raises unless the first read returned eight bytes, and
  nothing catches that.
\<close>

fun imsi_is :: "int \<Rightarrow> 'l sim_info \<Rightarrow> bool" where
  "imsi_is n x = (case sd_imsi x of Imsi_Str s \<Rightarrow> False | Imsi_Hash m \<Rightarrow> m = n)"

definition direct_device :: "('l, 'w) sim_provider \<Rightarrow> bytes \<Rightarrow> (provider_error + py_error) + 'l sim_info option" where
  "direct_device p msg =
     (if length msg \<noteq> 8 then Inl (Inr StructError)
      else case sims_of p of
          Inl e \<Rightarrow> Inl (Inl e)
        | Inr xs \<Rightarrow> Inr (List.find (imsi_is (int (be_nat msg))) xs))"

text \<open>
  The loop of \<^verbatim>\<open>main\<close>: the outcomes of \<^verbatim>\<open>wait_for_connection\<close> with the table of SIMs at the
  time, and what the script does on each. After the last action it deregisters.
\<close>

datatype wait_outcome = Wait_AuthError | Wait_Failed | Wait_Connection sim_identifier client

datatype 'l serve_action =
  Start_Tunnel 'l "string option" client | Close_Connection client | Sleep_1 | Give_Up | Crash provider_error

fun serve :: "int \<Rightarrow> (wait_outcome \<times> ('l, 'w) sim_provider) list \<Rightarrow> 'l serve_action list" where
  "serve failed_connections [] = []"
| "serve failed_connections ((outcome, p) # rest) =
     (case outcome of
        Wait_AuthError \<Rightarrow> [Give_Up]
      | Wait_Failed \<Rightarrow>
          let failed_connections = failed_connections + 1 in
          if failed_connections > 10 then [Give_Up] else Sleep_1 # serve failed_connections rest
      | Wait_Connection requested_sim connection \<Rightarrow>
          (case script_get_sim requested_sim p of
             Inl e \<Rightarrow> [Crash e]
           | Inr (Some x) \<Rightarrow> Start_Tunnel (sd_sl x) (sd_iccid x) connection # serve 0 rest
           | Inr None \<Rightarrow> Close_Connection connection # serve 0 rest))"

lemma serve_gives_up_from:
  assumes "Give_Up \<in> set (serve n xs)" "Wait_AuthError \<notin> fst ` set xs" "0 \<le> n" "n \<le> 10"
  shows "(\<exists>rest. map fst xs = replicate (11 - nat n) Wait_Failed @ rest) \<or>
    (\<exists>pre rest. map fst xs = pre @ replicate 11 Wait_Failed @ rest)"
  using assms
proof (induction n xs rule: serve.induct)
  case (2 n outcome p rest)
  show ?case
  proof (cases outcome)
    case Wait_AuthError
    with "2.prems"(2) show ?thesis by auto
  next
    case Wait_Failed
    show ?thesis
    proof (cases "n + 1 > 10")
      case True
      with "2.prems"(4) have "nat n = 10" by simp
      with Wait_Failed show ?thesis by simp
    next
      case False
      with "2.IH"(1) [OF Wait_Failed refl] "2.prems" Wait_Failed
      have "(\<exists>r. map fst rest = replicate (11 - nat (n + 1)) Wait_Failed @ r) \<or>
          (\<exists>pre r. map fst rest = pre @ replicate 11 Wait_Failed @ r)"
        by (simp add: Let_def)
      moreover have "Suc (11 - nat (n + 1)) = 11 - nat n" using False "2.prems"(3) by simp
      ultimately show ?thesis using Wait_Failed
        by (metis append_Cons fst_conv list.simps(9) replicate_Suc)
    qed
  next
    case (Wait_Connection ident c)
    from "2.prems"(1) Wait_Connection have "\<exists>r. script_get_sim ident p = Inr r \<and> Give_Up \<in> set (serve 0 rest)"
      by (auto split: sum.splits option.splits)
    then obtain r where r: "script_get_sim ident p = Inr r" "Give_Up \<in> set (serve 0 rest)" by blast
    have ih: "(\<exists>r. map fst rest = replicate (11 - nat 0) Wait_Failed @ r) \<or>
          (\<exists>pre r. map fst rest = pre @ replicate 11 Wait_Failed @ r)"
      using "2.IH"(2,3) [OF Wait_Connection r(1)] r(2) "2.prems"(2) by (cases r) auto
    then obtain pre r' where "map fst rest = pre @ replicate 11 Wait_Failed @ r'"
      by (metis append_Nil diff_zero nat_0)
    then have "map fst ((outcome, p) # rest) = (outcome # pre) @ replicate 11 Wait_Failed @ r'" by simp
    then show ?thesis by blast
  qed
qed simp

text \<open>
  The provider script keeps serving: unless the server refuses its session token, it gives
  up only after eleven failed connections in a row, whatever was served before.
\<close>
theorem serve_gives_up:
  assumes "Give_Up \<in> set (serve 0 xs)" "Wait_AuthError \<notin> fst ` set xs"
  shows "\<exists>pre rest. map fst xs = pre @ replicate 11 Wait_Failed @ rest"
  using serve_gives_up_from [OF assms] by (metis append_Nil diff_zero nat_0 order_refl zero_le_numeral)

text \<open>
  Direct mode never finds a SIM by its IMSI: the IMSI read from a card is a string, and the
  number a probe asks for is only compared with it as it is.
\<close>
theorem direct_mode_misses_sims:
  assumes "direct_device p msg = Inr (Some x)"
  shows "\<exists>n. sd_imsi x = Imsi_Hash n \<and> Some x \<in> set (sp_sims p)"
proof -
  from assms obtain xs where xs: "sims_of p = Inr xs" "List.find (imsi_is (int (be_nat msg))) xs = Some x"
    by (auto simp: direct_device_def split: if_splits sum.splits)
  then have "x \<in> set xs" "imsi_is (int (be_nat msg)) x" by (auto simp: find_Some_iff)
  moreover from xs(1) have "xs = map the (sp_sims p)" "None \<notin> set (sp_sims p)"
    by (auto simp: sims_of_def split: if_splits)
  moreover from calculation obtain y where "y \<in> set (sp_sims p)" "the y = x" by auto
  ultimately have "Some x \<in> set (sp_sims p)" by (cases y) auto
  with \<open>imsi_is _ x\<close> show ?thesis by (cases "sd_imsi x") auto
qed


section \<open>A card that counts\<close>

text \<open>A card whose answer to every APDU is 9000.\<close>

definition demo_link :: "nat sim_link" where
  "demo_link = \<lparr>sl_connect = (\<lambda>k. (True, k)), sl_atr = (\<lambda>_. [0x3b, 0x9f]),
     sl_send_apdu = (\<lambda>apdu k. (Some ([], ''9000''), Suc k)), sl_disconnect = (\<lambda>k. k),
     sl_b2h = (\<lambda>bs. replicate (2 * length bs) (CHR ''0'')),
     sl_h2b = (\<lambda>s. if s = ''9000'' then Some [0x90, 0x00] else None)\<rparr>"

definition demo_conn :: "reader \<Rightarrow> client" where
  "demo_conn segs = \<lparr>cl_stream = raw_init segs, cl_out = [], cl_broken = False, cl_closed = False\<rparr>"

definition demo_tunnel :: "bool \<Rightarrow> reader \<Rightarrow> nat sim_tunnel" where
  "demo_tunnel direct segs = \<lparr>st_conn = demo_conn segs, st_card = 0, st_connected = True, st_direct = direct\<rparr>"

definition demo_modem :: "bool \<Rightarrow> reader \<Rightarrow> modem_tunnel" where
  "demo_modem direct segs = \<lparr>mt_conn = demo_conn segs, mt_direct = direct, mt_running = True, mt_hw = []\<rparr>"

definition select_apdu :: bytes where "select_apdu = [0xa0, 0xa4, 0, 0, 2, 0x3f, 0]"
definition run_apdu :: bytes where "run_apdu = [0xa0, 0x88, 0, 0, 1, 7]"

lemmas demo_bridge = demo_link_def demo_conn_def demo_tunnel_def demo_modem_def raw_init_def raw_content_def

lemma demo_answers:
  "card_answers demo_link [select_apdu, run_apdu] 0 = Some ([[0x90, 0], [0x90, 0]], 2)"
  by (simp add: demo_link_def numeral_2_eq_2)

lemma demo_lengths: "length select_apdu = 7" "length run_apdu = 6"
  by (simp_all add: select_apdu_def run_apdu_def)


lemma indirect_run_dies_witness:
  "st_conn (snd (tunnel_run demo_link (demo_tunnel False [frame select_apdu]))) = demo_conn [frame select_apdu]"
  using indirect_run_dies [of "demo_tunnel False [frame select_apdu]" demo_link]
  by (simp add: demo_tunnel_def)


lemma direct_answers_shifted_witness:
  "fst (forward_apdus [select_apdu, run_apdu] (demo_modem True [[0x3b, 0x9f], [0x90, 0], [0x90, 0]]))
   = Inr [[0x3b, 0x9f], [0x90, 0]]"
  using direct_answers_shifted [of "demo_modem True [[0x3b, 0x9f], [0x90, 0], [0x90, 0]]" demo_link 0
      "[[0x90, 0], [0x90, 0]]" "[select_apdu, run_apdu]" "demo_tunnel True [select_apdu, run_apdu]" 2]
    demo_answers
  by (simp add: demo_bridge demo_lengths)

lemma peer_close_leaves_virtualsim_witness:
  "fst (handle_apdu select_apdu (demo_modem False [])) = Inl Br_NameError"
  using peer_close_leaves_virtualsim [of "demo_modem False []" select_apdu]
  by (simp add: demo_bridge demo_lengths)

lemma serve_gives_up_witness:
  "\<exists>pre rest. map fst (replicate 11 (Wait_Failed, listener demo_observer)) = pre @ replicate 11 Wait_Failed @ rest"
proof -
  have "Give_Up \<in> set (serve 0 (replicate 11 (Wait_Failed, listener demo_observer)))"
    by (simp add: eval_nat_numeral)
  then show ?thesis by (rule serve_gives_up) (auto simp: set_replicate_conv_if)
qed

definition demo_t1 :: "(nat, unit) sim_provider" where
  "demo_t1 = \<lparr>sp_sims = [Some (demo_sim PCSC (Reader []) \<lparr>sd_imsi := Imsi_Hash 7\<rparr>)], sp_world = ()\<rparr>"

lemma demo_t1_found:
  "direct_device demo_t1 (replicate 7 0 @ [7]) = Inr (Some (demo_sim PCSC (Reader []) \<lparr>sd_imsi := Imsi_Hash 7\<rparr>))"
  by code_simp

lemma direct_mode_misses_sims_witness:
  "Some (demo_sim PCSC (Reader []) \<lparr>sd_imsi := Imsi_Hash 7\<rparr>) \<in> set (sp_sims demo_t1)"
  using direct_mode_misses_sims [OF demo_t1_found] by blast

end
