(* ===== verification/Modem_States.thy ===== *)
theory Modem_States
  imports Moat_Prelude
begin

text \<open>
  The states ModemManager and NetworkManager report, as the enumerations of
  \<^verbatim>\<open>mm_definitions.py\<close> and \<^verbatim>\<open>nm_definitions.py\<close> that the mediator works with, and what
  \<^verbatim>\<open>OrderedEnum\<close> (\<^verbatim>\<open>enum_utils.py\<close>) gives them: the member of a number, and an order.
\<close>

section \<open>Enumerations\<close>

datatype enum_error = Enum_ValueError

text \<open>The call of an enumeration class with a number.\<close>

definition enum_of :: "('a \<Rightarrow> int) \<Rightarrow> 'a list \<Rightarrow> int \<Rightarrow> enum_error + 'a" where
  "enum_of val members n =
     (case List.find (\<lambda>x. val x = n) members of None \<Rightarrow> Inl Enum_ValueError | Some x \<Rightarrow> Inr x)"

locale enumeration =
  fixes val :: "'a \<Rightarrow> int" and members :: "'a list"
  assumes val_inject: "val x = val y \<longleftrightarrow> x = y"
    and all_members: "x \<in> set members"
begin

lemma of_val [simp]: "enum_of val members (val x) = Inr x"
proof (cases "List.find (\<lambda>y. val y = val x) members")
  case None
  with all_members [of x] show ?thesis by (auto simp: find_None_iff)
next
  case (Some y)
  then have "val y = val x" by (auto simp: find_Some_iff)
  with Some show ?thesis by (simp add: enum_of_def val_inject)
qed

lemma of_Inr: "enum_of val members n = Inr x \<longleftrightarrow> val x = n"
proof
  assume "enum_of val members n = Inr x"
  then have "List.find (\<lambda>y. val y = n) members = Some x" by (auto simp: enum_of_def split: option.splits)
  then show "val x = n" by (auto simp: find_Some_iff)
qed auto

lemma of_Inl: "enum_of val members n = Inl Enum_ValueError \<longleftrightarrow> (\<forall>x. val x \<noteq> n)"
proof (cases "enum_of val members n")
  case (Inl e)
  then show ?thesis using of_Inr [of n] by (cases e) auto
next
  case (Inr x)
  then show ?thesis using of_Inr [of n x] by auto
qed

end

section \<open>The states of a modem\<close>

datatype modem_state =
    Modem_FAILED | Modem_UNKNOWN | Modem_INITIALIZING | Modem_LOCKED | Modem_DISABLED
  | Modem_DISABLING | Modem_ENABLING | Modem_ENABLED | Modem_SEARCHING | Modem_REGISTERED
  | Modem_DISCONNECTING | Modem_CONNECTING | Modem_CONNECTED

fun modem_state_value :: "modem_state \<Rightarrow> int" where
  "modem_state_value Modem_FAILED = - 1"
| "modem_state_value Modem_UNKNOWN = 0"
| "modem_state_value Modem_INITIALIZING = 1"
| "modem_state_value Modem_CONNECTING = 10"
| "modem_state_value Modem_CONNECTED = 11"
| "modem_state_value Modem_LOCKED = 2"
| "modem_state_value Modem_DISABLED = 3"
| "modem_state_value Modem_DISABLING = 4"
| "modem_state_value Modem_ENABLING = 5"
| "modem_state_value Modem_ENABLED = 6"
| "modem_state_value Modem_SEARCHING = 7"
| "modem_state_value Modem_REGISTERED = 8"
| "modem_state_value Modem_DISCONNECTING = 9"

definition modem_states :: "modem_state list" where
  "modem_states = [Modem_FAILED, Modem_UNKNOWN, Modem_INITIALIZING, Modem_CONNECTING, Modem_CONNECTED,
     Modem_LOCKED, Modem_DISABLED, Modem_DISABLING, Modem_ENABLING, Modem_ENABLED, Modem_SEARCHING,
     Modem_REGISTERED, Modem_DISCONNECTING]"

interpretation modem_state: enumeration modem_state_value modem_states
proof unfold_locales
  show "modem_state_value x = modem_state_value y \<longleftrightarrow> x = y" for x y by (cases x; cases y) simp_all
  show "x \<in> set modem_states" for x by (cases x) (simp_all add: modem_states_def)
qed

text \<open>\<^verbatim>\<open>OrderedEnum\<close> compares the values.\<close>

instantiation modem_state :: linorder
begin

definition less_eq_modem_state :: "modem_state \<Rightarrow> modem_state \<Rightarrow> bool" where
  "s \<le> t \<longleftrightarrow> modem_state_value s \<le> modem_state_value t"

definition less_modem_state :: "modem_state \<Rightarrow> modem_state \<Rightarrow> bool" where
  "s < t \<longleftrightarrow> modem_state_value s < modem_state_value t"

instance
  by standard (auto simp: less_eq_modem_state_def less_modem_state_def modem_state.val_inject)

end

datatype device_state =
    Device_UNKNOWN | Device_UNMANAGED | Device_UNAVAILABLE | Device_DISCONNECTED | Device_PREPARE
  | Device_CONFIG | Device_NEED_AUTH | Device_IP_CONFIG | Device_IP_CHECK | Device_SECONDARIES
  | Device_ACTIVATED | Device_DEACTIVATING | Device_FAILED

fun device_state_value :: "device_state \<Rightarrow> int" where
  "device_state_value Device_UNKNOWN = 0"
| "device_state_value Device_UNMANAGED = 10"
| "device_state_value Device_ACTIVATED = 100"
| "device_state_value Device_DEACTIVATING = 110"
| "device_state_value Device_FAILED = 120"
| "device_state_value Device_UNAVAILABLE = 20"
| "device_state_value Device_DISCONNECTED = 30"
| "device_state_value Device_PREPARE = 40"
| "device_state_value Device_CONFIG = 50"
| "device_state_value Device_NEED_AUTH = 60"
| "device_state_value Device_IP_CONFIG = 70"
| "device_state_value Device_IP_CHECK = 80"
| "device_state_value Device_SECONDARIES = 90"

definition device_states :: "device_state list" where
  "device_states = [Device_UNKNOWN, Device_UNMANAGED, Device_ACTIVATED, Device_DEACTIVATING, Device_FAILED,
     Device_UNAVAILABLE, Device_DISCONNECTED, Device_PREPARE, Device_CONFIG, Device_NEED_AUTH,
     Device_IP_CONFIG, Device_IP_CHECK, Device_SECONDARIES]"

interpretation device_state: enumeration device_state_value device_states
proof unfold_locales
  show "device_state_value x = device_state_value y \<longleftrightarrow> x = y" for x y by (cases x; cases y) simp_all
  show "x \<in> set device_states" for x by (cases x) (simp_all add: device_states_def)
qed

instantiation device_state :: linorder
begin

definition less_eq_device_state :: "device_state \<Rightarrow> device_state \<Rightarrow> bool" where
  "s \<le> t \<longleftrightarrow> device_state_value s \<le> device_state_value t"

definition less_device_state :: "device_state \<Rightarrow> device_state \<Rightarrow> bool" where
  "s < t \<longleftrightarrow> device_state_value s < device_state_value t"

instance
  by standard (auto simp: less_eq_device_state_def less_device_state_def device_state.val_inject)

end

datatype sms_state = Sms_UNKNOWN | Sms_STORED | Sms_RECEIVING | Sms_RECEIVED | Sms_SENDING | Sms_SENT

fun sms_state_value :: "sms_state \<Rightarrow> int" where
  "sms_state_value Sms_UNKNOWN = 0"
| "sms_state_value Sms_STORED = 1"
| "sms_state_value Sms_RECEIVING = 2"
| "sms_state_value Sms_RECEIVED = 3"
| "sms_state_value Sms_SENDING = 4"
| "sms_state_value Sms_SENT = 5"

definition sms_states :: "sms_state list" where
  "sms_states = [Sms_UNKNOWN, Sms_STORED, Sms_RECEIVING, Sms_RECEIVED, Sms_SENDING, Sms_SENT]"

interpretation sms_state: enumeration sms_state_value sms_states
proof unfold_locales
  show "sms_state_value x = sms_state_value y \<longleftrightarrow> x = y" for x y by (cases x; cases y) simp_all
  show "x \<in> set sms_states" for x by (cases x) (simp_all add: sms_states_def)
qed

end
