(* ===== verification/Probe_Events.thy ===== *)
theory Probe_Events
  imports Moat_Prelude
begin

text \<open>
  The events of \<^verbatim>\<open>event_utils.py\<close> on which a measurement waits for its modem:
  \<^verbatim>\<open>EnhancedEvent\<close> with its debounced wait, \<^verbatim>\<open>NegatableEvent\<close> and the disjunction \<^verbatim>\<open>Events\<close>.

  What other threads do to an event while one waits is a schedule: the times at which they
  set or clear it, and whether the waiting thread runs before the next of these operations.
\<close>

section \<open>EnhancedEvent\<close>

datatype ev_op = Ev_Op (op_at: time) (op_set: bool) (op_prompt: bool)

record enhanced_event =
  ev_now :: time
  ev_timestamp :: "time option"
  ev_future :: "ev_op list"

definition is_set :: "time option \<Rightarrow> bool" where "is_set timestamp \<longleftrightarrow> timestamp \<noteq> None"
definition is_cleared :: "time option \<Rightarrow> bool" where "is_cleared timestamp \<longleftrightarrow> timestamp = None"

definition ev_set :: "enhanced_event \<Rightarrow> enhanced_event" where
  "ev_set e = e\<lparr>ev_timestamp := Some (ev_now e)\<rparr>"

definition ev_clear :: "enhanced_event \<Rightarrow> enhanced_event" where
  "ev_clear e = e\<lparr>ev_timestamp := None\<rparr>"

text \<open>An operation of the schedule happens.\<close>

definition ev_play :: "ev_op \<Rightarrow> enhanced_event \<Rightarrow> enhanced_event" where
  "ev_play op e =
     (let e = e\<lparr>ev_now := max (ev_now e) (op_at op)\<rparr> in if op_set op then ev_set e else ev_clear e)"

text \<open>
  \<^verbatim>\<open>Condition.wait_for\<close>: the predicate is looked at when the thread is woken and when the time
  is over; without an end and without further operations it waits for ever, which is \<open>None\<close>.
\<close>

fun wait_until ::
  "(time option \<Rightarrow> bool) \<Rightarrow> time option \<Rightarrow> ev_op list \<Rightarrow> enhanced_event \<Rightarrow> (bool \<times> enhanced_event) option"
where
  "wait_until p end_time [] e =
     (case end_time of
        None \<Rightarrow> None
      | Some t \<Rightarrow> Some (p (ev_timestamp e), e\<lparr>ev_now := max (ev_now e) t, ev_future := []\<rparr>))"
| "wait_until p end_time (op # ops) e =
     (if end_time \<noteq> None \<and> the end_time \<le> op_at op
      then Some (p (ev_timestamp e), e\<lparr>ev_now := max (ev_now e) (the end_time), ev_future := op # ops\<rparr>)
      else let e' = ev_play op e in
        if op_prompt op \<and> p (ev_timestamp e') then Some (True, e'\<lparr>ev_future := ops\<rparr>)
        else wait_until p end_time ops e')"

definition wait_for ::
  "(time option \<Rightarrow> bool) \<Rightarrow> time option \<Rightarrow> enhanced_event \<Rightarrow> (bool \<times> enhanced_event) option"
where
  "wait_for p timeout e =
     (if p (ev_timestamp e) then Some (True, e)
      else wait_until p (map_option (\<lambda>t. ev_now e + t) timeout) (ev_future e) e)"

text \<open>
  The lock of the condition is a plain lock: a thread that holds it and acquires it again
  waits for ever. The methods take whether the calling thread holds it.
\<close>

datatype ev_error = Ev_TypeError

type_synonym ev_result = "((ev_error + bool) \<times> enhanced_event) option"

definition ev_wait :: "bool \<Rightarrow> time option \<Rightarrow> enhanced_event \<Rightarrow> ev_result" where
  "ev_wait locked timeout e =
     (if locked then None
      else map_option (apfst Inr)
        (if ev_timestamp e = None then wait_for is_set timeout e else Some (True, e)))"

definition ev_wait_cleared :: "bool \<Rightarrow> time option \<Rightarrow> enhanced_event \<Rightarrow> ev_result" where
  "ev_wait_cleared locked timeout e =
     (if locked then None
      else map_option (apfst Inr)
        (if ev_timestamp e \<noteq> None then wait_for is_cleared timeout e else Some (True, e)))"

function wait_debounced ::
  "bool \<Rightarrow> time option \<Rightarrow> time option \<Rightarrow> bool \<Rightarrow> enhanced_event \<Rightarrow> ev_result"
where
  "wait_debounced locked timeout debounce_interval retry e =
     (if debounce_interval = None \<or> debounce_interval = Some 0 then ev_wait locked timeout e
      else if locked then None
      else case (if ev_timestamp e = None then wait_for is_set timeout e else Some (True, e)) of
          None \<Rightarrow> None
        | Some (False, e1) \<Rightarrow> Some (Inr False, e1)
        | Some (True, e1) \<Rightarrow>
            (case ev_timestamp e1 of
               None \<Rightarrow> Some (Inl Ev_TypeError, e1)
             | Some timestamp \<Rightarrow>
                 let interval_set = ev_now e1 - timestamp in
                 if interval_set \<ge> the debounce_interval then Some (Inr True, e1)
                 else
                   (case wait_for is_cleared (Some (the debounce_interval - interval_set)) e1 of
                      None \<Rightarrow> None
                    | Some (True, e2) \<Rightarrow>
                        if \<not> retry then Some (Inr False, e2)
                        else
                          (case timeout of
                             None \<Rightarrow> Some (Inl Ev_TypeError, e2)
                           | Some timeout \<Rightarrow>
                               let time_elapsed = ev_now e2 - ev_now e in
                               wait_debounced True (Some (timeout - time_elapsed)) debounce_interval True e2)
                    | Some (False, e2) \<Rightarrow> Some (Inr True, e2))))"
  by pat_completeness auto
termination
  by (relation "measure (\<lambda>(locked, _). if locked then 0 else 1)") auto

declare wait_debounced.simps [simp del]

section \<open>What a debounced wait promises\<close>

lemma ev_play_simps [simp]:
  "ev_now (ev_play op e) = max (ev_now e) (op_at op)"
  "ev_timestamp (ev_play op e) = (if op_set op then Some (max (ev_now e) (op_at op)) else None)"
  by (simp_all add: ev_play_def Let_def ev_set_def ev_clear_def)

text \<open>A wait plays a prefix of the schedule.\<close>

lemma wait_until_played:
  assumes "wait_until p end_time ops e = Some (r, e')"
  shows "\<exists>pre. ops = pre @ ev_future e' \<and>
    ev_timestamp e' = ev_timestamp (fold ev_play pre e) \<and>
    (r \<longrightarrow> p (ev_timestamp e')) \<and>
    (\<not> r \<longrightarrow> (\<exists>t. end_time = Some t \<and> t \<le> ev_now e')) \<and>
    (\<not> r \<longrightarrow> (\<forall>op \<in> set ops. op_prompt op) \<longrightarrow>
      (\<forall>n \<le> length pre. 0 < n \<longrightarrow> \<not> p (ev_timestamp (fold ev_play (take n pre) e))))"
  using assms
proof (induction p end_time ops e rule: wait_until.induct)
  case (1 p end_time e)
  then show ?case by (auto split: option.splits intro!: exI [of _ "[]"])
next
  case (2 p end_time op ops e)
  show ?case
  proof (cases "end_time \<noteq> None \<and> the end_time \<le> op_at op")
    case True
    with "2.prems" show ?thesis by (auto intro!: exI [of _ "[]"])
  next
    case False
    let ?e = "ev_play op e"
    show ?thesis
    proof (cases "op_prompt op \<and> p (ev_timestamp ?e)")
      case True
      with False "2.prems" have "r" "e' = ?e\<lparr>ev_future := ops\<rparr>" by (auto simp: Let_def split: if_splits)
      with True show ?thesis by (auto intro!: exI [of _ "[op]"])
    next
      case nope: False
      then have "wait_until p end_time ops ?e = Some (r, e')"
        using False "2.prems" by (auto simp: Let_def split: if_splits)
      from "2.IH" [OF False refl nope this] obtain pre where pre: "ops = pre @ ev_future e'"
        "ev_timestamp e' = ev_timestamp (fold ev_play pre ?e)" "r \<longrightarrow> p (ev_timestamp e')"
        "\<not> r \<longrightarrow> (\<exists>t. end_time = Some t \<and> t \<le> ev_now e')"
        "\<not> r \<longrightarrow> (\<forall>op \<in> set ops. op_prompt op) \<longrightarrow>
          (\<forall>n \<le> length pre. 0 < n \<longrightarrow> \<not> p (ev_timestamp (fold ev_play (take n pre) ?e)))"
        by blast
      show ?thesis
      proof (intro exI [of _ "op # pre"] conjI impI allI)
        fix n assume "\<not> r" "\<forall>op \<in> set (op # ops). op_prompt op" "n \<le> length (op # pre)" "0 < n"
        with pre(5) nope show "\<not> p (ev_timestamp (fold ev_play (take n (op # pre)) e))"
          by (cases n; cases "n = 1") auto
      qed (use pre in auto)
    qed
  qed
qed


lemma quiet_wait_sets:
  assumes "wait_until is_cleared end_time ops e = Some (False, e')" "\<forall>op \<in> set ops. op_prompt op"
  shows "\<exists>pre t. ops = pre @ ev_future e' \<and> (\<forall>op \<in> set pre. op_set op) \<and> end_time = Some t \<and> t \<le> ev_now e'"
proof -
  from wait_until_played [OF assms(1)] assms(2) obtain pre t where pre: "ops = pre @ ev_future e'"
    "end_time = Some t" "t \<le> ev_now e'"
    "\<And>n. n \<le> length pre \<Longrightarrow> 0 < n \<Longrightarrow> ev_timestamp (fold ev_play (take n pre) e) \<noteq> None"
    by (auto simp: is_cleared_def)
  have "op_set (pre ! i)" if "i < length pre" for i
    using pre(4) [of "Suc i"] that by (auto simp: take_Suc_conv_app_nth split: if_splits)
  then show ?thesis using pre(1-3) by (auto simp: in_set_conv_nth)
qed

text \<open>
  C39: A debounced wait that succeeds has seen a stable event: if the waiting thread always
  runs when it is woken, then the event had been set at some moment at least the interval
  before the return, and from that moment to the return nobody cleared it.
\<close>
theorem debounced_true_stable:
  assumes "wait_debounced locked timeout (Some d) retry e = Some (Inr True, e')" "0 < d"
    "\<forall>op \<in> set (ev_future e). op_prompt op"
  shows "\<exists>before during t0. ev_future e = before @ during @ ev_future e' \<and>
    ev_timestamp (fold ev_play before e) = Some t0 \<and> t0 + d \<le> ev_now e' \<and>
    (\<forall>op \<in> set during. op_set op)"
proof -
  note run = assms(1) [unfolded wait_debounced.simps [of locked timeout "Some d" retry e]]
  have "\<not> locked" using run assms(2) by (auto split: if_splits)
  with run assms(2) obtain e1 where first:
    "(if ev_timestamp e = None then wait_for is_set timeout e else Some (True, e)) = Some (True, e1)"
    by (auto split: option.splits if_splits bool.splits)
  have "\<exists>before. ev_future e = before @ ev_future e1 \<and>
      ev_timestamp e1 = ev_timestamp (fold ev_play before e)"
    using first wait_until_played [of is_set _ "ev_future e" e True e1]
    by (fastforce simp: wait_for_def split: if_splits intro: exI [of _ "[]"])
  then obtain before where before: "ev_future e = before @ ev_future e1"
    "ev_timestamp e1 = ev_timestamp (fold ev_play before e)" by blast
  obtain t0 where t0: "ev_timestamp e1 = Some t0"
    using run \<open>\<not> locked\<close> assms(2) by (cases "ev_timestamp e1") (auto simp: first)
  show ?thesis
  proof (cases "d \<le> ev_now e1 - t0")
    case True
    with run \<open>\<not> locked\<close> assms(2) have "e' = e1" by (auto simp: first t0)
    with True before t0 show ?thesis by (intro exI [of _ before] exI [of _ "[]"] exI [of _ t0]) simp
  next
    case False
    with run \<open>\<not> locked\<close> assms(2) have second:
      "wait_for is_cleared (Some (d - (ev_now e1 - t0))) e1 = Some (False, e')"
      by (auto simp: first t0 wait_debounced.simps split: option.splits bool.splits if_splits)
    then have "wait_until is_cleared (Some (t0 + d)) (ev_future e1) e1 = Some (False, e')"
      by (auto simp: wait_for_def algebra_simps split: if_splits)
    from quiet_wait_sets [OF this] assms(3) before(1) obtain during where
      "ev_future e1 = during @ ev_future e'" "\<forall>op \<in> set during. op_set op" "t0 + d \<le> ev_now e'"
      by auto
    with before t0 show ?thesis by (intro exI [of _ before] exI [of _ during] exI [of _ t0]) simp
  qed
qed

text \<open>
  A debounced wait that retries never returns once the event is cleared within the
  interval: the retry acquires the lock its caller holds.
\<close>
theorem debounce_retry_deadlocks:
  assumes "ev_timestamp e = Some t0" "ev_now e - t0 < d" "0 < d"
    "ev_future e = Ev_Op t False True # ops" "t < t0 + d"
  shows "wait_debounced locked (Some timeout) (Some d) True e = None"
proof (cases locked)
  case False
  have "wait_for is_cleared (Some (d - (ev_now e - t0))) e = Some (True, (ev_play (Ev_Op t False True) e)\<lparr>ev_future := ops\<rparr>)"
    using assms by (simp add: wait_for_def is_cleared_def Let_def)
  moreover have "wait_debounced True (Some x) (Some d) True e' = None" for x e'
    using assms(3) by (simp add: wait_debounced.simps)
  ultimately show ?thesis using False assms(1-3)
    by (simp add: wait_debounced.simps [of False] Let_def)
qed (use assms(3) in \<open>simp add: wait_debounced.simps\<close>)

lemma wait_until_in_time:
  "\<exists>r e'. wait_until p (Some t) ops e = Some (r, e') \<and> ev_now e' \<le> max (ev_now e) t"
proof (induction p "Some t" ops e rule: wait_until.induct)
  case (2 p op ops e)
  show ?case
  proof (cases "t \<le> op_at op")
    case False
    show ?thesis
    proof (cases "op_prompt op \<and> p (ev_timestamp (ev_play op e))")
      case True
      with False show ?thesis by (auto simp: Let_def intro: exI [of _ True])
    next
      case nope: False
      from "2.hyps" [OF _ refl nope] False show ?thesis
        by (force simp: Let_def)
    qed
  qed simp
qed simp

definition ev_past :: "enhanced_event \<Rightarrow> bool" where
  "ev_past e \<longleftrightarrow> (\<forall>t. ev_timestamp e = Some t \<longrightarrow> t \<le> ev_now e)"

lemma wait_until_past:
  "wait_until p end_time ops e = Some (r, e') \<Longrightarrow> ev_past e \<Longrightarrow> ev_past e'"
proof (induction p end_time ops e rule: wait_until.induct)
  case (1 p end_time e)
  then show ?case by (auto simp: ev_past_def split: option.splits)
next
  case (2 p end_time op ops e)
  have past: "ev_past (ev_play op e)" by (simp add: ev_past_def)
  show ?case
  proof (cases "end_time \<noteq> None \<and> the end_time \<le> op_at op")
    case True
    with "2.prems" show ?thesis by (auto simp: ev_past_def)
  next
    case False
    show ?thesis
    proof (cases "op_prompt op \<and> p (ev_timestamp (ev_play op e))")
      case True
      with False "2.prems" past show ?thesis by (auto simp: Let_def ev_past_def split: if_splits)
    next
      case nope: False
      with False "2.prems"(1) have "wait_until p end_time ops (ev_play op e) = Some (r, e')"
        by (auto simp: Let_def split: if_splits)
      from "2.IH" [OF False refl nope this past] show ?thesis .
    qed
  qed
qed

lemma wait_for_in_time:
  assumes "0 \<le> t"
  obtains r e' where "wait_for p (Some t) e = Some (r, e')" "ev_now e' \<le> ev_now e + t"
    "r \<Longrightarrow> p (ev_timestamp e')" "ev_past e \<Longrightarrow> ev_past e'"
proof (cases "p (ev_timestamp e)")
  case True
  with that [of True e] assms show thesis by (simp add: wait_for_def)
next
  case False
  obtain r e' where r: "wait_until p (Some (ev_now e + t)) (ev_future e) e = Some (r, e')"
    "ev_now e' \<le> max (ev_now e) (ev_now e + t)"
    using wait_until_in_time by blast
  with False that [of r e'] wait_until_played [OF r(1)] wait_until_past [OF r(1)] assms show thesis
    by (auto simp: wait_for_def)
qed

text \<open>
  C40: Without retrying, a debounced wait with a timeout always returns, at the latest when the
  timeout and the interval have passed.
\<close>
theorem debounced_in_time:
  assumes "0 \<le> timeout" "0 < d" "ev_past e"
  shows "\<exists>r e'. wait_debounced False (Some timeout) (Some d) False e = Some (Inr r, e') \<and>
    ev_now e' \<le> ev_now e + timeout + d"
proof -
  obtain r e1 where first:
    "(if ev_timestamp e = None then wait_for is_set (Some timeout) e else Some (True, e)) = Some (r, e1)"
    "ev_now e1 \<le> ev_now e + timeout" "r \<Longrightarrow> is_set (ev_timestamp e1)" "ev_past e1"
  proof (cases "ev_timestamp e = None")
    case True
    with wait_for_in_time [OF assms(1), of is_set e] assms(3) that show thesis by metis
  next
    case False
    with assms that [of True e] show thesis by (simp add: is_set_def)
  qed
  show ?thesis
  proof (cases r)
    case False
    with first(1,2) assms(2) show ?thesis
      by (auto simp: wait_debounced.simps intro: exI [of _ False])
  next
    case True
    with first(3) obtain t0 where t0: "ev_timestamp e1 = Some t0" by (auto simp: is_set_def)
    with first(4) have "t0 \<le> ev_now e1" by (simp add: ev_past_def)
    show ?thesis
    proof (cases "d \<le> ev_now e1 - t0")
      case stable: True
      with True first(1,2) assms(2) t0 show ?thesis
        by (auto simp: wait_debounced.simps Let_def intro: exI [of _ True])
    next
      case False
      then have "0 \<le> d - (ev_now e1 - t0)" by simp
      from wait_for_in_time [OF this, of is_cleared e1] obtain c e2 where
        second: "wait_for is_cleared (Some (d - (ev_now e1 - t0))) e1 = Some (c, e2)"
          "ev_now e2 \<le> ev_now e1 + (d - (ev_now e1 - t0))" by blast
      have "wait_debounced False (Some timeout) (Some d) False e = Some (Inr (\<not> c), e2)"
        using False True first(1) assms(2) t0 second(1)
        by (cases c) (simp_all add: wait_debounced.simps Let_def)
      with second(2) first(2) \<open>t0 \<le> ev_now e1\<close> show ?thesis by simp
    qed
  qed
qed

section \<open>NegatableEvent and Events\<close>

record negatable_event =
  ne_event :: bool
  ne_not_event :: bool

definition ne_init :: negatable_event where "ne_init = \<lparr>ne_event = False, ne_not_event = True\<rparr>"

definition ne_set :: "negatable_event \<Rightarrow> negatable_event" where
  "ne_set e = e\<lparr>ne_not_event := False, ne_event := True\<rparr>"

definition ne_clear :: "negatable_event \<Rightarrow> negatable_event" where
  "ne_clear e = e\<lparr>ne_event := False, ne_not_event := True\<rparr>"

text \<open>\<^verbatim>\<open>Events\<close>: the constituents, by position, and the event of their disjunction.\<close>

record or_events =
  oe_events :: "bool list"
  oe_or :: bool

definition oe_changed :: "or_events \<Rightarrow> or_events" where
  "oe_changed e = e\<lparr>oe_or := (\<exists>b \<in> set (oe_events e). b)\<rparr>"

definition oe_init :: "bool list \<Rightarrow> or_events" where
  "oe_init events = oe_changed \<lparr>oe_events = events, oe_or = False\<rparr>"

definition or_set :: "nat \<Rightarrow> or_events \<Rightarrow> or_events" where
  "or_set i e = oe_changed (e\<lparr>oe_events := (oe_events e)[i := True]\<rparr>)"

definition or_clear :: "nat \<Rightarrow> or_events \<Rightarrow> or_events" where
  "or_clear i e = oe_changed (e\<lparr>oe_events := (oe_events e)[i := False]\<rparr>)"

definition oe_set_all :: "or_events \<Rightarrow> or_events" where
  "oe_set_all e = fold or_set [0..<length (oe_events e)] e"

definition oe_clear_all :: "or_events \<Rightarrow> or_events" where
  "oe_clear_all e = fold or_clear [0..<length (oe_events e)] e"

lemma ne_opposite:
  "ne_event (ne_set e) \<noteq> ne_not_event (ne_set e)" "ne_event (ne_clear e) \<noteq> ne_not_event (ne_clear e)"
  "ne_event ne_init \<noteq> ne_not_event ne_init"
  by (simp_all add: ne_set_def ne_clear_def ne_init_def)

definition oe_ok :: "or_events \<Rightarrow> bool" where
  "oe_ok e \<longleftrightarrow> (oe_or e \<longleftrightarrow> (\<exists>b \<in> set (oe_events e). b))"

lemma oe_ok_changed [simp]: "oe_ok (oe_changed e)"
  by (simp add: oe_ok_def oe_changed_def)

lemma oe_ok_init: "oe_ok (oe_init events)" and oe_ok_step: "oe_ok (or_set i e)" "oe_ok (or_clear i e)"
  by (simp_all add: oe_init_def or_set_def or_clear_def)

section \<open>Witnesses\<close>

definition demo_event :: "ev_op list \<Rightarrow> enhanced_event" where
  "demo_event ops = \<lparr>ev_now = 0, ev_timestamp = None, ev_future = ops\<rparr>"

lemma demo_debounced:
  "wait_debounced False (Some 60) (Some 3) True (demo_event [Ev_Op 5 True True, Ev_Op 6 True True]) =
     Some (Inr True, \<lparr>ev_now = 8, ev_timestamp = Some 6, ev_future = []\<rparr>)"
  by code_simp

lemma debounced_true_stable_witness:
  "\<exists>before during t0. [Ev_Op 5 True True, Ev_Op 6 True True] = before @ during @ [] \<and>
    ev_timestamp (fold ev_play before (demo_event [Ev_Op 5 True True, Ev_Op 6 True True])) = Some t0 \<and>
    t0 + 3 \<le> 8 \<and> (\<forall>op \<in> set during. op_set op)"
  using debounced_true_stable [OF demo_debounced] by (simp add: demo_event_def)

lemma debounce_retry_deadlocks_witness:
  "wait_debounced False (Some 1800) (Some 3) True
     \<lparr>ev_now = 10, ev_timestamp = Some 9, ev_future = [Ev_Op 11 False True]\<rparr> = None"
  by (rule debounce_retry_deadlocks [where t = 11 and ?t0.0 = 9 and ops = "[]"]) simp_all

lemma debounced_in_time_witness:
  "\<exists>r e'. wait_debounced False (Some 20) (Some 5) False (demo_event []) = Some (Inr r, e') \<and> ev_now e' \<le> 25"
  using debounced_in_time [of 20 5 "demo_event []"] by (simp add: ev_past_def demo_event_def)

end
