(* ===== verification/Probe_Mediator.thy ===== *)
theory Probe_Mediator
  imports Modem_States Probe_Events
begin

text \<open>
  The mediator of a measurement (\<^verbatim>\<open>mobile_atlas_mediator.py\<close>): it keeps what ModemManager and
  NetworkManager report of the modem, derives from it the events on which a test waits, tells
  its observers, counts the users of the network bridge and connects the modem. What plugins
  (\<^verbatim>\<open>mobile_atlas_plugin.py\<close>) subscribe to is part of it.
\<close>

section \<open>State\<close>

text \<open>The messages to observers: an SMS or call is given by a number, a notification by its text.\<close>

datatype notice = Told_Sms sms_state nat | Told_Call nat | Told_Connection bool | Told_Ussd string

text \<open>
  \<open>md_told\<close> is the log of the calls of observers, and \<open>md_now\<close> the clock the events read. The
  type \<open>'o\<close> names the observers.
\<close>

record 'o mediator =
  md_now :: time
  md_modem_added :: bool
  md_modem_enabled :: "time option"
  md_modem_registered :: "time option"
  md_modem_connected :: "time option"
  md_nm_disconnected :: bool
  md_mm_modem_state :: modem_state
  md_nm_modem_state :: device_state
  md_sms_observer :: "'o list"
  md_call_observer :: "'o list"
  md_connection_observer :: "'o list"
  md_ussd_observer :: "'o list"
  md_told :: "('o \<times> notice) list"
  md_connection :: bool
  md_veth_bridge_usecnt :: int
  md_veth_gw_usecnt :: int
  md_bridge_up :: bool
  md_gateway_up :: bool

definition mediator_init :: "time \<Rightarrow> 'o mediator" where
  "mediator_init now = \<lparr>md_now = now, md_modem_added = False, md_modem_enabled = None,
     md_modem_registered = None, md_modem_connected = None, md_nm_disconnected = False,
     md_mm_modem_state = Modem_UNKNOWN, md_nm_modem_state = Device_UNKNOWN, md_sms_observer = [],
     md_call_observer = [], md_connection_observer = [], md_ussd_observer = [], md_told = [],
     md_connection = False, md_veth_bridge_usecnt = 0, md_veth_gw_usecnt = 0, md_bridge_up = False,
     md_gateway_up = False\<rparr>"

text \<open>An event is set to the time or cleared.\<close>

definition set_to :: "bool \<Rightarrow> time \<Rightarrow> time option" where
  "set_to b now = (if b then Some now else None)"

lemma is_set_set_to [simp]: "is_set (set_to b now) \<longleftrightarrow> b"
  by (simp add: set_to_def is_set_def)

section \<open>Observers\<close>

definition tell_all :: "'o list \<Rightarrow> notice \<Rightarrow> 'o mediator \<Rightarrow> 'o mediator" where
  "tell_all observers n m = m\<lparr>md_told := md_told m @ map (\<lambda>obs. (obs, n)) observers\<rparr>"

definition notify_sms_subscriber :: "sms_state \<Rightarrow> nat \<Rightarrow> 'o mediator \<Rightarrow> 'o mediator" where
  "notify_sms_subscriber st sms m = tell_all (md_sms_observer m) (Told_Sms st sms) m"

definition notify_call_subscriber :: "nat \<Rightarrow> 'o mediator \<Rightarrow> 'o mediator" where
  "notify_call_subscriber call m = tell_all (md_call_observer m) (Told_Call call) m"

definition notify_connection_subscriber :: "bool \<Rightarrow> 'o mediator \<Rightarrow> 'o mediator" where
  "notify_connection_subscriber is_connected m =
     tell_all (md_connection_observer m) (Told_Connection is_connected) m"

definition notify_ussd_subscriber :: "string \<Rightarrow> 'o mediator \<Rightarrow> 'o mediator" where
  "notify_ussd_subscriber text m = tell_all (md_ussd_observer m) (Told_Ussd text) m"

definition add_sms_observer :: "'o \<Rightarrow> 'o mediator \<Rightarrow> 'o mediator" where
  "add_sms_observer obs m = m\<lparr>md_sms_observer := md_sms_observer m @ [obs]\<rparr>"

definition add_call_observer :: "'o \<Rightarrow> 'o mediator \<Rightarrow> 'o mediator" where
  "add_call_observer obs m = m\<lparr>md_call_observer := md_call_observer m @ [obs]\<rparr>"

definition add_connection_observer :: "'o \<Rightarrow> 'o mediator \<Rightarrow> 'o mediator" where
  "add_connection_observer obs m = m\<lparr>md_connection_observer := md_connection_observer m @ [obs]\<rparr>"

definition add_ussd_observer :: "'o \<Rightarrow> 'o mediator \<Rightarrow> 'o mediator" where
  "add_ussd_observer obs m = m\<lparr>md_ussd_observer := md_ussd_observer m @ [obs]\<rparr>"

text \<open>The methods that remove an observer append it.\<close>

definition remove_sms_observer :: "'o \<Rightarrow> 'o mediator \<Rightarrow> 'o mediator" where
  "remove_sms_observer obs m = m\<lparr>md_sms_observer := md_sms_observer m @ [obs]\<rparr>"

definition remove_call_observer :: "'o \<Rightarrow> 'o mediator \<Rightarrow> 'o mediator" where
  "remove_call_observer obs m = m\<lparr>md_call_observer := md_call_observer m @ [obs]\<rparr>"

definition remove_connection_observer :: "'o \<Rightarrow> 'o mediator \<Rightarrow> 'o mediator" where
  "remove_connection_observer obs m = m\<lparr>md_connection_observer := md_connection_observer m @ [obs]\<rparr>"

definition remove_ussd_observer :: "'o \<Rightarrow> 'o mediator \<Rightarrow> 'o mediator" where
  "remove_ussd_observer obs m = m\<lparr>md_ussd_observer := md_ussd_observer m @ [obs]\<rparr>"

section \<open>What the managers report\<close>

definition is_modem_enabled :: "'o mediator \<Rightarrow> bool" where
  "is_modem_enabled m \<longleftrightarrow> md_mm_modem_state m \<ge> Modem_ENABLED"

definition is_modem_registered :: "'o mediator \<Rightarrow> bool" where
  "is_modem_registered m \<longleftrightarrow> md_mm_modem_state m \<ge> Modem_REGISTERED"

definition is_modem_connected :: "'o mediator \<Rightarrow> bool" where
  "is_modem_connected m \<longleftrightarrow> md_mm_modem_state m \<ge> Modem_CONNECTED"

definition is_modem_device_connected :: "'o mediator \<Rightarrow> bool" where
  "is_modem_device_connected m \<longleftrightarrow> md_nm_modem_state m = Device_ACTIVATED"

definition modem_state_changed :: "'o mediator \<Rightarrow> 'o mediator" where
  "modem_state_changed m =
     m\<lparr>md_modem_enabled := set_to (is_modem_enabled m) (md_now m),
       md_modem_registered := set_to (is_modem_registered m) (md_now m)\<rparr>"

definition connection_state_changed :: "'o mediator \<Rightarrow> 'o mediator" where
  "connection_state_changed m =
     (let old_state = is_set (md_modem_connected m);
          new_state = is_modem_connected m \<and> is_modem_device_connected m;
          m = m\<lparr>md_modem_connected := set_to new_state (md_now m)\<rparr>
      in if new_state \<noteq> old_state then notify_connection_subscriber new_state m else m)"

text \<open>
  The callbacks. Those for state changes first log the manager's description of the modem;
  when that raises (\<open>described\<close> is false) nothing else happens.
\<close>

definition mm_modem_state_changed :: "bool \<Rightarrow> modem_state \<Rightarrow> 'o mediator \<Rightarrow> 'o mediator" where
  "mm_modem_state_changed described new_state m =
     (if described
      then connection_state_changed (modem_state_changed (m\<lparr>md_mm_modem_state := new_state\<rparr>))
      else m)"

definition nm_modem_state_changed :: "bool \<Rightarrow> device_state \<Rightarrow> 'o mediator \<Rightarrow> 'o mediator" where
  "nm_modem_state_changed described new_state m =
     (if described
      then connection_state_changed (m\<lparr>md_nm_modem_state := new_state,
        md_nm_disconnected := (new_state = Device_DISCONNECTED)\<rparr>)
      else m)"

definition mm_modem_added :: "'o mediator \<Rightarrow> 'o mediator" where
  "mm_modem_added m = m\<lparr>md_modem_added := True\<rparr>"

definition mm_modem_removed :: "'o mediator \<Rightarrow> 'o mediator" where
  "mm_modem_removed m = m\<lparr>md_modem_added := False\<rparr>"

definition mm_modem_sms_state_changed :: "sms_state \<Rightarrow> nat \<Rightarrow> 'o mediator \<Rightarrow> 'o mediator" where
  "mm_modem_sms_state_changed st sms m =
     (if st = Sms_RECEIVED \<or> st = Sms_SENT then notify_sms_subscriber st sms m else m)"

definition mm_modem_call_added :: "nat \<Rightarrow> 'o mediator \<Rightarrow> 'o mediator" where
  "mm_modem_call_added call m = notify_call_subscriber call m"

definition mm_modem_call_state_changed :: "nat \<Rightarrow> 'o mediator \<Rightarrow> 'o mediator" where
  "mm_modem_call_state_changed call m = notify_call_subscriber call m"

definition mm_modem_ussd_notification_changed :: "string option \<Rightarrow> 'o mediator \<Rightarrow> 'o mediator" where
  "mm_modem_ussd_notification_changed message m =
     (case message of None \<Rightarrow> m | Some text \<Rightarrow> if text = [] then m else notify_ussd_subscriber text m)"

text \<open>A callback comes at some time.\<close>

definition tick :: "time \<Rightarrow> 'o mediator \<Rightarrow> 'o mediator" where
  "tick t m = m\<lparr>md_now := max (md_now m) t\<rparr>"

inductive md_step :: "'o mediator \<Rightarrow> 'o mediator \<Rightarrow> bool" where
  tick_step: "md_step m (tick t m)"
| mm_state: "md_step m (mm_modem_state_changed described st m)"
| nm_state: "md_step m (nm_modem_state_changed described dst m)"
| added: "md_step m (mm_modem_added m)"
| removed: "md_step m (mm_modem_removed m)"
| sms: "md_step m (mm_modem_sms_state_changed st' n m)"
| call_added: "md_step m (mm_modem_call_added n m)"
| call_changed: "md_step m (mm_modem_call_state_changed n m)"
| ussd: "md_step m (mm_modem_ussd_notification_changed msg m)"

inductive_cases md_stepE: "md_step m m'"

inductive md_reach :: "'o list \<Rightarrow> 'o mediator \<Rightarrow> bool" for observers where
  init: "md_reach observers ((mediator_init now)\<lparr>md_connection_observer := observers\<rparr>)"
| step: "md_reach observers m \<Longrightarrow> md_step m m' \<Longrightarrow> md_reach observers m'"


section \<open>The events follow the reports\<close>

definition events_exact :: "'o mediator \<Rightarrow> bool" where
  "events_exact m \<longleftrightarrow>
     (is_set (md_modem_enabled m) \<longleftrightarrow> is_modem_enabled m) \<and>
     (is_set (md_modem_registered m) \<longleftrightarrow> is_modem_registered m) \<and>
     (is_set (md_modem_connected m) \<longleftrightarrow> is_modem_connected m \<and> is_modem_device_connected m) \<and>
     (md_nm_disconnected m \<longleftrightarrow> md_nm_modem_state m = Device_DISCONNECTED)"

lemmas mediator_state =
  is_modem_enabled_def is_modem_registered_def is_modem_connected_def is_modem_device_connected_def

lemmas mediator_callbacks =
  mm_modem_state_changed_def nm_modem_state_changed_def mm_modem_added_def mm_modem_removed_def
  mm_modem_sms_state_changed_def mm_modem_call_added_def mm_modem_call_state_changed_def
  mm_modem_ussd_notification_changed_def tick_def modem_state_changed_def
  notify_sms_subscriber_def notify_call_subscriber_def notify_ussd_subscriber_def tell_all_def

lemma connection_state_changed_simps [simp]:
  "md_mm_modem_state (connection_state_changed m) = md_mm_modem_state m"
  "md_nm_modem_state (connection_state_changed m) = md_nm_modem_state m"
  "md_modem_enabled (connection_state_changed m) = md_modem_enabled m"
  "md_modem_registered (connection_state_changed m) = md_modem_registered m"
  "md_nm_disconnected (connection_state_changed m) = md_nm_disconnected m"
  "md_connection_observer (connection_state_changed m) = md_connection_observer m"
  "is_set (md_modem_connected (connection_state_changed m)) \<longleftrightarrow>
     is_modem_connected m \<and> is_modem_device_connected m"
  by (simp_all add: connection_state_changed_def notify_connection_subscriber_def tell_all_def Let_def)

lemma events_exact_step: "md_step m m' \<Longrightarrow> events_exact m \<Longrightarrow> events_exact m'"
  by (erule md_stepE)
    (auto simp: events_exact_def mediator_callbacks mediator_state split: option.splits)

lemma initially_unknown: "\<not> Modem_ENABLED \<le> Modem_UNKNOWN" "\<not> Modem_REGISTERED \<le> Modem_UNKNOWN"
    "\<not> Modem_CONNECTED \<le> Modem_UNKNOWN"
  by (simp_all add: less_eq_modem_state_def)

lemma md_reach_exact: "md_reach observers m \<Longrightarrow> events_exact m"
proof (induction rule: md_reach.induct)
  case (init now)
  show ?case
    by (simp add: events_exact_def mediator_init_def mediator_state is_set_def initially_unknown)
next
  case (step m m')
  from step(2,3) show ?case by (rule events_exact_step)
qed


text \<open>
  What an observer was told of the connection; told \<open>k\<close> times each if it is listed \<open>k\<close> times.
\<close>

definition connection_notices :: "'o \<Rightarrow> 'o mediator \<Rightarrow> bool list" where
  "connection_notices obs m =
     concat (map (\<lambda>(o', n). case n of Told_Connection b \<Rightarrow> if o' = obs then [b] else [] | _ \<Rightarrow> []) (md_told m))"

fun alternates :: "bool \<Rightarrow> bool list \<Rightarrow> bool" where
  "alternates previous [] \<longleftrightarrow> True"
| "alternates previous (b # bs) \<longleftrightarrow> b \<noteq> previous \<and> alternates b bs"

lemma alternates_snoc:
  "alternates p (bs @ [b]) \<longleftrightarrow> alternates p bs \<and> b \<noteq> last (p # bs)"
  by (induction p bs rule: alternates.induct) auto

lemma notices_of_tell:
  "concat (map (\<lambda>(o', n). case n of Told_Connection b \<Rightarrow> if o' = obs then [b] else [] | _ \<Rightarrow> [])
     (map (\<lambda>o'. (o', Told_Connection b)) observers)) = replicate (count_list observers obs) b"
  by (induction observers) simp_all

lemma no_notices_of_tell:
  "(\<And>b. n \<noteq> Told_Connection b) \<Longrightarrow>
    concat (map (\<lambda>(o', n). case n of Told_Connection b \<Rightarrow> if o' = obs then [b] else [] | _ \<Rightarrow> [])
     (map (\<lambda>o'. (o', n)) observers)) = []"
  by (induction observers) (auto split: notice.splits)

definition notices_ok :: "'o list \<Rightarrow> 'o mediator \<Rightarrow> bool" where
  "notices_ok observers m \<longleftrightarrow> md_connection_observer m = observers \<and>
     (\<exists>bs. alternates False bs \<and> last (False # bs) = is_set (md_modem_connected m) \<and>
       (\<forall>obs. connection_notices obs m = concat (map (replicate (count_list observers obs)) bs)))"

lemma notices_ok_frame:
  "notices_ok observers m \<Longrightarrow> md_connection_observer m' = md_connection_observer m \<Longrightarrow>
     md_modem_connected m' = md_modem_connected m \<Longrightarrow>
     (\<And>obs. connection_notices obs m' = connection_notices obs m) \<Longrightarrow> notices_ok observers m'"
  by (simp add: notices_ok_def)

lemma notices_ok_connection:
  assumes "notices_ok observers m"
  shows "notices_ok observers (connection_state_changed m)"
proof -
  from assms obtain bs where bs: "alternates False bs" "last (False # bs) = is_set (md_modem_connected m)"
    "\<And>obs. connection_notices obs m = concat (map (replicate (count_list observers obs)) bs)"
    and obs: "md_connection_observer m = observers" by (auto simp: notices_ok_def)
  let ?new = "is_modem_connected m \<and> is_modem_device_connected m"
  show ?thesis
  proof (cases "?new \<longleftrightarrow> is_set (md_modem_connected m)")
    case True
    then have "connection_notices obs (connection_state_changed m) = connection_notices obs m" for obs
      by (simp add: connection_state_changed_def connection_notices_def Let_def)
    with bs obs True show ?thesis unfolding notices_ok_def by (intro conjI exI [of _ bs]) auto
  next
    case False
    then have "connection_notices x (connection_state_changed m) =
        connection_notices x m @ replicate (count_list observers x) ?new" for x
      using notices_of_tell [of x ?new observers]
      by (simp add: connection_state_changed_def connection_notices_def Let_def obs
          notify_connection_subscriber_def tell_all_def)
    with bs obs False show ?thesis unfolding notices_ok_def
      by (intro conjI exI [of _ "bs @ [?new]"]) (auto simp: alternates_snoc)
  qed
qed

lemma notices_ok_step:
  assumes "md_step m m'" "notices_ok observers m"
  shows "notices_ok observers m'"
  using assms(1)
proof (rule md_stepE)
  fix described st assume m': "m' = mm_modem_state_changed described st m"
  show ?thesis
  proof (cases described)
    case True
    have "notices_ok observers (modem_state_changed (m\<lparr>md_mm_modem_state := st\<rparr>))"
      by (rule notices_ok_frame [OF assms(2)])
        (simp_all add: modem_state_changed_def connection_notices_def)
    with True show ?thesis by (simp add: m' mm_modem_state_changed_def notices_ok_connection)
  qed (use assms(2) m' in \<open>simp add: mm_modem_state_changed_def\<close>)
next
  fix described st assume m': "m' = nm_modem_state_changed described st m"
  show ?thesis
  proof (cases described)
    case True
    have "notices_ok observers (m\<lparr>md_nm_modem_state := st, md_nm_disconnected := (st = Device_DISCONNECTED)\<rparr>)"
      by (rule notices_ok_frame [OF assms(2)]) (simp_all add: connection_notices_def)
    with True show ?thesis by (simp add: m' nm_modem_state_changed_def notices_ok_connection)
  qed (use assms(2) m' in \<open>simp add: nm_modem_state_changed_def\<close>)
qed (rule notices_ok_frame [OF assms(2)];
     auto simp: mediator_callbacks connection_notices_def no_notices_of_tell [simplified] split: option.splits)+


text \<open>
  A modem that vanishes stays registered: when ModemManager removes the modem, the events
  keep saying what it was last, so a test that waits for a registered modem goes on without one.
\<close>
theorem removed_modem_stays:
  assumes "md_reach observers m" "is_modem_registered m"
  shows "md_reach observers (mm_modem_removed m) \<and> \<not> md_modem_added (mm_modem_removed m) \<and>
    is_set (md_modem_registered (mm_modem_removed m)) \<and>
    is_set (md_modem_connected (mm_modem_removed m)) = is_set (md_modem_connected m)"
proof -
  have "md_reach observers (mm_modem_removed m)" using assms(1) by (rule md_reach.step) (rule removed)
  with assms(2) show ?thesis
    using md_reach_exact [of observers "mm_modem_removed m"]
    by (simp add: events_exact_def mm_modem_removed_def is_modem_registered_def)
qed


section \<open>The network bridge\<close>

definition enable_veth_bridge :: "'o mediator \<Rightarrow> 'o mediator" where
  "enable_veth_bridge m =
     (let m = (if md_veth_bridge_usecnt m \<le> 0 then m\<lparr>md_bridge_up := True\<rparr> else m) in
      m\<lparr>md_veth_bridge_usecnt := md_veth_bridge_usecnt m + 1\<rparr>)"

definition disable_veth_bridge :: "'o mediator \<Rightarrow> 'o mediator" where
  "disable_veth_bridge m =
     (let m = m\<lparr>md_veth_bridge_usecnt := md_veth_bridge_usecnt m - 1\<rparr> in
      if md_veth_bridge_usecnt m \<le> 0
      then (m\<lparr>md_bridge_up := False\<rparr>)\<lparr>md_veth_bridge_usecnt := 0\<rparr> else m)"

definition enable_veth_gateway :: "'o mediator \<Rightarrow> 'o mediator" where
  "enable_veth_gateway m =
     (let m = enable_veth_bridge m;
          m = (if md_veth_gw_usecnt m \<le> 0 then m\<lparr>md_gateway_up := True\<rparr> else m) in
      m\<lparr>md_veth_gw_usecnt := md_veth_gw_usecnt m + 1\<rparr>)"

definition disable_veth_gateway :: "'o mediator \<Rightarrow> 'o mediator" where
  "disable_veth_gateway m =
     (let m = disable_veth_bridge m;
          m = m\<lparr>md_veth_gw_usecnt := md_veth_gw_usecnt m - 1\<rparr> in
      if md_veth_gw_usecnt m \<le> 0
      then (m\<lparr>md_gateway_up := False\<rparr>)\<lparr>md_veth_gw_usecnt := 0\<rparr> else m)"

text \<open>
  Users that disable what they enabled: \<open>b\<close> threads use the bridge and \<open>g\<close> the gateway.
\<close>

inductive veth_use :: "nat \<Rightarrow> nat \<Rightarrow> 'o mediator \<Rightarrow> bool" where
  unused: "md_veth_bridge_usecnt m = 0 \<Longrightarrow> md_veth_gw_usecnt m = 0 \<Longrightarrow> \<not> md_bridge_up m \<Longrightarrow>
     \<not> md_gateway_up m \<Longrightarrow> veth_use 0 0 m"
| use_bridge: "veth_use b g m \<Longrightarrow> veth_use (Suc b) g (enable_veth_bridge m)"
| leave_bridge: "veth_use (Suc b) g m \<Longrightarrow> veth_use b g (disable_veth_bridge m)"
| use_gateway: "veth_use b g m \<Longrightarrow> veth_use b (Suc g) (enable_veth_gateway m)"
| leave_gateway: "veth_use b (Suc g) m \<Longrightarrow> veth_use b g (disable_veth_gateway m)"

lemmas veth_defs = enable_veth_bridge_def disable_veth_bridge_def enable_veth_gateway_def
  disable_veth_gateway_def Let_def

text \<open>
  C24: The bridge and the gateway are up as long as they are used: if every user disables what it
  enabled, in any interleaving, the bridge is up exactly while someone uses it or the gateway,
  the default route is set exactly while someone uses the gateway, and the counters count them.
\<close>
theorem veth_up_while_used:
  assumes "veth_use b g m"
  shows "md_veth_bridge_usecnt m = int (b + g) \<and> md_veth_gw_usecnt m = int g \<and>
    (md_bridge_up m \<longleftrightarrow> 0 < b + g) \<and> (md_gateway_up m \<longleftrightarrow> 0 < g)"
  using assms by (induction rule: veth_use.induct) (auto simp: veth_defs)

section \<open>Plugins\<close>

text \<open>
  What a plugin subscribes to; \<open>wait_registered\<close> is the wait for a registered modem, which
  may raise or not return.
\<close>

record 'o plugin =
  pl_name :: 'o
  pl_use_sms :: bool
  pl_use_call :: bool
  pl_use_ussd :: bool
  pl_use_connection :: bool
  pl_use_internet_gw :: bool

datatype mediator_error = Md_TimeoutError | Md_RuntimeError | Md_ValueError

definition use_modem :: "'o plugin \<Rightarrow> bool" where
  "use_modem pl \<longleftrightarrow> pl_use_sms pl \<or> pl_use_call pl \<or> pl_use_ussd pl \<or> pl_use_connection pl"

definition subscribe :: "'o plugin \<Rightarrow> 'o mediator \<Rightarrow> 'o mediator" where
  "subscribe pl m =
     (let m = (if pl_use_sms pl then add_sms_observer (pl_name pl) m else m);
          m = (if pl_use_call pl then add_call_observer (pl_name pl) m else m);
          m = (if pl_use_ussd pl then add_ussd_observer (pl_name pl) m else m);
          m = (if pl_use_connection pl then add_connection_observer (pl_name pl) m else m)
      in if pl_use_internet_gw pl then enable_veth_gateway m else m)"

definition setup_callbacks ::
  "('o mediator \<Rightarrow> ((mediator_error + unit) \<times> 'o mediator) option) \<Rightarrow> 'o plugin \<Rightarrow> 'o mediator \<Rightarrow>
     ((mediator_error + unit) \<times> 'o mediator) option"
where
  "setup_callbacks wait_registered pl m =
     (if use_modem pl then wait_registered (subscribe pl m) else Some (Inr (), subscribe pl m))"

definition remove_callbacks :: "'o plugin \<Rightarrow> 'o mediator \<Rightarrow> 'o mediator" where
  "remove_callbacks pl m =
     (let m = (if pl_use_internet_gw pl then disable_veth_gateway m else m);
          m = (if pl_use_connection pl then remove_connection_observer (pl_name pl) m else m);
          m = (if pl_use_ussd pl then remove_ussd_observer (pl_name pl) m else m);
          m = (if pl_use_call pl then remove_call_observer (pl_name pl) m else m)
      in if pl_use_sms pl then remove_sms_observer (pl_name pl) m else m)"

text \<open>The waits of the mediator, over a schedule of what happens to the event.\<close>

definition wait_modem_registered ::
  "time \<Rightarrow> time option \<Rightarrow> ev_op list \<Rightarrow> 'o mediator \<Rightarrow> ((mediator_error + unit) \<times> enhanced_event) option"
where
  "wait_modem_registered timeout preserve_state_timeout schedule m =
     (case wait_debounced False (Some timeout) preserve_state_timeout True
             \<lparr>ev_now = md_now m, ev_timestamp = md_modem_registered m, ev_future = schedule\<rparr> of
        None \<Rightarrow> None
      | Some (Inr True, e) \<Rightarrow> Some (Inr (), e)
      | Some (_, e) \<Rightarrow> Some (Inl Md_TimeoutError, e))"

definition wait_modem_enabled ::
  "time \<Rightarrow> time option \<Rightarrow> ev_op list \<Rightarrow> 'o mediator \<Rightarrow> ((mediator_error + unit) \<times> enhanced_event) option"
where
  "wait_modem_enabled timeout preserve_state_timeout schedule m =
     (case wait_debounced False (Some timeout) preserve_state_timeout True
             \<lparr>ev_now = md_now m, ev_timestamp = md_modem_enabled m, ev_future = schedule\<rparr> of
        None \<Rightarrow> None
      | Some (Inr True, e) \<Rightarrow> Some (Inr (), e)
      | Some (_, e) \<Rightarrow> Some (Inl Md_TimeoutError, e))"

definition wait_modem_connected ::
  "time \<Rightarrow> time \<Rightarrow> ev_op list \<Rightarrow> 'o mediator \<Rightarrow> (bool \<times> enhanced_event) option"
where
  "wait_modem_connected timeout preserve_state_timeout schedule m =
     (case wait_debounced False (Some timeout) (Some preserve_state_timeout) False
             \<lparr>ev_now = md_now m, ev_timestamp = md_modem_connected m, ev_future = schedule\<rparr> of
        None \<Rightarrow> None
      | Some (r, e) \<Rightarrow> Some (r = Inr True, e))"

lemma count_append_twice: "count_list (xs @ [x, x]) x = count_list xs x + 2"
  by (induction xs) simp_all

text \<open>
  A plugin that has removed its callbacks is called twice as often, not less: after it set
  them up and removed them it is listed twice more for the connection's changes, and each change
  calls it that often.
\<close>
theorem removed_plugin_called_twice:
  assumes "pl_use_connection pl" "wait_registered = (\<lambda>m. Some (Inr (), m))"
    "setup_callbacks wait_registered pl m = Some (r, m1)"
  shows "connection_notices (pl_name pl) (notify_connection_subscriber b (remove_callbacks pl m1)) =
    connection_notices (pl_name pl) m @
      replicate (count_list (md_connection_observer m) (pl_name pl) + 2) b"
proof -
  have frame: "md_connection_observer (enable_veth_gateway m) = md_connection_observer m"
    "md_connection_observer (disable_veth_gateway m) = md_connection_observer m"
    "md_told (enable_veth_gateway m) = md_told m" "md_told (disable_veth_gateway m) = md_told m"
    for m :: "'a mediator"
    by (simp_all add: veth_defs)
  let ?obs = "md_connection_observer m @ [pl_name pl, pl_name pl]"
  have m1: "m1 = subscribe pl m" using assms by (simp add: setup_callbacks_def use_modem_def)
  have "md_connection_observer (remove_callbacks pl m1) = ?obs" "md_told (remove_callbacks pl m1) = md_told m"
    using assms(1) by (auto simp: m1 subscribe_def remove_callbacks_def Let_def frame
        add_sms_observer_def add_call_observer_def add_ussd_observer_def add_connection_observer_def
        remove_sms_observer_def remove_call_observer_def remove_ussd_observer_def remove_connection_observer_def)
  then show ?thesis
    using notices_of_tell [of "pl_name pl" b ?obs]
    by (simp add: notify_connection_subscriber_def tell_all_def connection_notices_def count_append_twice
        del: map_append concat_append replicate_Suc) (simp add: count_append_twice)
qed


section \<open>Connecting the modem\<close>

text \<open>
  What the \<open>i\<close>-th attempt finds: the wait for a registered modem ends in time, NetworkManager
  accepts the request, the modem becomes and stays connected.
\<close>

record attempt =
  at_registered :: bool
  at_device :: bool
  at_connected :: bool

datatype connect_action = Create_Connection | Activate_Connection | Cooldown time

text \<open>The rounds \<open>i\<close>, \<open>i + 1\<close>, ... of the loop, \<open>n\<close> of them.\<close>

fun connect_loop ::
  "(nat \<Rightarrow> attempt) \<Rightarrow> time \<Rightarrow> nat \<Rightarrow> nat \<Rightarrow> bool \<Rightarrow> (mediator_error + unit) \<times> connect_action list \<times> bool"
where
  "connect_loop attempts cooldown i 0 connection = (Inl Md_RuntimeError, [], connection)"
| "connect_loop attempts cooldown i (Suc n) connection =
     (if \<not> at_registered (attempts i) then (Inl Md_TimeoutError, [], connection)
      else let act = (if connection then Activate_Connection else Create_Connection) in
        if \<not> at_device (attempts i) then (Inl Md_ValueError, [act], True)
        else if at_connected (attempts i) then (Inr (), [act], True)
        else (case connect_loop attempts cooldown (Suc i) n True of
                (r, acts, con) \<Rightarrow> (r, act # Cooldown cooldown # acts, con)))"

definition connect_modem ::
  "(nat \<Rightarrow> attempt) \<Rightarrow> nat \<Rightarrow> time \<Rightarrow> 'o mediator \<Rightarrow> (mediator_error + unit) \<times> connect_action list \<times> 'o mediator"
where
  "connect_modem attempts retries cooldown m =
     (if is_set (md_modem_connected m) then (Inl Md_ValueError, [], m)
      else case connect_loop attempts cooldown 0 retries (md_connection m) of
          (r, acts, con) \<Rightarrow> (r, acts, m\<lparr>md_connection := con\<rparr>))"

definition requests :: "connect_action list \<Rightarrow> connect_action list" where
  "requests = filter (\<lambda>a. \<forall>t. a \<noteq> Cooldown t)"

lemma requests_simps [simp]:
  "requests [] = []" "requests (Cooldown t # acts) = requests acts"
  "requests (Create_Connection # acts) = Create_Connection # requests acts"
  "requests (Activate_Connection # acts) = Activate_Connection # requests acts"
  by (simp_all add: requests_def)

definition usable :: "attempt \<Rightarrow> bool" where
  "usable a \<longleftrightarrow> at_registered a \<and> at_device a"

lemma connect_loop_result:
  assumes "connect_loop attempts cooldown i n connection = (r, acts, con)"
  shows "(r = Inr () \<longleftrightarrow>
      (\<exists>k < n. (\<forall>j \<le> k. usable (attempts (i + j))) \<and> at_connected (attempts (i + k)))) \<and>
    length (requests acts) \<le> n \<and>
    (\<exists>rest. requests acts = [] \<or>
      requests acts = (if connection then Activate_Connection else Create_Connection) # rest \<and>
      set rest \<subseteq> {Activate_Connection})"
  using assms
proof (induction attempts cooldown i n connection arbitrary: r acts con rule: connect_loop.induct)
  case (2 attempts cooldown i n connection)
  let ?a = "attempts i" and ?act = "if connection then Activate_Connection else Create_Connection"
  show ?case
  proof (cases "usable ?a \<and> \<not> at_connected ?a")
    case False
    with "2.prems" have "(r = Inr () \<longleftrightarrow> usable ?a \<and> at_connected ?a) \<and> acts \<in> {[], [?act]}"
      by (auto simp: usable_def Let_def split: if_splits)
    moreover have "(\<exists>k < Suc n. (\<forall>j \<le> k. usable (attempts (i + j))) \<and> at_connected (attempts (i + k)))
        \<longleftrightarrow> usable ?a \<and> at_connected ?a"
      using False by (auto intro: exI [of _ 0])
    ultimately show ?thesis by auto
  next
    case True
    obtain r' acts' con' where loop: "connect_loop attempts cooldown (Suc i) n True = (r', acts', con')"
      using prod_cases3 by blast
    with True "2.prems" have r: "r = r'" "acts = ?act # Cooldown cooldown # acts'"
      by (auto simp: usable_def Let_def)
    have shift: "(\<exists>k < Suc n. (\<forall>j \<le> k. usable (attempts (i + j))) \<and> at_connected (attempts (i + k))) \<longleftrightarrow>
        (\<exists>k < n. (\<forall>j \<le> k. usable (attempts (Suc i + j))) \<and> at_connected (attempts (Suc i + k)))"
      (is "?L \<longleftrightarrow> ?R")
    proof
      assume ?L
      then obtain k where k: "k < Suc n" "\<forall>j \<le> k. usable (attempts (i + j))" "at_connected (attempts (i + k))"
        by blast
      with True obtain k' where "k = Suc k'" by (cases k) auto
      moreover have "usable (attempts (Suc i + j))" if "j \<le> k'" for j
        using k(2) [rule_format, of "Suc j"] that \<open>k = Suc k'\<close> by simp
      ultimately show ?R using k(1,3) by (intro exI [of _ k']) auto
    next
      assume ?R
      then obtain k where k: "k < n" "\<forall>j \<le> k. usable (attempts (Suc i + j))" "at_connected (attempts (Suc i + k))"
        by blast
      have "usable (attempts (i + j))" if "j \<le> Suc k" for j
        using that k(2) True by (cases j) auto
      with k(1,3) show ?L by (intro exI [of _ "Suc k"]) auto
    qed
    from "2.IH" [OF _ refl _ _ loop] True have ih:
      "r' = Inr () \<longleftrightarrow> (\<exists>k < n. (\<forall>j \<le> k. usable (attempts (Suc i + j))) \<and> at_connected (attempts (Suc i + k)))"
      "length (requests acts') \<le> n" "set (requests acts') \<subseteq> {Activate_Connection}"
      by (auto simp: usable_def)
    then show ?thesis unfolding r(1) shift by (auto simp: r(2))
  qed
qed auto


section \<open>A modem that connects\<close>

definition demo_mediator :: "string mediator" where
  "demo_mediator = (mediator_init 0)\<lparr>md_connection_observer := [''billing'']\<rparr>"

definition demo_connected :: "string mediator" where
  "demo_connected = nm_modem_state_changed True Device_ACTIVATED
     (mm_modem_state_changed True Modem_CONNECTED (mm_modem_added demo_mediator))"

lemma demo_connected_reach: "md_reach [''billing''] demo_connected"
proof -
  have "md_reach [''billing''] demo_mediator" unfolding demo_mediator_def by (rule md_reach.init)
  from md_reach.step [OF this added]
  have "md_reach [''billing''] (mm_modem_added demo_mediator)" .
  from md_reach.step [OF md_reach.step [OF this mm_state] nm_state]
  show ?thesis unfolding demo_connected_def .
qed

lemma demo_connected_states:
  "md_mm_modem_state demo_connected = Modem_CONNECTED" "md_nm_modem_state demo_connected = Device_ACTIVATED"
  by (simp_all add: demo_connected_def nm_modem_state_changed_def mm_modem_state_changed_def modem_state_changed_def)



lemma removed_modem_stays_witness: "is_set (md_modem_registered (mm_modem_removed demo_connected))"
proof -
  have "is_modem_registered demo_connected"
    by (simp add: is_modem_registered_def demo_connected_states less_eq_modem_state_def)
  from removed_modem_stays [OF demo_connected_reach this] show ?thesis by simp
qed

lemma veth_up_while_used_witness:
  "md_bridge_up (disable_veth_gateway (enable_veth_bridge (enable_veth_gateway demo_mediator)))"
proof -
  have "veth_use 0 0 demo_mediator"
    by (rule unused) (simp_all add: demo_mediator_def mediator_init_def)
  then have "veth_use 1 0 (disable_veth_gateway (enable_veth_bridge (enable_veth_gateway demo_mediator)))"
    by (auto intro: veth_use.intros)
  from veth_up_while_used [OF this] show ?thesis by simp
qed

definition demo_plugin :: "string plugin" where
  "demo_plugin = \<lparr>pl_name = ''payload'', pl_use_sms = False, pl_use_call = False, pl_use_ussd = False,
     pl_use_connection = True, pl_use_internet_gw = False\<rparr>"

lemma removed_plugin_called_twice_witness:
  "connection_notices ''payload''
     (notify_connection_subscriber True (remove_callbacks demo_plugin (subscribe demo_plugin demo_mediator)))
   = [True, True]"
  using removed_plugin_called_twice [of demo_plugin "\<lambda>m. Some (Inr (), m)" demo_mediator "Inr ()"
      "subscribe demo_plugin demo_mediator" True]
  by (simp add: setup_callbacks_def use_modem_def demo_plugin_def demo_mediator_def mediator_init_def
      connection_notices_def numeral_2_eq_2)

definition demo_attempts :: "nat \<Rightarrow> attempt" where
  "demo_attempts k = \<lparr>at_registered = True, at_device = True, at_connected = (k = 1)\<rparr>"


end
