(* ===== verification/Modem_Watcher.thy ===== *)
theory Modem_Watcher
  imports Mm_Enums Probe_Mediator "HOL-Library.AList"
begin

text \<open>
  The watcher of ModemManager (\<^verbatim>\<open>mediator/modem_watcher.py\<close>): the modems it manages, the
  signals it has connected to, and the calls of its callback object; the messages and calls it
  passes on (\<^verbatim>\<open>mm_definitions.py\<close>). ModemManager is a parameter: which interfaces an object
  has, what its methods return and which signals it emits.
\<close>

section \<open>Messages and calls\<close>

text \<open>What libmm-glib gives of a message; numbers stand for the members of its enumerations.\<close>

record sms_object =
  so_path :: string
  so_state :: int
  so_pdu_type :: int
  so_number :: string
  so_text :: string
  so_data :: "8 word list"
  so_smsc :: string
  so_validity_type :: int
  so_validity_relative :: int
  so_class :: int
  so_teleservice_id :: int
  so_service_category :: int
  so_delivery_report_request :: bool
  so_message_reference :: int
  so_timestamp :: string
  so_discharge_timestamp :: string
  so_delivery_state :: int
  so_storage :: int

record modem_sms =
  sm_path :: string
  sm_state :: sms_state
  sm_pdu_type :: string
  sm_number :: string
  sm_text :: string
  sm_data :: string
  sm_smsc :: string
  sm_validity_type :: string
  sm_validity_relative :: int
  sm_class :: int
  sm_teleservice_id :: string
  sm_service_category :: string
  sm_delivery_report_request :: bool
  sm_message_reference :: int
  sm_timestamp :: string
  sm_discharge_timestamp :: string
  sm_delivery_state :: string
  sm_storage :: string
  sm_received :: bool

definition hex_byte :: "8 word \<Rightarrow> string" where
  "hex_byte b = [''0123456789abcdef'' ! (unat b div 16), ''0123456789abcdef'' ! (unat b mod 16)]"

definition modem_sms_of :: "sms_object \<Rightarrow> bool \<Rightarrow> enum_error + modem_sms" where
  "modem_sms_of x received =
     bind_r (enum_of sms_state_value sms_states (so_state x)) (\<lambda>state.
     bind_r (enum_member mm_sms_pdu_type (so_pdu_type x)) (\<lambda>pdu_type.
     bind_r (enum_member mm_sms_validity_type (so_validity_type x)) (\<lambda>validity_type.
     bind_r (enum_member mm_sms_cdma_teleservice_id (so_teleservice_id x)) (\<lambda>teleservice_id.
     bind_r (enum_member mm_sms_cdma_service_category (so_service_category x)) (\<lambda>service_category.
     bind_r (enum_member mm_sms_delivery_state (so_delivery_state x)) (\<lambda>delivery_state.
     bind_r (enum_member mm_sms_storage (so_storage x)) (\<lambda>storage.
       Inr \<lparr>sm_path = so_path x, sm_state = state, sm_pdu_type = pdu_type, sm_number = so_number x,
         sm_text = so_text x, sm_data = concat (map hex_byte (so_data x)), sm_smsc = so_smsc x,
         sm_validity_type = validity_type, sm_validity_relative = so_validity_relative x,
         sm_class = so_class x, sm_teleservice_id = teleservice_id, sm_service_category = service_category,
         sm_delivery_report_request = so_delivery_report_request x,
         sm_message_reference = so_message_reference x, sm_timestamp = so_timestamp x,
         sm_discharge_timestamp = so_discharge_timestamp x, sm_delivery_state = delivery_state,
         sm_storage = storage, sm_received = received\<rparr>)))))))"

text \<open>Two of the getters do not return the field they are named after.\<close>

definition get_validity_type :: "modem_sms \<Rightarrow> int" where
  "get_validity_type s = sm_validity_relative s"

definition get_delivery_report_request :: "modem_sms \<Rightarrow> bool option" where
  "get_delivery_report_request s = None"

record call_object =
  co_path :: string
  co_state :: int
  co_state_reason :: int
  co_direction :: int
  co_number :: string
  co_multiparty :: bool
  co_audio_port :: string
  co_audio_format :: "string \<times> int \<times> string"

record modem_call =
  cl_path :: string
  cl_state :: string
  cl_state_reason :: string
  cl_direction :: string
  cl_number :: string
  cl_multiparty :: bool
  cl_audio_port :: string
  cl_audio_format :: "string \<times> int \<times> string"

definition modem_call_of :: "call_object \<Rightarrow> enum_error + modem_call" where
  "modem_call_of x =
     bind_r (enum_member mm_call_state (co_state x)) (\<lambda>state.
     bind_r (enum_member mm_call_state_reason (co_state_reason x)) (\<lambda>reason.
     bind_r (enum_member mm_call_direction (co_direction x)) (\<lambda>direction.
       Inr \<lparr>cl_path = co_path x, cl_state = state, cl_state_reason = reason, cl_direction = direction,
         cl_number = co_number x, cl_multiparty = co_multiparty x, cl_audio_port = co_audio_port x,
         cl_audio_format = co_audio_format x\<rparr>)))"

section \<open>State\<close>

text \<open>The signals of a modem object, and what a handler can be connected to.\<close>

datatype modem_signal = Sig_State | Sig_Sms | Sig_Call | Sig_Ussd

datatype 'o link = Object_Added | Object_Removed | On 'o modem_signal | Sms_Changed string bool | Call_Changed string

text \<open>\<open>ModemInfo\<close>: the handler of each signal, 0 while there is none.\<close>

record modem_info =
  mi_state :: nat
  mi_sms :: nat
  mi_call :: nat
  mi_ussd :: nat

fun info_id :: "modem_signal \<Rightarrow> modem_info \<Rightarrow> nat" where
  "info_id Sig_State i = mi_state i"
| "info_id Sig_Sms i = mi_sms i"
| "info_id Sig_Call i = mi_call i"
| "info_id Sig_Ussd i = mi_ussd i"

fun set_info_id :: "modem_signal \<Rightarrow> nat \<Rightarrow> modem_info \<Rightarrow> modem_info" where
  "set_info_id Sig_State n i = i\<lparr>mi_state := n\<rparr>"
| "set_info_id Sig_Sms n i = i\<lparr>mi_sms := n\<rparr>"
| "set_info_id Sig_Call n i = i\<lparr>mi_call := n\<rparr>"
| "set_info_id Sig_Ussd n i = i\<lparr>mi_ussd := n\<rparr>"

definition modem_info_new :: modem_info where
  "modem_info_new = \<lparr>mi_state = 0, mi_sms = 0, mi_call = 0, mi_ussd = 0\<rparr>"

text \<open>The calls of the callback object.\<close>

datatype 'o mm_notice =
    Mm_Added 'o | Mm_Removed 'o | Mm_State 'o modem_state modem_state string
  | Mm_Sms modem_sms | Mm_Call_Added modem_call | Mm_Call_State modem_call string string
  | Mm_Ussd 'o string "string option"

text \<open>
  \<open>mw_live\<close> are the connected handlers, \<open>mw_objects\<close> the dictionary of modems, \<open>mw_told\<close> the
  calls of the callback object, if there is one (\<open>mw_callback\<close>).
\<close>

record 'o watcher =
  mw_callback :: bool
  mw_initializing :: bool
  mw_available :: bool
  mw_added_id :: nat
  mw_removed_id :: nat
  mw_objects :: "('o \<times> modem_info) list"
  mw_live :: "(nat \<times> 'o link) list"
  mw_next :: nat
  mw_told :: "'o mm_notice list"

datatype watch_error = Watch_AttributeError | Watch_ValueError

type_synonym ('o, 'a) wact = "(watch_error, 'o watcher, 'a) eff"

definition call_back :: "'o mm_notice \<Rightarrow> ('o, unit) wact" where
  "call_back n w = (Inr (), if mw_callback w then w\<lparr>mw_told := mw_told w @ [n]\<rparr> else w)"

definition connect_handler :: "'o link \<Rightarrow> ('o, nat) wact" where
  "connect_handler k w =
     (Inr (mw_next w), w\<lparr>mw_live := mw_live w @ [(mw_next w, k)], mw_next := Suc (mw_next w)\<rparr>)"

definition disconnect_handler :: "nat \<Rightarrow> ('o, unit) wact" where
  "disconnect_handler i w = (Inr (), w\<lparr>mw_live := filter (\<lambda>(j, _). j \<noteq> i) (mw_live w)\<rparr>)"

definition get_w :: "('o watcher \<Rightarrow> 'a) \<Rightarrow> ('o, 'a) wact" where
  "get_w f w = (Inr (f w), w)"

definition put_w :: "('o watcher \<Rightarrow> 'o watcher) \<Rightarrow> ('o, unit) wact" where
  "put_w f w = (Inr (), f w)"

lemma bnd_get_w: "bnd (get_w f) g w = g (f w) w"
  by (simp add: bnd_def get_w_def)

section \<open>Operations\<close>

text \<open>\<open>has obj sig\<close>: the object has the interface that emits the signal.\<close>

definition connect_signal :: "('o \<Rightarrow> modem_signal \<Rightarrow> bool) \<Rightarrow> 'o \<Rightarrow> modem_signal \<Rightarrow> modem_info \<Rightarrow> ('o, modem_info) wact" where
  "connect_signal has obj sig info =
     (if has obj sig \<and> info_id sig info = 0
      then bnd (connect_handler (On obj sig)) (\<lambda>i. ret (set_info_id sig i info))
      else ret info)"

definition connect_modem_signals :: "('o \<Rightarrow> modem_signal \<Rightarrow> bool) \<Rightarrow> 'o \<Rightarrow> modem_info \<Rightarrow> ('o, modem_info) wact" where
  "connect_modem_signals has obj info =
     bnd (connect_signal has obj Sig_State info) (\<lambda>info.
     bnd (connect_signal has obj Sig_Sms info) (\<lambda>info.
     bnd (connect_signal has obj Sig_Call info)
         (connect_signal has obj Sig_Ussd)))"

definition add_modem_to_list :: "('o \<Rightarrow> modem_signal \<Rightarrow> bool) \<Rightarrow> 'o \<Rightarrow> ('o, unit) wact" where
  "add_modem_to_list has obj =
     bnd (connect_modem_signals has obj modem_info_new) (\<lambda>info.
     bnd (put_w (\<lambda>w. w\<lparr>mw_objects := AList.update obj info (mw_objects w)\<rparr>)) (\<lambda>_.
       call_back (Mm_Added obj)))"

text \<open>A failed modem is not ignored, whatever the message says.\<close>

definition on_object_added :: "('o \<Rightarrow> modem_signal \<Rightarrow> bool) \<Rightarrow> 'o \<Rightarrow> ('o, unit) wact" where
  "on_object_added has obj =
     (if has obj Sig_State then add_modem_to_list has obj else throw Watch_AttributeError)"

text \<open>
  Disconnecting fails silently when the interface or the handler is missing. The handler of
  USSD notifications is not disconnected.
\<close>

definition drop_handler :: "('o \<Rightarrow> modem_signal \<Rightarrow> bool) \<Rightarrow> 'o \<Rightarrow> modem_info \<Rightarrow> modem_signal \<Rightarrow> ('o, unit) wact" where
  "drop_handler has obj info sig =
     (if has obj sig \<and> info_id sig info \<noteq> 0 then disconnect_handler (info_id sig info) else ret ())"

fun remove_entries :: "('o \<Rightarrow> modem_signal \<Rightarrow> bool) \<Rightarrow> 'o option \<Rightarrow> ('o \<times> modem_info) list \<Rightarrow> ('o, unit) wact" where
  "remove_entries has target [] = ret ()"
| "remove_entries has target ((key, info) # entries) =
     (if target = Some key \<or> target = None then
        bnd (drop_handler has key info Sig_State) (\<lambda>_.
        bnd (drop_handler has key info Sig_Sms) (\<lambda>_.
        bnd (drop_handler has key info Sig_Call) (\<lambda>_.
        bnd (put_w (\<lambda>w. w\<lparr>mw_objects := AList.delete key (mw_objects w)\<rparr>)) (\<lambda>_.
        bnd (call_back (Mm_Removed key)) (\<lambda>_.
          remove_entries has target entries)))))
      else remove_entries has target entries)"

definition remove_modem_from_list :: "('o \<Rightarrow> modem_signal \<Rightarrow> bool) \<Rightarrow> 'o option \<Rightarrow> ('o, unit) wact" where
  "remove_modem_from_list has target = bnd (get_w mw_objects) (remove_entries has target)"

definition on_object_removed :: "('o \<Rightarrow> modem_signal \<Rightarrow> bool) \<Rightarrow> 'o \<Rightarrow> ('o, unit) wact" where
  "on_object_removed has obj = remove_modem_from_list has (Some obj)"

fun each :: "('a \<Rightarrow> ('o, unit) wact) \<Rightarrow> 'a list \<Rightarrow> ('o, unit) wact" where
  "each f [] = ret ()"
| "each f (x # xs) = bnd (f x) (\<lambda>_. each f xs)"

text \<open>\<open>managed\<close> are the objects ModemManager lists.\<close>

definition set_available :: "('o \<Rightarrow> modem_signal \<Rightarrow> bool) \<Rightarrow> 'o list \<Rightarrow> ('o, unit) wact" where
  "set_available has managed =
     bnd (connect_handler Object_Added) (\<lambda>i.
     bnd (put_w (\<lambda>w. w\<lparr>mw_added_id := i\<rparr>)) (\<lambda>_.
     bnd (connect_handler Object_Removed) (\<lambda>j.
     bnd (put_w (\<lambda>w. w\<lparr>mw_removed_id := j\<rparr>)) (\<lambda>_.
     bnd (put_w (\<lambda>w. w\<lparr>mw_available := True\<rparr>)) (\<lambda>_.
     bnd (get_w mw_initializing) (\<lambda>initializing.
       if initializing then each (on_object_added has) managed else ret ()))))))"

definition set_unavailable :: "('o \<Rightarrow> modem_signal \<Rightarrow> bool) \<Rightarrow> ('o, unit) wact" where
  "set_unavailable has =
     bnd (get_w mw_added_id) (\<lambda>i.
     bnd (if i \<noteq> 0 then bnd (disconnect_handler i) (\<lambda>_. put_w (\<lambda>w. w\<lparr>mw_added_id := 0\<rparr>)) else ret ()) (\<lambda>_.
     bnd (get_w mw_removed_id) (\<lambda>j.
     bnd (if j \<noteq> 0 then bnd (disconnect_handler j) (\<lambda>_. put_w (\<lambda>w. w\<lparr>mw_removed_id := 0\<rparr>)) else ret ()) (\<lambda>_.
     bnd (remove_modem_from_list has None) (\<lambda>_.
       put_w (\<lambda>w. w\<lparr>mw_available := False\<rparr>))))))"

definition on_name_owner :: "('o \<Rightarrow> modem_signal \<Rightarrow> bool) \<Rightarrow> 'o list \<Rightarrow> bool \<Rightarrow> ('o, unit) wact" where
  "on_name_owner has managed owned = (if owned then set_available has managed else set_unavailable has)"

definition watcher_init :: "('o \<Rightarrow> modem_signal \<Rightarrow> bool) \<Rightarrow> 'o list \<Rightarrow> bool \<Rightarrow> bool \<Rightarrow> (watch_error + unit) \<times> 'o watcher" where
  "watcher_init has managed owned callback =
     bnd (on_name_owner has managed owned) (\<lambda>_. put_w (\<lambda>w. w\<lparr>mw_initializing := False\<rparr>))
       \<lparr>mw_callback = callback, mw_initializing = True, mw_available = False, mw_added_id = 0, mw_removed_id = 0,
        mw_objects = [], mw_live = [], mw_next = 1, mw_told = []\<rparr>"

definition enum_val :: "enum_error + 'a \<Rightarrow> ('o, 'a) wact" where
  "enum_val r = (case r of Inl _ \<Rightarrow> throw Watch_ValueError | Inr x \<Rightarrow> ret x)"

text \<open>The handlers of the signals.\<close>

definition on_state_notify :: "('o \<Rightarrow> modem_signal \<Rightarrow> bool) \<Rightarrow> 'o \<Rightarrow> int \<Rightarrow> int \<Rightarrow> int \<Rightarrow> ('o, unit) wact" where
  "on_state_notify has obj old new reason =
     bnd (get_w (\<lambda>w. map_of (mw_objects w) obj)) (\<lambda>info.
     bnd (case info of
            None \<Rightarrow> ret ()
          | Some info \<Rightarrow>
              bnd (connect_modem_signals has obj info) (\<lambda>info.
                put_w (\<lambda>w. w\<lparr>mw_objects := AList.update obj info (mw_objects w)\<rparr>))) (\<lambda>_.
     bnd (get_w mw_callback) (\<lambda>callback.
       if callback then
         bnd (enum_val (enum_of modem_state_value modem_states old)) (\<lambda>old.
         bnd (enum_val (enum_of modem_state_value modem_states new)) (\<lambda>new.
         bnd (enum_val (enum_member mm_modem_state_change_reason reason)) (\<lambda>reason.
           call_back (Mm_State obj old new reason))))
       else ret ())))"

definition tell_sms :: "sms_object \<Rightarrow> bool \<Rightarrow> ('o, unit) wact" where
  "tell_sms sms received =
     bnd (get_w mw_callback) (\<lambda>callback.
       if callback then bnd (enum_val (modem_sms_of sms received)) (\<lambda>s. call_back (Mm_Sms s)) else ret ())"

definition on_sms_state_changed :: "sms_object \<Rightarrow> bool \<Rightarrow> ('o, unit) wact" where
  "on_sms_state_changed sms received = tell_sms sms received"

definition find_obj_via_path :: "('a \<Rightarrow> string) \<Rightarrow> string \<Rightarrow> 'a list \<Rightarrow> ('o, 'a) wact" where
  "find_obj_via_path path_of path xs =
     (case List.find (\<lambda>x. path_of x = path) xs of None \<Rightarrow> throw Watch_ValueError | Some x \<Rightarrow> ret x)"

definition on_sms_added :: "sms_object list \<Rightarrow> string \<Rightarrow> bool \<Rightarrow> ('o, unit) wact" where
  "on_sms_added messages sms_path received =
     bnd (find_obj_via_path so_path sms_path messages) (\<lambda>sms.
     bnd (connect_handler (Sms_Changed sms_path received)) (\<lambda>_.
       tell_sms sms received))"

definition on_call_added :: "call_object list \<Rightarrow> string \<Rightarrow> ('o, unit) wact" where
  "on_call_added calls call_path =
     bnd (find_obj_via_path co_path call_path calls) (\<lambda>call_obj.
     bnd (connect_handler (Call_Changed call_path)) (\<lambda>_.
     bnd (enum_val (modem_call_of call_obj)) (\<lambda>call.
       call_back (Mm_Call_Added call))))"

definition on_call_state_changed :: "call_object \<Rightarrow> int \<Rightarrow> int \<Rightarrow> int \<Rightarrow> ('o, unit) wact" where
  "on_call_state_changed call_obj old new reason =
     bnd (enum_val (modem_call_of call_obj)) (\<lambda>call.
     bnd (enum_val (enum_member mm_call_state new)) (\<lambda>new_state.
     bnd (enum_val (enum_member mm_call_state_reason reason)) (\<lambda>state_reason.
     bnd (get_w mw_callback) (\<lambda>callback.
       if callback then
         bnd (enum_val (enum_member mm_call_state old)) (\<lambda>old_state.
           call_back (Mm_Call_State (call\<lparr>cl_state := new_state, cl_state_reason := state_reason\<rparr>) old_state new_state))
       else ret ()))))"

definition on_ussd_notification_changed :: "'o \<Rightarrow> int \<Rightarrow> string option \<Rightarrow> ('o, unit) wact" where
  "on_ussd_notification_changed obj state notification =
     bnd (enum_val (enum_member mm_modem_3gpp_ussd_session_state state)) (\<lambda>state.
       call_back (Mm_Ussd obj state notification))"

section \<open>The modem of a command\<close>

definition get_modem_from_list :: "('o \<Rightarrow> string) \<Rightarrow> string option \<Rightarrow> ('o, 'o option) wact" where
  "get_modem_from_list path_of path =
     bnd (get_w mw_objects) (\<lambda>objects.
       if objects = [] then throw Watch_ValueError
       else if path = None \<or> path = Some [] then ret (Some (fst (last objects)))
       else ret (List.find (\<lambda>obj. Some (path_of obj) = path) (map fst objects)))"

text \<open>\<open>state_of\<close> is what ModemManager says of the modem. An unknown path raises.\<close>

definition get_modem_state :: "('o \<Rightarrow> string) \<Rightarrow> ('o \<Rightarrow> int) \<Rightarrow> string option \<Rightarrow> ('o, modem_state) wact" where
  "get_modem_state path_of state_of path w =
     (case bnd (get_modem_from_list path_of path) (\<lambda>obj.
             case obj of
               None \<Rightarrow> throw Watch_AttributeError
             | Some obj \<Rightarrow> enum_val (enum_of modem_state_value modem_states (state_of obj))) w of
        (Inl Watch_ValueError, w') \<Rightarrow> (Inr Modem_UNKNOWN, w')
      | r \<Rightarrow> r)"

definition get_modem_registration_state :: "('o \<Rightarrow> string) \<Rightarrow> ('o \<Rightarrow> int) \<Rightarrow> string option \<Rightarrow> ('o, string) wact" where
  "get_modem_registration_state path_of state_of path w =
     (case bnd (get_modem_from_list path_of path) (\<lambda>obj.
             case obj of
               None \<Rightarrow> throw Watch_AttributeError
             | Some obj \<Rightarrow> enum_val (enum_member mm_modem_3gpp_registration_state (state_of obj))) w of
        (Inl Watch_ValueError, w') \<Rightarrow> (Inr ''UNKNOWN'', w')
      | r \<Rightarrow> r)"

section \<open>Signals\<close>

definition links :: "'o link \<Rightarrow> 'o watcher \<Rightarrow> nat list" where
  "links k w = map fst (filter (\<lambda>(_, l). l = k) (mw_live w))"

text \<open>
  An emission runs the handlers that are connected when it starts; GLib prints what they raise
  and goes on.
\<close>

definition emit :: "'o link \<Rightarrow> ('o, unit) wact \<Rightarrow> 'o watcher \<Rightarrow> 'o watcher" where
  "emit k handler w = ((\<lambda>w. snd (handler w)) ^^ length (links k w)) w"

definition all_there :: "('o \<Rightarrow> modem_signal \<Rightarrow> bool) \<Rightarrow> 'o watcher \<Rightarrow> bool" where
  "all_there has w \<longleftrightarrow> (\<forall>obj sig. links (On obj sig) w \<noteq> [] \<longrightarrow> has obj sig)"

text \<open>
  The watcher over time, with a ModemManager that vanishes before it comes back, adds an object
  only once and keeps an object's interfaces until it is gone.
\<close>

inductive mw_reach :: "'o watcher \<Rightarrow> bool" where
  start: "watcher_init has managed owned callback = (Inr (), w) \<Longrightarrow> distinct managed \<Longrightarrow> mw_reach w"
| owner_gone: "mw_reach w \<Longrightarrow> all_there has w \<Longrightarrow> mw_reach (snd (on_name_owner has managed False w))"
| owner_back: "mw_reach w \<Longrightarrow> \<not> mw_available w \<Longrightarrow> mw_reach (snd (on_name_owner has managed True w))"
| added: "mw_reach w \<Longrightarrow> obj \<notin> fst ` set (mw_objects w) \<Longrightarrow>
    mw_reach (emit Object_Added (on_object_added has obj) w)"
| removed: "mw_reach w \<Longrightarrow> all_there has w \<Longrightarrow> mw_reach (emit Object_Removed (on_object_removed has obj) w)"
| state: "mw_reach w \<Longrightarrow> mw_reach (emit (On obj Sig_State) (on_state_notify has obj old new reason) w)"
| sms: "mw_reach w \<Longrightarrow> mw_reach (emit (On obj Sig_Sms) (on_sms_added messages path received) w)"
| sms_changed: "mw_reach w \<Longrightarrow> mw_reach (emit (Sms_Changed path received) (on_sms_state_changed msg received) w)"
| call: "mw_reach w \<Longrightarrow> mw_reach (emit (On obj Sig_Call) (on_call_added calls path) w)"
| call_changed: "mw_reach w \<Longrightarrow> mw_reach (emit (Call_Changed path) (on_call_state_changed call_obj o_state n_state reason) w)"
| ussd: "mw_reach w \<Longrightarrow> mw_reach (emit (On obj Sig_Ussd) (on_ussd_notification_changed obj n text) w)"

section \<open>One handler per signal\<close>

text \<open>
  The invariant, for the entries \<open>m\<close>: handlers have distinct numbers, and but for USSD
  notifications exactly those that an entry or the watcher holds are connected.
\<close>

definition held :: "nat \<Rightarrow> nat list" where
  "held i = (if i = 0 then [] else [i])"

definition winv :: "('o \<Rightarrow> modem_info option) \<Rightarrow> 'o watcher \<Rightarrow> bool" where
  "winv m w \<longleftrightarrow>
     distinct (map fst (mw_live w)) \<and> (\<forall>(i, k) \<in> set (mw_live w). 0 < i \<and> i < mw_next w) \<and> 0 < mw_next w \<and>
     links Object_Added w = held (mw_added_id w) \<and> links Object_Removed w = held (mw_removed_id w) \<and>
     (\<forall>obj sig. sig \<noteq> Sig_Ussd \<longrightarrow>
       links (On obj sig) w = (case m obj of None \<Rightarrow> [] | Some info \<Rightarrow> held (info_id sig info)))"

lemma info_id_set [simp]: "info_id sig' (set_info_id sig n info) = (if sig' = sig then n else info_id sig' info)"
  by (cases sig; cases sig') simp_all

lemma info_id_new [simp]: "info_id sig modem_info_new = 0"
  by (cases sig) (simp_all add: modem_info_new_def)

lemma held_simps [simp]: "held 0 = []" "i \<noteq> 0 \<Longrightarrow> held i = [i]" "held i = [] \<longleftrightarrow> i = 0" "i \<in> set (held j) \<longleftrightarrow> i = j \<and> j \<noteq> 0"
  by (simp_all add: held_def)

text \<open>What the operations on handlers leave alone.\<close>

definition same_but_live :: "'o watcher \<Rightarrow> 'o watcher \<Rightarrow> bool" where
  "same_but_live w w' \<longleftrightarrow> mw_callback w' = mw_callback w \<and> mw_initializing w' = mw_initializing w \<and>
     mw_available w' = mw_available w \<and> mw_added_id w' = mw_added_id w \<and> mw_removed_id w' = mw_removed_id w \<and>
     mw_objects w' = mw_objects w \<and> mw_told w' = mw_told w"

lemma same_but_live_trans: "same_but_live w w' \<Longrightarrow> same_but_live w' w'' \<Longrightarrow> same_but_live w w''"
  by (simp add: same_but_live_def)

lemma same_but_live_refl [simp]: "same_but_live w w"
  by (simp add: same_but_live_def)

lemma links_connect:
  "links k (w\<lparr>mw_live := mw_live w @ [(i, k')], mw_next := n\<rparr>) = links k w @ (if k = k' then [i] else [])"
  by (auto simp: links_def)

lemma winv_connect:
  assumes "winv m w" "m obj = Some info" "info_id sig info = 0" "w' = snd (connect_handler (On obj sig) w)"
  shows "winv (m(obj \<mapsto> set_info_id sig (mw_next w) info)) w'"
proof -
  have w': "w' = w\<lparr>mw_live := mw_live w @ [(mw_next w, On obj sig)], mw_next := Suc (mw_next w)\<rparr>"
    using assms(4) by (simp add: connect_handler_def)
  have fresh: "mw_next w \<notin> fst ` set (mw_live w)" using assms(1) by (fastforce simp: winv_def)
  have pos: "mw_next w \<noteq> 0" using assms(1) by (simp add: winv_def)
  have le: "0 < i \<and> i < Suc (mw_next w)" if "(i, k) \<in> set (mw_live w)" for i k
    using assms(1) that by (fastforce simp: winv_def)
  have "links (On obj' sig') w' = (case (m(obj \<mapsto> set_info_id sig (mw_next w) info)) obj' of
      None \<Rightarrow> [] | Some info \<Rightarrow> held (info_id sig' info))" if "sig' \<noteq> Sig_Ussd" for obj' sig'
    using assms(1-3) that pos unfolding w' links_connect winv_def by auto
  then show ?thesis
    using assms(1) fresh le pos unfolding winv_def w' links_connect by auto
qed

lemma connect_signal_inv:
  assumes "winv m w" "m obj = Some info"
  shows "\<exists>info' w'. connect_signal has obj sig info w = (Inr info', w') \<and> winv (m(obj \<mapsto> info')) w' \<and>
    same_but_live w w' \<and> (has obj sig \<longrightarrow> info_id sig info' \<noteq> 0) \<and>
    (\<forall>sig'. info_id sig' info \<noteq> 0 \<longrightarrow> info_id sig' info' = info_id sig' info)"
proof (cases "has obj sig \<and> info_id sig info = 0")
  case True
  have pos: "mw_next w \<noteq> 0" using assms(1) by (simp add: winv_def)
  from winv_connect [OF assms _ refl, of sig] True pos show ?thesis
    by (auto simp: connect_signal_def connect_handler_def bnd_def same_but_live_def)
next
  case False
  with assms show ?thesis by (auto simp: connect_signal_def fun_upd_idem)
qed

lemma connect_modem_signals_inv:
  assumes "winv m w" "m obj = Some info"
  shows "\<exists>info' w'. connect_modem_signals has obj info w = (Inr info', w') \<and> winv (m(obj \<mapsto> info')) w' \<and>
    same_but_live w w' \<and> (has obj Sig_State \<longrightarrow> info_id Sig_State info' \<noteq> 0) \<and>
    (\<forall>sig. info_id sig info \<noteq> 0 \<longrightarrow> info_id sig info' = info_id sig info)"
proof -
  from connect_signal_inv [OF assms, of has Sig_State] obtain i1 w1 where
    1: "connect_signal has obj Sig_State info w = (Inr i1, w1)" "winv (m(obj \<mapsto> i1)) w1" "same_but_live w w1"
      "has obj Sig_State \<longrightarrow> info_id Sig_State i1 \<noteq> 0"
      "\<forall>sig. info_id sig info \<noteq> 0 \<longrightarrow> info_id sig i1 = info_id sig info" by blast
  from connect_signal_inv [OF 1(2), of obj i1 has Sig_Sms] obtain i2 w2 where
    2: "connect_signal has obj Sig_Sms i1 w1 = (Inr i2, w2)" "winv (m(obj \<mapsto> i2)) w2" "same_but_live w1 w2"
      "\<forall>sig. info_id sig i1 \<noteq> 0 \<longrightarrow> info_id sig i2 = info_id sig i1" by auto
  from connect_signal_inv [OF 2(2), of obj i2 has Sig_Call] obtain i3 w3 where
    3: "connect_signal has obj Sig_Call i2 w2 = (Inr i3, w3)" "winv (m(obj \<mapsto> i3)) w3" "same_but_live w2 w3"
      "\<forall>sig. info_id sig i2 \<noteq> 0 \<longrightarrow> info_id sig i3 = info_id sig i2" by auto
  from connect_signal_inv [OF 3(2), of obj i3 has Sig_Ussd] obtain i4 w4 where
    4: "connect_signal has obj Sig_Ussd i3 w3 = (Inr i4, w4)" "winv (m(obj \<mapsto> i4)) w4" "same_but_live w3 w4"
      "\<forall>sig. info_id sig i3 \<noteq> 0 \<longrightarrow> info_id sig i4 = info_id sig i3" by auto
  have "connect_modem_signals has obj info w = (Inr i4, w4)"
    by (simp add: connect_modem_signals_def bnd_def 1(1) 2(1) 3(1) 4(1))
  moreover have "same_but_live w w4" using 1(3) 2(3) 3(3) 4(3) by (blast intro: same_but_live_trans)
  moreover have "has obj Sig_State \<longrightarrow> info_id Sig_State i4 \<noteq> 0" using 1(4) 2(4) 3(4) 4(4) by metis
  moreover have "\<forall>sig. info_id sig info \<noteq> 0 \<longrightarrow> info_id sig i4 = info_id sig info" using 1(5) 2(4) 3(4) 4(4) by metis
  ultimately show ?thesis using 4(2) by blast
qed

lemma links_filter: "links k (w\<lparr>mw_live := filter (\<lambda>(j, _). j \<noteq> i) (mw_live w)\<rparr>) = filter (\<lambda>j. j \<noteq> i) (links k w)"
  by (simp add: links_def filter_map comp_def case_prod_beta filter_filter conj_commute)

lemma links_unique:
  "distinct (map fst (mw_live w)) \<Longrightarrow> i \<in> set (links k w) \<Longrightarrow> i \<in> set (links k' w) \<Longrightarrow> k = k'"
  by (auto simp: links_def distinct_map inj_on_def)

lemma links_without:
  assumes "distinct (map fst (mw_live w))" "links k w = [i]" "k' \<noteq> k"
  shows "filter (\<lambda>j. j \<noteq> i) (links k' w) = links k' w"
proof -
  have "i \<notin> set (links k' w)" using links_unique [OF assms(1), of i k k'] assms(2,3) by auto
  then show ?thesis by (auto simp: filter_id_conv)
qed

lemma winv_disconnect:
  assumes "winv m w" "m obj = Some info" "sig \<noteq> Sig_Ussd" "info_id sig info \<noteq> 0"
  shows "winv (m(obj \<mapsto> set_info_id sig 0 info)) (w\<lparr>mw_live := filter (\<lambda>(j, _). j \<noteq> info_id sig info) (mw_live w)\<rparr>)"
    (is "winv ?m ?w")
proof -
  have d: "distinct (map fst (mw_live w))" using assms(1) by (simp add: winv_def)
  have own: "links (On obj sig) w = [info_id sig info]" using assms by (simp add: winv_def)
  note other = links_without [OF d own]
  have "links (On obj' sig') ?w = (case ?m obj' of None \<Rightarrow> [] | Some info \<Rightarrow> held (info_id sig' info))"
    if "sig' \<noteq> Sig_Ussd" for obj' sig'
  proof (cases "obj' = obj \<and> sig' = sig")
    case True
    then show ?thesis unfolding links_filter by (simp add: own)
  next
    case False
    then have "links (On obj' sig') ?w = links (On obj' sig') w" unfolding links_filter by (simp add: other)
    also have "\<dots> = (case m obj' of None \<Rightarrow> [] | Some info \<Rightarrow> held (info_id sig' info))"
      using assms(1) that by (simp add: winv_def)
    finally show ?thesis using False assms(2) by auto
  qed
  moreover have "distinct (map fst (mw_live ?w))" using d by (simp add: distinct_map_filter)
  moreover have "\<forall>(i, k) \<in> set (mw_live ?w). 0 < i \<and> i < mw_next ?w" using assms(1) by (auto simp: winv_def)
  moreover have "filter (\<lambda>j. j \<noteq> info_id sig info) (held (mw_added_id w)) = held (mw_added_id w)"
    "filter (\<lambda>j. j \<noteq> info_id sig info) (held (mw_removed_id w)) = held (mw_removed_id w)"
    using other [of Object_Added] other [of Object_Removed] assms(1) by (simp_all add: winv_def)
  ultimately show ?thesis
    using assms(1) unfolding winv_def links_filter by simp
qed

lemma drop_handler_inv:
  assumes "winv m w" "m obj = Some info" "sig \<noteq> Sig_Ussd" "info_id sig info0 = info_id sig info"
    "info_id sig info0 \<noteq> 0 \<longrightarrow> has obj sig"
  shows "\<exists>w'. drop_handler has obj info0 sig w = (Inr (), w') \<and> winv (m(obj \<mapsto> set_info_id sig 0 info)) w' \<and> same_but_live w w'"
proof (cases "info_id sig info = 0")
  case True
  then have "set_info_id sig 0 info = info" by (cases sig) simp_all
  with True assms show ?thesis by (auto simp: drop_handler_def fun_upd_idem)
next
  case False
  with winv_disconnect [OF assms(1-3)] assms(4,5) show ?thesis
    by (simp add: drop_handler_def disconnect_handler_def same_but_live_def)
qed

lemma winv_cong:
  "winv m w \<Longrightarrow> mw_live w' = mw_live w \<Longrightarrow> mw_next w' = mw_next w \<Longrightarrow> mw_added_id w' = mw_added_id w \<Longrightarrow>
     mw_removed_id w' = mw_removed_id w \<Longrightarrow> winv m w'"
  by (simp add: winv_def links_def)

lemma call_back_run:
  "call_back n w = (Inr (), w') \<Longrightarrow> w' = w\<lparr>mw_told := mw_told w @ (if mw_callback w then [n] else [])\<rparr>"
  by (auto simp: call_back_def)

text \<open>Removing one entry.\<close>

lemma remove_one_inv:
  assumes "winv (map_of (mw_objects w)) w" "map_of (mw_objects w) key = Some info"
    "\<forall>sig. sig \<noteq> Sig_Ussd \<and> info_id sig info \<noteq> 0 \<longrightarrow> has key sig"
  shows "\<exists>w'. bnd (drop_handler has key info Sig_State) (\<lambda>_.
      bnd (drop_handler has key info Sig_Sms) (\<lambda>_.
      bnd (drop_handler has key info Sig_Call) (\<lambda>_.
      bnd (put_w (\<lambda>w. w\<lparr>mw_objects := AList.delete key (mw_objects w)\<rparr>)) (\<lambda>_. call_back (Mm_Removed key))))) w = (Inr (), w') \<and>
    winv (map_of (mw_objects w')) w' \<and> mw_objects w' = AList.delete key (mw_objects w) \<and>
    mw_told w' = mw_told w @ (if mw_callback w then [Mm_Removed key] else []) \<and>
    mw_callback w' = mw_callback w \<and> mw_initializing w' = mw_initializing w \<and> mw_available w' = mw_available w \<and>
    mw_added_id w' = mw_added_id w \<and> mw_removed_id w' = mw_removed_id w"
proof -
  let ?m = "map_of (mw_objects w)"
  from drop_handler_inv [OF assms(1,2), of Sig_State info has] assms(3) obtain w1 where
    1: "drop_handler has key info Sig_State w = (Inr (), w1)" "winv (?m(key \<mapsto> set_info_id Sig_State 0 info)) w1"
      "same_but_live w w1" by auto
  from drop_handler_inv [OF 1(2), of key "set_info_id Sig_State 0 info" Sig_Sms info has] assms(3) obtain w2 where
    2: "drop_handler has key info Sig_Sms w1 = (Inr (), w2)"
      "winv (?m(key \<mapsto> set_info_id Sig_Sms 0 (set_info_id Sig_State 0 info))) w2" "same_but_live w1 w2" by auto
  from drop_handler_inv [OF 2(2), of key "set_info_id Sig_Sms 0 (set_info_id Sig_State 0 info)" Sig_Call info has] assms(3)
  obtain w3 where
    3: "drop_handler has key info Sig_Call w2 = (Inr (), w3)"
      "winv (?m(key \<mapsto> set_info_id Sig_Call 0 (set_info_id Sig_Sms 0 (set_info_id Sig_State 0 info)))) w3"
      "same_but_live w2 w3" by auto
  have same: "same_but_live w w3" using 1(3) 2(3) 3(3) by (blast intro: same_but_live_trans)
  have no_ids: "held (info_id sig (set_info_id Sig_Call 0 (set_info_id Sig_Sms 0 (set_info_id Sig_State 0 info)))) = []"
    if "sig \<noteq> Sig_Ussd" for sig using that by (cases sig) simp_all
  have gone: "winv (?m(key := None)) w3"
    using 3(2) no_ids unfolding winv_def by (auto split: if_splits)
  let ?w = "w3\<lparr>mw_objects := AList.delete key (mw_objects w)\<rparr>"
  have "winv (map_of (mw_objects ?w)) ?w"
    by (rule winv_cong [where w = w3]) (use gone in \<open>simp_all add: AList.delete_conv'\<close>)
  moreover have "winv (map_of (mw_objects ?w)) (?w\<lparr>mw_told := ts\<rparr>)" if "winv (map_of (mw_objects ?w)) ?w" for ts
    by (rule winv_cong [OF that]) simp_all
  ultimately show ?thesis
    using same by (simp add: bnd_def 1(1) 2(1) 3(1) put_w_def call_back_def same_but_live_def)
qed

definition removed_of :: "'o option \<Rightarrow> ('o \<times> modem_info) list \<Rightarrow> 'o list" where
  "removed_of target entries = filter (\<lambda>key. target = Some key \<or> target = None) (map fst entries)"

lemma filter_delete:
  "filter (\<lambda>(k, _). k \<notin> set gone) (AList.delete key xs) = filter (\<lambda>(k, _). k \<notin> set (key # gone)) xs"
  by (simp add: AList.delete_eq filter_filter) (rule filter_cong; auto)

lemma remove_entries_inv:
  assumes "winv (map_of (mw_objects w)) w" "distinct (map fst entries)"
    "\<forall>(key, info) \<in> set entries. map_of (mw_objects w) key = Some info"
    "\<forall>(key, info) \<in> set entries. \<forall>sig. sig \<noteq> Sig_Ussd \<and> info_id sig info \<noteq> 0 \<longrightarrow> has key sig"
  shows "\<exists>w'. remove_entries has target entries w = (Inr (), w') \<and> winv (map_of (mw_objects w')) w' \<and>
    mw_objects w' = filter (\<lambda>(key, _). key \<notin> set (removed_of target entries)) (mw_objects w) \<and>
    mw_told w' = mw_told w @ (if mw_callback w then map Mm_Removed (removed_of target entries) else []) \<and>
    mw_callback w' = mw_callback w \<and> mw_initializing w' = mw_initializing w \<and> mw_available w' = mw_available w \<and>
    mw_added_id w' = mw_added_id w \<and> mw_removed_id w' = mw_removed_id w"
  using assms
proof (induction entries arbitrary: w)
  case Nil
  then show ?case by (simp add: removed_of_def)
next
  case (Cons entry entries)
  obtain key info where entry: "entry = (key, info)" by fastforce
  show ?case
  proof (cases "target = Some key \<or> target = None")
    case False
    then have eq: "removed_of target (entry # entries) = removed_of target entries"
      "remove_entries has target (entry # entries) w = remove_entries has target entries w"
      by (auto simp: entry removed_of_def)
    have rest: "\<forall>(key, info) \<in> set entries. map_of (mw_objects w) key = Some info"
      "\<forall>(key, info) \<in> set entries. \<forall>sig. sig \<noteq> Sig_Ussd \<and> info_id sig info \<noteq> 0 \<longrightarrow> has key sig"
      "distinct (map fst entries)"
      using Cons.prems(2-4) by auto
    show ?thesis unfolding eq by (rule Cons.IH [OF Cons.prems(1) rest(3,1,2)])
  next
    case True
    have "map_of (mw_objects w) key = Some info" "\<forall>sig. sig \<noteq> Sig_Ussd \<and> info_id sig info \<noteq> 0 \<longrightarrow> has key sig"
      using Cons.prems(3,4) entry by auto
    note one = this
    from remove_one_inv [OF Cons.prems(1) one(1), of has] one(2) obtain w1 where w1:
      "bnd (drop_handler has key info Sig_State) (\<lambda>_.
      bnd (drop_handler has key info Sig_Sms) (\<lambda>_.
      bnd (drop_handler has key info Sig_Call) (\<lambda>_.
      bnd (put_w (\<lambda>w. w\<lparr>mw_objects := AList.delete key (mw_objects w)\<rparr>)) (\<lambda>_. call_back (Mm_Removed key))))) w = (Inr (), w1)"
      "winv (map_of (mw_objects w1)) w1" "mw_objects w1 = AList.delete key (mw_objects w)"
      "mw_told w1 = mw_told w @ (if mw_callback w then [Mm_Removed key] else [])"
      "mw_callback w1 = mw_callback w" "mw_initializing w1 = mw_initializing w" "mw_available w1 = mw_available w"
      "mw_added_id w1 = mw_added_id w" "mw_removed_id w1 = mw_removed_id w" by blast
    have step: "remove_entries has target (entry # entries) w = remove_entries has target entries w1"
      using w1(1) True entry by (simp flip: bnd_assoc add: bnd_def)
    have "\<forall>(key', info') \<in> set entries. map_of (mw_objects w1) key' = Some info'"
      using Cons.prems(2,3) entry w1(3) by (force simp: AList.delete_conv')
    with Cons.IH [of w1] Cons.prems(2,4) w1(2) entry obtain w2 where w2:
      "remove_entries has target entries w1 = (Inr (), w2)" "winv (map_of (mw_objects w2)) w2"
      "mw_objects w2 = filter (\<lambda>(key, _). key \<notin> set (removed_of target entries)) (mw_objects w1)"
      "mw_told w2 = mw_told w1 @ (if mw_callback w1 then map Mm_Removed (removed_of target entries) else [])"
      "mw_callback w2 = mw_callback w1" "mw_initializing w2 = mw_initializing w1" "mw_available w2 = mw_available w1"
      "mw_added_id w2 = mw_added_id w1" "mw_removed_id w2 = mw_removed_id w1" by auto
    have "removed_of target (entry # entries) = key # removed_of target entries"
      using True entry by (simp add: removed_of_def)
    moreover note filter_delete [of "removed_of target entries" key "mw_objects w"]
    ultimately show ?thesis using step w1(3-9) w2 by simp
  qed
qed

section \<open>The invariant of the watcher\<close>

definition keys :: "'o watcher \<Rightarrow> 'o set" where
  "keys w = fst ` set (mw_objects w)"

definition balanced :: "'o watcher \<Rightarrow> bool" where
  "balanced w \<longleftrightarrow> (mw_callback w \<longrightarrow>
     (\<forall>obj. count_list (mw_told w) (Mm_Added obj) =
        count_list (mw_told w) (Mm_Removed obj) + (if obj \<in> keys w then 1 else 0)))"

definition watcher_ok :: "'o watcher \<Rightarrow> bool" where
  "watcher_ok w \<longleftrightarrow> winv (map_of (mw_objects w)) w \<and> distinct (map fst (mw_objects w)) \<and>
     (\<forall>(obj, info) \<in> set (mw_objects w). info_id Sig_State info \<noteq> 0) \<and> balanced w"

definition owner_ok :: "'o watcher \<Rightarrow> bool" where
  "owner_ok w \<longleftrightarrow>
     (mw_available w \<longleftrightarrow> mw_added_id w \<noteq> 0) \<and> (mw_added_id w \<noteq> 0 \<longleftrightarrow> mw_removed_id w \<noteq> 0)"

lemma watcher_ok_links:
  assumes "watcher_ok w"
  shows "links Object_Added w = held (mw_added_id w)" "links Object_Removed w = held (mw_removed_id w)"
    "length (links (On obj Sig_State) w) = (if obj \<in> keys w then 1 else 0)"
proof -
  show "links Object_Added w = held (mw_added_id w)" "links Object_Removed w = held (mw_removed_id w)"
    using assms by (simp_all add: watcher_ok_def winv_def)
  show "length (links (On obj Sig_State) w) = (if obj \<in> keys w then 1 else 0)"
  proof (cases "map_of (mw_objects w) obj")
    case None
    then have "links (On obj Sig_State) w = []" using assms by (simp add: watcher_ok_def winv_def)
    moreover have "obj \<notin> keys w" using None by (simp add: keys_def map_of_eq_None_iff)
    ultimately show ?thesis by simp
  next
    case (Some info)
    then have mem: "(obj, info) \<in> set (mw_objects w)" by (rule map_of_SomeD)
    then have "info_id Sig_State info \<noteq> 0" using assms by (auto simp: watcher_ok_def)
    moreover have "links (On obj Sig_State) w = held (info_id Sig_State info)"
      using assms Some by (simp add: watcher_ok_def winv_def)
    moreover have "obj \<in> keys w" using mem by (force simp: keys_def)
    ultimately show ?thesis by simp
  qed
qed

lemma add_modem_inv:
  assumes ok: "watcher_ok w" and new: "obj \<notin> keys w" and has: "has obj Sig_State"
  shows "\<exists>w'. add_modem_to_list has obj w = (Inr (), w') \<and> watcher_ok w' \<and> keys w' = insert obj (keys w) \<and>
    mw_initializing w' = mw_initializing w \<and> mw_callback w' = mw_callback w \<and> mw_available w' = mw_available w \<and>
    mw_added_id w' = mw_added_id w \<and> mw_removed_id w' = mw_removed_id w \<and>
    mw_told w' = mw_told w @ (if mw_callback w then [Mm_Added obj] else [])"
proof -
  let ?m = "map_of (mw_objects w)"
  have none: "?m obj = None" using new by (simp add: keys_def map_of_eq_None_iff)
  have "winv (?m(obj \<mapsto> modem_info_new)) w"
    using ok none unfolding watcher_ok_def winv_def by (auto split: option.split)
  from connect_modem_signals_inv [OF this, of obj modem_info_new has] obtain info w1 where
    1: "connect_modem_signals has obj modem_info_new w = (Inr info, w1)" "winv (?m(obj \<mapsto> info)) w1"
      "same_but_live w w1" "info_id Sig_State info \<noteq> 0" using has by auto
  define w2 where "w2 = w1\<lparr>mw_objects := AList.update obj info (mw_objects w)\<rparr>"
  define w3 where "w3 = snd (call_back (Mm_Added obj) w2)"
  have run: "add_modem_to_list has obj w = (Inr (), w3)"
    using 1(1,3) by (simp add: add_modem_to_list_def bnd_def put_w_def w2_def w3_def call_back_def same_but_live_def)
  have w3: "mw_objects w3 = AList.update obj info (mw_objects w)" "mw_callback w3 = mw_callback w"
    "mw_initializing w3 = mw_initializing w" "mw_available w3 = mw_available w"
    "mw_added_id w3 = mw_added_id w" "mw_removed_id w3 = mw_removed_id w"
    "mw_told w3 = mw_told w @ (if mw_callback w then [Mm_Added obj] else [])"
    "mw_live w3 = mw_live w1" "mw_next w3 = mw_next w1"
    using 1(3) by (simp_all add: w3_def w2_def call_back_def same_but_live_def)
  have ks: "keys w3 = insert obj (keys w)" by (simp add: keys_def w3(1) AList.update_conv' flip: dom_map_of_conv_image_fst)
  have "winv (map_of (mw_objects w3)) w3"
    by (rule winv_cong [where w = w1]) (use 1(2,3) w3 in \<open>simp_all add: AList.update_conv' same_but_live_def\<close>)
  moreover have "distinct (map fst (mw_objects w3))" using ok by (simp add: w3(1) watcher_ok_def distinct_update)
  moreover have "info_id Sig_State i \<noteq> 0" if "(x, i) \<in> set (mw_objects w3)" for x i
  proof -
    have "map_of (mw_objects w3) x = Some i"
      using \<open>distinct (map fst (mw_objects w3))\<close> that by simp
    then have "(x = obj \<and> i = info) \<or> ?m x = Some i" by (auto simp: w3(1) AList.update_conv' split: if_splits)
    then have "(x = obj \<and> i = info) \<or> (x, i) \<in> set (mw_objects w)" by (auto dest: map_of_SomeD)
    with ok 1(4) show ?thesis by (auto simp: watcher_ok_def)
  qed
  then have "\<forall>(x, i) \<in> set (mw_objects w3). info_id Sig_State i \<noteq> 0" by blast
  moreover have "balanced w3"
    using ok new by (auto simp: watcher_ok_def balanced_def w3(2,7) ks)
  ultimately have "watcher_ok w3" using ok by (simp add: watcher_ok_def w3)
  with run ks w3 show ?thesis by blast
qed

lemma count_list_map_removed:
  "count_list (map Mm_Removed xs) (Mm_Removed obj) = count_list xs obj"
  "count_list (map Mm_Removed xs) (Mm_Added obj) = 0"
  by (induction xs) simp_all

lemma count_list_distinct: "distinct xs \<Longrightarrow> count_list xs x = (if x \<in> set xs then 1 else 0)"
  by (induction xs) auto

lemma remove_modem_inv:
  assumes ok: "watcher_ok w" and has: "all_there has w"
  shows "\<exists>w'. remove_modem_from_list has target w = (Inr (), w') \<and> watcher_ok w' \<and>
    keys w' = {obj \<in> keys w. \<not> (target = Some obj \<or> target = None)} \<and>
    mw_initializing w' = mw_initializing w \<and> mw_callback w' = mw_callback w \<and> mw_available w' = mw_available w \<and>
    mw_added_id w' = mw_added_id w \<and> mw_removed_id w' = mw_removed_id w"
proof -
  let ?es = "mw_objects w" and ?gone = "removed_of target (mw_objects w)"
  have d: "distinct (map fst ?es)" using ok by (simp add: watcher_ok_def)
  have "\<forall>(key, info) \<in> set ?es. map_of ?es key = Some info" using d by auto
  moreover have there: "has key sig" if "(key, info) \<in> set ?es" "sig \<noteq> Sig_Ussd" "info_id sig info \<noteq> 0" for key info sig
  proof -
    have "map_of ?es key = Some info" using that(1) d by simp
    then have "links (On key sig) w \<noteq> []" using ok that(2,3) by (simp add: watcher_ok_def winv_def)
    with has show ?thesis by (simp add: all_there_def)
  qed
  moreover have "\<forall>(key, info) \<in> set ?es. \<forall>sig. sig \<noteq> Sig_Ussd \<and> info_id sig info \<noteq> 0 \<longrightarrow> has key sig"
    using there by blast
  ultimately obtain w' where w': "remove_entries has target ?es w = (Inr (), w')" "winv (map_of (mw_objects w')) w'"
    "mw_objects w' = filter (\<lambda>(key, _). key \<notin> set ?gone) ?es"
    "mw_told w' = mw_told w @ (if mw_callback w then map Mm_Removed ?gone else [])"
    "mw_callback w' = mw_callback w" "mw_initializing w' = mw_initializing w" "mw_available w' = mw_available w"
    "mw_added_id w' = mw_added_id w" "mw_removed_id w' = mw_removed_id w"
    using remove_entries_inv [of w ?es has target] ok d by (auto simp: watcher_ok_def)
  have ks: "keys w' = {obj \<in> keys w. \<not> (target = Some obj \<or> target = None)}"
    by (auto simp: keys_def w'(3) removed_of_def rev_image_eqI)
  have dg: "distinct ?gone" using d by (simp add: removed_of_def)
  have "balanced w'"
  proof (cases "mw_callback w")
    case True
    have cnt: "count_list ?gone obj = (if obj \<in> keys w \<and> (target = Some obj \<or> target = None) then 1 else 0)" for obj
      unfolding count_list_distinct [OF dg] by (auto simp: removed_of_def keys_def)
    have old: "count_list (mw_told w) (Mm_Added obj) =
        count_list (mw_told w) (Mm_Removed obj) + (if obj \<in> keys w then 1 else 0)" for obj
      using ok True by (simp add: watcher_ok_def balanced_def)
    have "count_list (mw_told w') (Mm_Added obj) =
        count_list (mw_told w') (Mm_Removed obj) + (if obj \<in> keys w' then 1 else 0)" for obj
      by (simp add: w'(4) ks True count_list_map_removed cnt old)
    then show ?thesis by (simp add: balanced_def)
  qed (simp add: balanced_def w'(5))
  moreover have "distinct (map fst (mw_objects w'))" using d unfolding w'(3) by (rule distinct_map_filter)
  ultimately have "watcher_ok w'" using ok w' by (auto simp: watcher_ok_def)
  with w' ks show ?thesis by (simp add: remove_modem_from_list_def bnd_def get_w_def)
qed

lemma on_object_added_inv:
  assumes "watcher_ok w" "obj \<notin> keys w"
  shows "watcher_ok (snd (on_object_added has obj w)) \<and> (owner_ok w \<longrightarrow> owner_ok (snd (on_object_added has obj w))) \<and>
    mw_initializing (snd (on_object_added has obj w)) = mw_initializing w \<and>
    keys (snd (on_object_added has obj w)) \<subseteq> insert obj (keys w)"
proof (cases "has obj Sig_State")
  case True
  from add_modem_inv [where w = w and obj = obj and has = has] assms True obtain w1 where
    "add_modem_to_list has obj w = (Inr (), w1)" "watcher_ok w1" "keys w1 = insert obj (keys w)"
    "mw_initializing w1 = mw_initializing w" "mw_available w1 = mw_available w"
    "mw_added_id w1 = mw_added_id w" "mw_removed_id w1 = mw_removed_id w" by blast
  with True show ?thesis by (auto simp: on_object_added_def owner_ok_def)
next
  case False
  with assms show ?thesis by (auto simp: on_object_added_def)
qed

lemma each_added_inv:
  "watcher_ok w \<Longrightarrow> owner_ok w \<Longrightarrow> distinct objs \<Longrightarrow> set objs \<inter> keys w = {} \<Longrightarrow>
     watcher_ok (snd (each (on_object_added has) objs w)) \<and> owner_ok (snd (each (on_object_added has) objs w))"
proof (induction objs arbitrary: w)
  case (Cons obj objs)
  obtain r w1 where run: "on_object_added has obj w = (r, w1)" by fastforce
  with on_object_added_inv [of w obj has] Cons.prems
  have w1: "watcher_ok w1" "owner_ok w1" "keys w1 \<subseteq> insert obj (keys w)" by auto
  with Cons.prems have "distinct objs" "set objs \<inter> keys w1 = {}" by auto
  from Cons.IH [OF w1(1,2) this] w1 run show ?case by (cases r) (simp_all add: bnd_def)
qed simp

text \<open>Connecting a handler the entries do not hold.\<close>

lemma winv_connect_other:
  assumes "winv m w" "\<And>obj sig. k = On obj sig \<Longrightarrow> sig = Sig_Ussd" "k \<noteq> Object_Added" "k \<noteq> Object_Removed"
  shows "winv m (snd (connect_handler k w))"
proof -
  have "\<forall>(i, l) \<in> set (mw_live w). i < mw_next w" using assms(1) by (auto simp: winv_def)
  then have fresh: "mw_next w \<notin> fst ` set (mw_live w)" by fastforce
  have le: "0 < i \<and> i < Suc (mw_next w)" if "(i, l) \<in> set (mw_live w)" for i l
    using assms(1) that by (fastforce simp: winv_def)
  have run: "snd (connect_handler k w) = w\<lparr>mw_live := mw_live w @ [(mw_next w, k)], mw_next := Suc (mw_next w)\<rparr>"
    by (simp add: connect_handler_def)
  have k: "k \<noteq> On obj sig" if "sig \<noteq> Sig_Ussd" for obj sig using assms(2) that by blast
  show ?thesis
    using assms(1,3,4) fresh le k unfolding winv_def run links_connect by (auto simp: eq_commute [of k])
qed

text \<open>The owner of the name comes and goes.\<close>

lemma set_available_inv:
  assumes ok: "watcher_ok w" and own: "owner_ok w" and "\<not> mw_available w"
    "\<not> mw_initializing w \<or> distinct managed \<and> keys w = {}"
  shows "watcher_ok (snd (set_available has managed w)) \<and> owner_ok (snd (set_available has managed w))"
proof -
  have ids: "mw_added_id w = 0" "mw_removed_id w = 0" using own assms(3) by (auto simp: owner_ok_def)
  have pos: "0 < mw_next w" using ok by (simp add: watcher_ok_def winv_def)
  define w1 where "w1 = w\<lparr>mw_added_id := mw_next w,
    mw_live := mw_live w @ [(mw_next w, Object_Added), (Suc (mw_next w), Object_Removed)],
    mw_next := Suc (Suc (mw_next w)), mw_removed_id := Suc (mw_next w), mw_available := True\<rparr>"
  have links: "links k w1 = links k w @ (if k = Object_Added then [mw_next w] else []) @
      (if k = Object_Removed then [Suc (mw_next w)] else [])" for k
    by (auto simp: links_def w1_def)
  have lt: "0 < i \<and> i < mw_next w" if "(i, k) \<in> set (mw_live w)" for i k
    using ok that by (fastforce simp: watcher_ok_def winv_def)
  then have "distinct (map fst (mw_live w1))"
    using ok by (fastforce simp: w1_def watcher_ok_def winv_def)
  moreover have "\<forall>(i, k) \<in> set (mw_live w1). 0 < i \<and> i < mw_next w1"
    using lt pos by (fastforce simp: w1_def)
  moreover have sel: "mw_added_id w1 = mw_next w" "mw_removed_id w1 = Suc (mw_next w)" "mw_next w1 = Suc (Suc (mw_next w))"
    "mw_objects w1 = mw_objects w" "mw_available w1" "mw_told w1 = mw_told w" "mw_callback w1 = mw_callback w"
    "mw_initializing w1 = mw_initializing w" by (simp_all add: w1_def)
  ultimately have "winv (map_of (mw_objects w1)) w1"
    using ok ids pos unfolding winv_def links watcher_ok_def by simp
  with ok pos have w1: "watcher_ok w1" by (simp add: watcher_ok_def balanced_def keys_def sel)
  have own1: "owner_ok w1" using pos by (simp add: owner_ok_def sel)
  have run: "set_available has managed w =
      (if mw_initializing w then each (on_object_added has) managed w1 else (Inr (), w1))"
    by (simp add: set_available_def connect_handler_def put_w_def get_w_def bnd_def w1_def)
  show ?thesis
  proof (cases "mw_initializing w")
    case True
    with assms(4) have "distinct managed" "set managed \<inter> keys w1 = {}" by (simp_all add: keys_def sel)
    from each_added_inv [OF w1 own1 this] True run show ?thesis by simp
  qed (simp add: run w1 own1)
qed

lemma winv_drop_manager:
  assumes "winv m w" "i = mw_added_id w \<or> i = mw_removed_id w" "i \<noteq> 0"
    "w' = w\<lparr>mw_live := filter (\<lambda>(j, _). j \<noteq> i) (mw_live w),
       mw_added_id := (if i = mw_added_id w then 0 else mw_added_id w),
       mw_removed_id := (if i = mw_added_id w then mw_removed_id w else 0)\<rparr>"
  shows "winv m w'"
proof -
  have d: "distinct (map fst (mw_live w))" using assms(1) by (simp add: winv_def)
  have links: "links k w' = filter (\<lambda>j. j \<noteq> i) (links k w)" for k
    using links_filter [of k i w] by (simp add: assms(4) links_def)
  obtain k where k: "links k w = [i]" "k = Object_Added \<and> i = mw_added_id w \<or> k = Object_Removed \<and> i = mw_removed_id w"
    using assms(1-3) by (auto simp: winv_def)
  note other = links_without [OF d k(1)]
  have "i \<noteq> mw_added_id w" if "k = Object_Removed"
  proof
    assume i: "i = mw_added_id w"
    then have "links Object_Added w = [i]" using assms(1,3) by (simp add: winv_def)
    then show False using links_unique [OF d, of i k Object_Added] k(1) that by simp
  qed
  moreover have "links (On obj sig) w' = (case m obj of None \<Rightarrow> [] | Some info \<Rightarrow> held (info_id sig info))"
    if "sig \<noteq> Sig_Ussd" for obj sig
  proof -
    have "links (On obj sig) w' = links (On obj sig) w" unfolding links by (rule other) (use k(2) in auto)
    with assms(1) that show ?thesis by (simp add: winv_def)
  qed
  moreover have "distinct (map fst (mw_live w'))" using d by (simp add: assms(4) distinct_map_filter)
  ultimately show ?thesis
    using assms(1,3,4) k other [of Object_Added] other [of Object_Removed]
    unfolding winv_def links by (auto simp: links)
qed

lemma set_unavailable_inv:
  assumes ok: "watcher_ok w" and has: "all_there has w"
  shows "watcher_ok (snd (set_unavailable has w)) \<and> owner_ok (snd (set_unavailable has w)) \<and>
    mw_initializing (snd (set_unavailable has w)) = mw_initializing w"
proof -
  let ?i = "mw_added_id w" and ?j = "mw_removed_id w"
  define w1 where "w1 = (if ?i \<noteq> 0 then w\<lparr>mw_live := filter (\<lambda>(j, _). j \<noteq> ?i) (mw_live w), mw_added_id := 0\<rparr> else w)"
  define w2 where "w2 = (if ?j \<noteq> 0 then w1\<lparr>mw_live := filter (\<lambda>(j, _). j \<noteq> ?j) (mw_live w1), mw_removed_id := 0\<rparr> else w1)"
  have w1: "winv (map_of (mw_objects w)) w1"
  proof (cases "?i = 0")
    case False
    show ?thesis
      by (rule winv_drop_manager [of _ w ?i]) (use ok False in \<open>auto simp: watcher_ok_def w1_def\<close>)
  qed (use ok in \<open>simp add: w1_def watcher_ok_def\<close>)
  have sel1: "mw_removed_id w1 = ?j" "mw_added_id w1 = 0" "mw_objects w1 = mw_objects w" by (simp_all add: w1_def)
  have w2: "winv (map_of (mw_objects w)) w2"
  proof (cases "?j = 0")
    case False
    show ?thesis
      by (rule winv_drop_manager [OF w1, of ?j]) (use False in \<open>auto simp: w2_def sel1\<close>)
  qed (use w1 in \<open>simp add: w2_def\<close>)
  have sel2: "mw_removed_id w2 = 0" "mw_added_id w2 = 0" "mw_objects w2 = mw_objects w" "mw_told w2 = mw_told w"
    "mw_callback w2 = mw_callback w" "mw_initializing w2 = mw_initializing w" "mw_available w2 = mw_available w"
    by (simp_all add: w2_def w1_def)
  have w2_ok: "watcher_ok w2" using w2 ok by (simp add: watcher_ok_def balanced_def keys_def sel2)
  have "set (links k w2) \<subseteq> set (links k w)" for k by (auto simp: w2_def w1_def links_def)
  then have "all_there has w2" using has unfolding all_there_def by (metis set_empty subset_empty)
  from remove_modem_inv [OF w2_ok this, of None] obtain w3 where
    w3: "remove_modem_from_list has None w2 = (Inr (), w3)" "watcher_ok w3"
      "mw_initializing w3 = mw_initializing w2" "mw_added_id w3 = 0" "mw_removed_id w3 = 0"
    by (auto simp: sel2)
  have run: "set_unavailable has w = (Inr (), w3\<lparr>mw_available := False\<rparr>)"
  proof -
    have first: "bnd (if ?i \<noteq> 0 then bnd (disconnect_handler ?i) (\<lambda>_. put_w (\<lambda>w. w\<lparr>mw_added_id := 0\<rparr>)) else ret ()) g w =
        g () w1" for g :: "unit \<Rightarrow> ('a, 'b) wact"
      by (simp add: w1_def disconnect_handler_def put_w_def bnd_def)
    have second: "bnd (if mw_removed_id w1 \<noteq> 0
        then bnd (disconnect_handler (mw_removed_id w1)) (\<lambda>_. put_w (\<lambda>w. w\<lparr>mw_removed_id := 0\<rparr>)) else ret ()) g w1 =
        g () w2" for g :: "unit \<Rightarrow> ('a, 'b) wact"
      by (simp add: w2_def disconnect_handler_def put_w_def bnd_def sel1)
    show ?thesis
      unfolding set_unavailable_def bnd_get_w first second by (simp add: put_w_def bnd_def w3(1))
  qed
  have "winv (map_of (mw_objects w3)) (w3\<lparr>mw_available := False\<rparr>)"
    by (rule winv_cong [of _ w3]) (use w3(2) in \<open>simp_all add: watcher_ok_def\<close>)
  then have "watcher_ok (w3\<lparr>mw_available := False\<rparr>)" using w3(2) by (simp add: watcher_ok_def balanced_def keys_def)
  then show ?thesis by (simp add: run owner_ok_def w3 sel2)
qed

text \<open>Handlers that leave the modems alone.\<close>

definition safe :: "('o, 'a) wact \<Rightarrow> bool" where
  "safe m \<longleftrightarrow> (\<forall>w. watcher_ok w \<and> owner_ok w \<longrightarrow>
     watcher_ok (snd (m w)) \<and> owner_ok (snd (m w)) \<and> mw_initializing (snd (m w)) = mw_initializing w)"

named_theorems safe_intros

lemma safe_ret [safe_intros]: "safe (ret x)" and safe_throw [safe_intros]: "safe (throw e)"
  and safe_get [safe_intros]: "safe (get_w f)"
  by (simp_all add: safe_def get_w_def)

lemma safe_bnd [safe_intros]:
  fixes m :: "('a, 'b) wact"
  assumes "safe m" "\<And>x. safe (f x)"
  shows "safe (bnd m f)"
  unfolding safe_def
proof (intro allI impI)
  fix w :: "'a watcher" assume ok: "watcher_ok w \<and> owner_ok w"
  obtain r w1 where m: "m w = (r, w1)" by fastforce
  with assms(1) ok have w1: "watcher_ok w1 \<and> owner_ok w1" "mw_initializing w1 = mw_initializing w"
    unfolding safe_def by (metis snd_conv)+
  show "watcher_ok (snd (bnd m f w)) \<and> owner_ok (snd (bnd m f w)) \<and> mw_initializing (snd (bnd m f w)) = mw_initializing w"
  proof (cases r)
    case (Inr x)
    with assms(2) [of x] m w1 show ?thesis by (simp add: bnd_def safe_def)
  qed (use m w1 in \<open>simp add: bnd_def\<close>)
qed

lemma watcher_ok_told:
  assumes "watcher_ok w" "\<And>obj. n \<noteq> Mm_Added obj" "\<And>obj. n \<noteq> Mm_Removed obj"
  shows "watcher_ok (w\<lparr>mw_told := mw_told w @ [n]\<rparr>)"
proof -
  have "winv (map_of (mw_objects w)) (w\<lparr>mw_told := mw_told w @ [n]\<rparr>)"
    by (rule winv_cong [of _ w]) (use assms(1) in \<open>simp_all add: watcher_ok_def\<close>)
  moreover have "balanced (w\<lparr>mw_told := mw_told w @ [n]\<rparr>)"
    using assms by (simp add: watcher_ok_def balanced_def keys_def)
  ultimately show ?thesis using assms(1) by (simp add: watcher_ok_def)
qed

lemma safe_call_back [safe_intros]:
  assumes "\<And>obj. n \<noteq> Mm_Added obj" "\<And>obj. n \<noteq> Mm_Removed obj"
  shows "safe (call_back n)"
  using watcher_ok_told [OF _ assms] by (simp add: safe_def call_back_def owner_ok_def)

lemma safe_connect [safe_intros]: "safe (connect_handler (Sms_Changed path b))" "safe (connect_handler (Call_Changed path))"
proof -
  have other: "safe (connect_handler k)" if "\<And>obj sig. k \<noteq> On obj sig" "k \<noteq> Object_Added" "k \<noteq> Object_Removed" for k :: "'o link"
    unfolding safe_def
  proof (intro allI impI)
    fix w :: "'o watcher" assume ok: "watcher_ok w \<and> owner_ok w"
    have "winv (map_of (mw_objects w)) w" using ok by (simp add: watcher_ok_def)
    from winv_connect_other [OF this, of k] that
    have "winv (map_of (mw_objects w)) (snd (connect_handler k w))" by blast
    with ok show "watcher_ok (snd (connect_handler k w)) \<and> owner_ok (snd (connect_handler k w)) \<and>
        mw_initializing (snd (connect_handler k w)) = mw_initializing w"
      by (simp add: watcher_ok_def owner_ok_def balanced_def keys_def connect_handler_def)
  qed
  show "safe (connect_handler (Sms_Changed path b))" "safe (connect_handler (Call_Changed path))"
    by (rule other; simp)+
qed

lemma safe_enum_val [safe_intros]: "safe (enum_val r)"
  by (cases r) (simp_all add: enum_val_def safe_intros)

lemma safe_find [safe_intros]: "safe (find_obj_via_path f path xs)"
  by (simp add: find_obj_via_path_def safe_intros split: option.split)

lemma safe_handlers:
  "safe (on_sms_added messages path received)" "safe (on_sms_state_changed msg received)"
  "safe (on_call_added calls path)" "safe (on_call_state_changed call_obj old new reason)"
  "safe (on_ussd_notification_changed obj n text)"
  unfolding on_sms_added_def on_sms_state_changed_def tell_sms_def on_call_added_def on_call_state_changed_def
    on_ussd_notification_changed_def
  by (auto intro!: safe_intros)

text \<open>A change of state.\<close>

definition state_notice :: "'o \<Rightarrow> int \<Rightarrow> int \<Rightarrow> int \<Rightarrow> 'o mm_notice list" where
  "state_notice obj old new reason =
     (case (enum_of modem_state_value modem_states old, enum_of modem_state_value modem_states new,
            enum_member mm_modem_state_change_reason reason) of
        (Inr a, Inr b, Inr c) \<Rightarrow> [Mm_State obj a b c]
      | _ \<Rightarrow> [])"

lemma state_callback_run:
  "\<exists>r. bnd (get_w mw_callback) (\<lambda>callback.
       if callback then
         bnd (enum_val (enum_of modem_state_value modem_states old)) (\<lambda>old.
         bnd (enum_val (enum_of modem_state_value modem_states new)) (\<lambda>new.
         bnd (enum_val (enum_member mm_modem_state_change_reason reason)) (\<lambda>reason.
           call_back (Mm_State obj old new reason))))
       else ret ()) w =
     (r, w\<lparr>mw_told := mw_told w @ (if mw_callback w then state_notice obj old new reason else [])\<rparr>)"
  by (simp add: bnd_get_w enum_val_def state_notice_def call_back_def split: sum.split)

lemma on_state_notify_inv:
  assumes "watcher_ok w"
  shows "\<exists>r w'. on_state_notify has obj old new reason w = (r, w') \<and> watcher_ok w' \<and> (owner_ok w \<longrightarrow> owner_ok w') \<and>
    keys w' = keys w \<and> mw_initializing w' = mw_initializing w \<and> mw_callback w' = mw_callback w \<and>
    mw_told w' = mw_told w @ (if mw_callback w then state_notice obj old new reason else [])"
proof -
  let ?connect = "case map_of (mw_objects w) obj of
            None \<Rightarrow> ret ()
          | Some info \<Rightarrow>
              bnd (connect_modem_signals has obj info) (\<lambda>info.
                put_w (\<lambda>w. w\<lparr>mw_objects := AList.update obj info (mw_objects w)\<rparr>))"
  have "\<exists>w1. ?connect w = (Inr (), w1) \<and> watcher_ok w1 \<and> (owner_ok w \<longrightarrow> owner_ok w1) \<and> keys w1 = keys w \<and>
    mw_initializing w1 = mw_initializing w \<and> mw_callback w1 = mw_callback w \<and> mw_told w1 = mw_told w"
  proof (cases "map_of (mw_objects w) obj")
    case None
    with assms show ?thesis by simp
  next
    case (Some info)
    have ok: "winv (map_of (mw_objects w)) w" using assms by (simp add: watcher_ok_def)
    from connect_modem_signals_inv [OF ok Some, of has] obtain info' w1 where
      1: "connect_modem_signals has obj info w = (Inr info', w1)" "winv ((map_of (mw_objects w))(obj \<mapsto> info')) w1"
        "same_but_live w w1" "\<forall>sig. info_id sig info \<noteq> 0 \<longrightarrow> info_id sig info' = info_id sig info" by blast
    define w2 where "w2 = w1\<lparr>mw_objects := AList.update obj info' (mw_objects w1)\<rparr>"
    have sel: "mw_objects w2 = AList.update obj info' (mw_objects w)" "mw_callback w2 = mw_callback w"
      "mw_initializing w2 = mw_initializing w" "mw_available w2 = mw_available w"
      "mw_added_id w2 = mw_added_id w" "mw_removed_id w2 = mw_removed_id w" "mw_told w2 = mw_told w"
      using 1(3) by (simp_all add: w2_def same_but_live_def)
    have mem: "(obj, info) \<in> set (mw_objects w)" using Some by (rule map_of_SomeD)
    then have key: "obj \<in> fst ` set (mw_objects w)" by force
    then have ks: "keys w2 = keys w"
      by (auto simp: keys_def sel AList.update_conv' simp flip: dom_map_of_conv_image_fst)
    have d: "distinct (map fst (mw_objects w2))" using assms by (simp add: sel watcher_ok_def distinct_update)
    have "winv (map_of (mw_objects w2)) w2"
      by (rule winv_cong [where w = w1]) (use 1(2,3) in \<open>simp_all add: w2_def AList.update_conv' same_but_live_def\<close>)
    moreover have "info_id Sig_State i \<noteq> 0" if "(x, i) \<in> set (mw_objects w2)" for x i
    proof -
      have "map_of (mw_objects w2) x = Some i" using d that by simp
      then have "(x = obj \<and> i = info') \<or> map_of (mw_objects w) x = Some i"
        by (auto simp: sel AList.update_conv' split: if_splits)
      moreover have "info_id Sig_State info' \<noteq> 0"
      proof -
        have "info_id Sig_State info \<noteq> 0" using mem assms by (auto simp: watcher_ok_def)
        with 1(4) show ?thesis by metis
      qed
      ultimately show ?thesis using assms by (auto simp: watcher_ok_def dest: map_of_SomeD)
    qed
    moreover have "balanced w2" using assms by (simp add: watcher_ok_def balanced_def ks sel)
    ultimately have "watcher_ok w2" using d unfolding watcher_ok_def by blast
    moreover have "owner_ok w \<longrightarrow> owner_ok w2" by (simp add: owner_ok_def sel)
    moreover have "?connect w = (Inr (), w2)" using Some 1(1) by (simp add: bnd_def put_w_def w2_def)
    ultimately show ?thesis using ks sel by blast
  qed
  then obtain w1 where w1: "?connect w = (Inr (), w1)" "watcher_ok w1" "owner_ok w \<longrightarrow> owner_ok w1" "keys w1 = keys w"
    "mw_initializing w1 = mw_initializing w" "mw_callback w1 = mw_callback w" "mw_told w1 = mw_told w" by blast
  let ?w = "w1\<lparr>mw_told := mw_told w1 @ (if mw_callback w1 then state_notice obj old new reason else [])\<rparr>"
  from state_callback_run [of old new reason obj w1] obtain r where run: "on_state_notify has obj old new reason w = (r, ?w)"
    unfolding on_state_notify_def bnd_get_w using w1(1) by (auto simp: bnd_def)
  have "watcher_ok ?w"
  proof (cases "mw_callback w1 \<and> state_notice obj old new reason \<noteq> []")
    case True
    then obtain a b c where "state_notice obj old new reason = [Mm_State obj a b c]"
      by (auto simp: state_notice_def split: sum.splits)
    with True watcher_ok_told [OF w1(2), of "Mm_State obj a b c"] show ?thesis by simp
  next
    case False
    then have "?w = w1" by auto
    with w1(2) show ?thesis by simp
  qed
  with run w1 show ?thesis by (auto simp: owner_ok_def keys_def)
qed

lemma funpow_invariant:
  assumes "\<And>w. P w \<Longrightarrow> P (f w)" "P w"
  shows "P ((f ^^ n) w)"
  using assms by (induction n) simp_all

lemma emit_safe:
  assumes "safe handler" "watcher_ok w \<and> owner_ok w \<and> \<not> mw_initializing w"
  shows "watcher_ok (emit k handler w) \<and> owner_ok (emit k handler w) \<and> \<not> mw_initializing (emit k handler w)"
  unfolding emit_def
  by (rule funpow_invariant [where P = "\<lambda>w. watcher_ok w \<and> owner_ok w \<and> \<not> mw_initializing w"])
    (use assms in \<open>auto simp: safe_def\<close>)

lemma emit_once:
  "length (links k w) \<le> 1 \<Longrightarrow> emit k handler w = (if links k w = [] then w else snd (handler w))"
  by (cases "links k w") (simp_all add: emit_def)

lemma held_length: "length (held i) \<le> Suc 0"
  by (simp add: held_def)

lemma mw_reach_ok: "mw_reach w \<Longrightarrow> watcher_ok w \<and> owner_ok w \<and> \<not> mw_initializing w"
proof (induction rule: mw_reach.induct)
  case (start has managed owned callback w)
  let ?w = "\<lparr>mw_callback = callback, mw_initializing = True, mw_available = False, mw_added_id = 0, mw_removed_id = 0,
        mw_objects = [], mw_live = [], mw_next = 1, mw_told = []\<rparr>"
  have ok: "watcher_ok ?w" "owner_ok ?w" "all_there has ?w"
    by (simp_all add: watcher_ok_def winv_def links_def balanced_def keys_def owner_ok_def all_there_def)
  obtain w1 where w1: "on_name_owner has managed owned ?w = (Inr (), w1)" "w = w1\<lparr>mw_initializing := False\<rparr>"
    using start(1) by (auto simp: watcher_init_def bnd_Inr put_w_def)
  have "watcher_ok w1 \<and> owner_ok w1"
  proof (cases owned)
    case True
    with set_available_inv [OF ok(1,2), of managed has] start(2) w1(1) show ?thesis
      by (simp add: on_name_owner_def keys_def)
  next
    case False
    with set_unavailable_inv [OF ok(1,3)] w1(1) show ?thesis by (simp add: on_name_owner_def)
  qed
  moreover have "winv (map_of (mw_objects w1)) (w1\<lparr>mw_initializing := False\<rparr>)"
    by (rule winv_cong [of _ w1]) (use \<open>watcher_ok w1 \<and> owner_ok w1\<close> in \<open>simp_all add: watcher_ok_def\<close>)
  ultimately show ?case
    by (simp add: w1(2) watcher_ok_def owner_ok_def balanced_def keys_def)
next
  case (owner_gone w has managed)
  with set_unavailable_inv [of w has] show ?case by (simp add: on_name_owner_def)
next
  case (owner_back w has managed)
  then have "set_available has managed w = (Inr (), snd (set_available has managed w))"
    "mw_initializing (snd (set_available has managed w)) = mw_initializing w"
    by (simp_all add: set_available_def connect_handler_def put_w_def get_w_def bnd_def)
  with owner_back set_available_inv [of w managed has] show ?case by (simp add: on_name_owner_def)
next
  case (added w obj has)
  then have le: "length (links Object_Added w) \<le> 1" by (simp add: watcher_ok_links held_length)
  from added have "obj \<notin> keys w" by (simp add: keys_def)
  with on_object_added_inv [of w obj has] added show ?case unfolding emit_once [OF le] by simp
next
  case (removed w has obj)
  then have le: "length (links Object_Removed w) \<le> 1" by (simp add: watcher_ok_links held_length)
  from remove_modem_inv [of w has "Some obj"] removed obtain w1 where
    "remove_modem_from_list has (Some obj) w = (Inr (), w1)" "watcher_ok w1"
    "mw_initializing w1 = mw_initializing w" "mw_available w1 = mw_available w"
    "mw_added_id w1 = mw_added_id w" "mw_removed_id w1 = mw_removed_id w" by blast
  with removed show ?case unfolding emit_once [OF le] by (simp add: on_object_removed_def owner_ok_def)
next
  case (state w obj has old new reason)
  then have le: "length (links (On obj Sig_State) w) \<le> 1" by (simp add: watcher_ok_links)
  from on_state_notify_inv [of w has obj old new reason] state obtain r w1 where
    "on_state_notify has obj old new reason w = (r, w1)" "watcher_ok w1" "owner_ok w1"
    "mw_initializing w1 = mw_initializing w" by blast
  with state show ?case unfolding emit_once [OF le] by simp
qed (rule emit_safe, rule safe_handlers, assumption)+

section \<open>From ModemManager to the mediator\<close>

text \<open>
  What the mediator does when it is called back. Messages and calls are numbers there:
  \<open>sms_no\<close> and \<open>call_no\<close> give them; \<open>described\<close> is whether its log of the modem succeeds.
\<close>

fun mediate ::
  "(modem_sms \<Rightarrow> nat) \<Rightarrow> (modem_call \<Rightarrow> nat) \<Rightarrow> bool \<Rightarrow> 'm mm_notice \<Rightarrow> 'o mediator \<Rightarrow> 'o mediator"
where
  "mediate sms_no call_no described (Mm_Added obj) m = mm_modem_added m"
| "mediate sms_no call_no described (Mm_Removed obj) m = mm_modem_removed m"
| "mediate sms_no call_no described (Mm_State obj old new reason) m = mm_modem_state_changed described new m"
| "mediate sms_no call_no described (Mm_Sms s) m = mm_modem_sms_state_changed (sm_state s) (sms_no s) m"
| "mediate sms_no call_no described (Mm_Call_Added c) m = mm_modem_call_added (call_no c) m"
| "mediate sms_no call_no described (Mm_Call_State c old new) m = mm_modem_call_state_changed (call_no c) m"
| "mediate sms_no call_no described (Mm_Ussd obj state text) m = mm_modem_ussd_notification_changed text m"

lemma modem_state_told_once:
  assumes "mw_reach w" "mw_callback w" "enum_of modem_state_value modem_states old = Inr a"
    "enum_of modem_state_value modem_states new = Inr b" "enum_member mm_modem_state_change_reason reason = Inr c"
  shows "mw_told (emit (On obj Sig_State) (on_state_notify has obj old new reason) w) =
    mw_told w @ (if obj \<in> keys w then [Mm_State obj a b c] else [])"
proof -
  have ok: "watcher_ok w" using mw_reach_ok [OF assms(1)] by blast
  have le: "length (links (On obj Sig_State) w) \<le> 1" using ok by (simp add: watcher_ok_links)
  have "links (On obj Sig_State) w = [] \<longleftrightarrow> obj \<notin> keys w"
    using watcher_ok_links(3) [OF ok, of obj] by (metis length_0_conv zero_neq_one)
  moreover have "state_notice obj old new reason = [Mm_State obj a b c]" using assms(3-5) by (simp add: state_notice_def)
  ultimately show ?thesis
    using on_state_notify_inv [OF ok, of has obj old new reason] assms(2) unfolding emit_once [OF le] by auto
qed


section \<open>Examples\<close>

definition demo_watcher :: "nat watcher" where
  "demo_watcher = snd (watcher_init (\<lambda>_ _. True) [1] True True)"

lemma demo_watcher_reach: "mw_reach demo_watcher"
proof (rule mw_reach.start)
  have "fst (watcher_init (\<lambda>_ _. True) [1 :: nat] True True) = Inr ()" by code_simp
  then show "watcher_init (\<lambda>_ _. True) [1] True True = (Inr (), demo_watcher)"
    by (simp add: demo_watcher_def prod_eq_iff)
qed simp

definition demo_signal :: "nat watcher" where
  "demo_signal = emit (On 1 Sig_State) (on_state_notify (\<lambda>_ _. True) 1 7 8 1) demo_watcher"

lemma demo_watcher_facts: "mw_callback demo_watcher" "mw_told demo_watcher = [Mm_Added 1]"
  "enum_of modem_state_value modem_states 7 = Inr Modem_SEARCHING"
  "enum_of modem_state_value modem_states 8 = Inr Modem_REGISTERED"
  "enum_member mm_modem_state_change_reason 1 = Inr ''USER_REQUESTED''"
  by code_simp+


text \<open>
  The handler of USSD notifications outlives the modem, and an owner that changes without
  vanishing doubles the handlers of the manager, so that each modem is announced twice.
\<close>

lemma removed_modem_still_notifies:
  "mw_told (emit (On 1 Sig_Ussd) (on_ussd_notification_changed 1 1 (Some ''x''))
     (emit Object_Removed (on_object_removed (\<lambda>_ _. True) 1) demo_watcher)) =
   [Mm_Added 1, Mm_Removed 1, Mm_Ussd 1 ''IDLE'' (Some ''x'')]"
  by code_simp

lemma owner_change_doubles:
  "links Object_Added (snd (on_name_owner (\<lambda>_ _. True) [1] True demo_watcher)) = [1, 7]"
  by code_simp

end
