(* ===== verification/Network_Watcher.thy ===== *)
theory Network_Watcher
  imports Nm_Enums Modem_Watcher Auth_Handlers
begin

text \<open>
  The watcher of NetworkManager (\<^verbatim>\<open>mediator/network_watcher.py\<close>): its devices, the
  connections it makes and activates, the states it passes on and the description of a device
  for the log. NetworkManager is a parameter: devices are of any type \<open>'d\<close>, with what it says
  of them, and the calls to it are logged.
\<close>

section \<open>Connections\<close>

datatype ip4_method = Ip4_Auto | Ip4_Disabled

datatype ip6_method = Ip6_Auto | Ip6_Ignore

record gsm_connection =
  gc_id :: string
  gc_uuid :: string
  gc_type :: string
  gc_autoconnect :: bool
  gc_number :: string
  gc_apn :: "string option"
  gc_username :: "string option"
  gc_password :: "string option"
  gc_network_id :: "string option"
  gc_ip4 :: ip4_method
  gc_ip6 :: ip6_method

text \<open>\<open>uuid\<close> is the random one.\<close>

definition create_connection ::
  "string \<Rightarrow> string \<Rightarrow> string option \<Rightarrow> string option \<Rightarrow> string option \<Rightarrow> string option \<Rightarrow> string option \<Rightarrow> gsm_connection"
where
  "create_connection uuid name apn username password pdp_type network_id =
     \<lparr>gc_id = name, gc_uuid = uuid, gc_type = ''gsm'', gc_autoconnect = False, gc_number = ''*99#'',
      gc_apn = apn, gc_username = username, gc_password = password, gc_network_id = network_id,
      gc_ip4 = (if pdp_type = Some ''ipv6'' then Ip4_Disabled else Ip4_Auto),
      gc_ip6 = (if pdp_type \<noteq> Some ''ipv6'' \<and> pdp_type = Some ''ipv4'' then Ip6_Ignore else Ip6_Auto)\<rparr>"

section \<open>State\<close>

datatype 'd nm_notice = Nm_Added 'd | Nm_Removed 'd | Nm_State 'd device_state device_state string

datatype 'd nm_command =
    Nm_Add_And_Activate gsm_connection 'd | Nm_Activate gsm_connection 'd | Nm_Disconnect 'd

text \<open>\<open>nw_live\<close> are the devices whose signals are handled, \<open>nw_sent\<close> the calls to NetworkManager.\<close>

record 'd net_watcher =
  nw_callback :: bool
  nw_devices :: "('d \<times> nat) list"
  nw_live :: "(nat \<times> 'd) list"
  nw_next :: nat
  nw_told :: "'d nm_notice list"
  nw_sent :: "'d nm_command list"

type_synonym ('d, 'a) nact = "(watch_error, 'd net_watcher, 'a) eff"

definition nm_call_back :: "'d nm_notice \<Rightarrow> ('d, unit) nact" where
  "nm_call_back n w = (Inr (), if nw_callback w then w\<lparr>nw_told := nw_told w @ [n]\<rparr> else w)"

definition add_device_to_list :: "'d \<Rightarrow> ('d, unit) nact" where
  "add_device_to_list d w =
     nm_call_back (Nm_Added d)
       (w\<lparr>nw_live := nw_live w @ [(nw_next w, d)], nw_next := Suc (nw_next w),
          nw_devices := AList.update d (nw_next w) (nw_devices w)\<rparr>)"

definition device_added :: "('d \<Rightarrow> bool) \<Rightarrow> 'd \<Rightarrow> ('d, unit) nact" where
  "device_added is_modem d = (if is_modem d then add_device_to_list d else ret ())"

text \<open>The handler of a removed device stays connected.\<close>

fun remove_devices :: "'d option \<Rightarrow> ('d \<times> nat) list \<Rightarrow> ('d, unit) nact" where
  "remove_devices target [] = ret ()"
| "remove_devices target ((key, _) # entries) =
     (if target = Some key \<or> target = None then
        bnd (\<lambda>w. (Inr (), w\<lparr>nw_devices := AList.delete key (nw_devices w)\<rparr>)) (\<lambda>_.
        bnd (nm_call_back (Nm_Removed key)) (\<lambda>_. remove_devices target entries))
      else remove_devices target entries)"

definition remove_device_from_list :: "'d option \<Rightarrow> ('d, unit) nact" where
  "remove_device_from_list target w = remove_devices target (nw_devices w) w"

definition net_device_removed :: "('d \<Rightarrow> bool) \<Rightarrow> 'd \<Rightarrow> ('d, unit) nact" where
  "net_device_removed is_modem d = (if is_modem d then remove_device_from_list (Some d) else ret ())"

fun add_all :: "('d \<Rightarrow> bool) \<Rightarrow> 'd list \<Rightarrow> ('d, unit) nact" where
  "add_all is_modem [] = ret ()"
| "add_all is_modem (d # ds) = bnd (device_added is_modem d) (\<lambda>_. add_all is_modem ds)"

definition net_watcher_init :: "('d \<Rightarrow> bool) \<Rightarrow> 'd list \<Rightarrow> bool \<Rightarrow> 'd net_watcher" where
  "net_watcher_init is_modem present callback =
     snd (add_all is_modem present
       \<lparr>nw_callback = callback, nw_devices = [], nw_live = [], nw_next = 1, nw_told = [], nw_sent = []\<rparr>)"

text \<open>The signal gives the new state first, the callback object gets the old one first.\<close>

definition nm_on_state_notify :: "'d \<Rightarrow> int \<Rightarrow> int \<Rightarrow> int \<Rightarrow> ('d, unit) nact" where
  "nm_on_state_notify d new_state old_state reason w =
     (if nw_callback w then
        (case (enum_of device_state_value device_states old_state, enum_of device_state_value device_states new_state,
               enum_member nm_device_state_reason reason) of
           (Inr old, Inr new, Inr r) \<Rightarrow> nm_call_back (Nm_State d old new r) w
         | _ \<Rightarrow> (Inl Watch_ValueError, w))
      else (Inr (), w))"

section \<open>Commands\<close>

definition get_device_from_list :: "('d \<Rightarrow> string) \<Rightarrow> string option \<Rightarrow> ('d, 'd option) nact" where
  "get_device_from_list udi_of udi w =
     (if nw_devices w = [] then (Inl Watch_ValueError, w)
      else if udi = None \<or> udi = Some [] then (Inr (Some (fst (hd (nw_devices w)))), w)
      else (Inr (List.find (\<lambda>d. Some (udi_of d) = udi) (map fst (nw_devices w))), w))"

definition nm_send :: "'d nm_command \<Rightarrow> ('d, unit) nact" where
  "nm_send c w = (Inr (), w\<lparr>nw_sent := nw_sent w @ [c]\<rparr>)"

text \<open>With no such device, \<open>None\<close> is used as one.\<close>

definition on_device :: "('d \<Rightarrow> string) \<Rightarrow> string option \<Rightarrow> ('d \<Rightarrow> ('d, 'a) nact) \<Rightarrow> ('d, 'a) nact" where
  "on_device udi_of udi f =
     bnd (get_device_from_list udi_of udi) (\<lambda>d. case d of None \<Rightarrow> throw Watch_AttributeError | Some d \<Rightarrow> f d)"

definition get_connection_for_device :: "('d \<Rightarrow> gsm_connection list) \<Rightarrow> 'd \<Rightarrow> string \<Rightarrow> ('d, gsm_connection) nact" where
  "get_connection_for_device available d con_id =
     (case List.find (\<lambda>c. gc_id c = con_id) (available d) of
        None \<Rightarrow> throw Watch_ValueError | Some c \<Rightarrow> ret c)"

definition send_connect_device ::
  "('d \<Rightarrow> string) \<Rightarrow> ('d \<Rightarrow> gsm_connection list) \<Rightarrow> string \<Rightarrow> string option \<Rightarrow> ('d, unit) nact"
where
  "send_connect_device udi_of available con_id udi =
     on_device udi_of udi (\<lambda>d. bnd (get_connection_for_device available d con_id) (\<lambda>c. nm_send (Nm_Activate c d)))"

definition connect_device :: "('d \<Rightarrow> string) \<Rightarrow> gsm_connection \<Rightarrow> string option \<Rightarrow> ('d, unit) nact" where
  "connect_device udi_of c udi = on_device udi_of udi (\<lambda>d. nm_send (Nm_Add_And_Activate c d))"

definition nm_disconnect :: "('d \<Rightarrow> string) \<Rightarrow> string option \<Rightarrow> ('d, unit) nact" where
  "nm_disconnect udi_of udi = on_device udi_of udi (\<lambda>d. nm_send (Nm_Disconnect d))"

definition nm_get_modem_state :: "('d \<Rightarrow> string) \<Rightarrow> ('d \<Rightarrow> int) \<Rightarrow> string option \<Rightarrow> ('d, device_state) nact" where
  "nm_get_modem_state udi_of state_of udi =
     on_device udi_of udi (\<lambda>d.
       case enum_of device_state_value device_states (state_of d) of
         Inl _ \<Rightarrow> throw Watch_ValueError | Inr s \<Rightarrow> ret s)"

section \<open>The description of a device\<close>

record ip_address =
  ia_address :: string
  ia_family :: int
  ia_prefix :: int

record ip_route =
  ir_dest :: string
  ir_metric :: int
  ir_next_hop :: "string option"
  ir_prefix :: int

record ip_config =
  ic_addresses :: "ip_address list option"
  ic_domains :: "string list"
  ic_gateway :: "string option"
  ic_nameservers :: "string list"
  ic_routes :: "ip_route list option"
  ic_searches :: "string list"
  ic_wins_servers :: "string list"

definition strings :: "string list \<Rightarrow> json" where
  "strings xs = JList (map JStr xs)"

definition opt_string :: "string option \<Rightarrow> json" where
  "opt_string x = (case x of None \<Rightarrow> JNull | Some s \<Rightarrow> JStr s)"

definition parse_ip6_addresses_config :: "ip_address list option \<Rightarrow> json" where
  "parse_ip6_addresses_config ip6_addresses =
     (case ip6_addresses of
        None \<Rightarrow> JNull
      | Some xs \<Rightarrow> JList (map (\<lambda>a. JObj [(''address'', JStr (ia_address a)), (''family'', JInt (ia_family a)),
          (''prefix'', JInt (ia_prefix a))]) xs))"

definition parse_ip4_addresses_config :: "ip_address list option \<Rightarrow> json" where
  "parse_ip4_addresses_config ip4_addresses =
     (case ip4_addresses of
        None \<Rightarrow> JNull
      | Some xs \<Rightarrow> JList (map (\<lambda>a. JObj [(''address'', JStr (ia_address a)), (''prefix'', JInt (ia_prefix a)),
          (''family'', JInt (ia_family a))]) xs))"

definition parse_routes_config :: "ip_route list option \<Rightarrow> json" where
  "parse_routes_config ip_routes =
     (case ip_routes of
        None \<Rightarrow> JNull
      | Some xs \<Rightarrow> JList (map (\<lambda>r. JObj [(''dest'', JStr (ir_dest r)), (''metric'', JInt (ir_metric r)),
          (''next_hop'', opt_string (ir_next_hop r)), (''prefix'', JInt (ir_prefix r))]) xs))"

definition parse_ip4_config :: "ip_config option \<Rightarrow> json" where
  "parse_ip4_config ip4 =
     (case ip4 of
        None \<Rightarrow> JNull
      | Some c \<Rightarrow> JObj [(''addresses'', parse_ip4_addresses_config (ic_addresses c)), (''domains'', strings (ic_domains c)),
          (''gateway'', opt_string (ic_gateway c)), (''nameserver'', strings (ic_nameservers c)),
          (''routes'', parse_routes_config (ic_routes c)), (''searches'', strings (ic_searches c)),
          (''wins_server'', strings (ic_wins_servers c))])"

definition parse_ip6_config :: "ip_config option \<Rightarrow> json" where
  "parse_ip6_config ip6 =
     (case ip6 of
        None \<Rightarrow> JNull
      | Some c \<Rightarrow> JObj [(''addresses'', parse_ip6_addresses_config (ic_addresses c)), (''domains'', strings (ic_domains c)),
          (''gateway'', opt_string (ic_gateway c)), (''nameserver'', strings (ic_nameservers c)),
          (''routes'', parse_routes_config (ic_routes c)), (''searches'', strings (ic_searches c))])"

text \<open>\<open>dhcp4\<close> and \<open>dhcp6\<close> are passed on as they are.\<close>

record net_device =
  nd_description :: "string option"
  nd_driver :: "string option"
  nd_driver_version :: "string option"
  nd_firmware_version :: "string option"
  nd_hw_address :: "string option"
  nd_iface :: "string option"
  nd_ip4 :: "ip_config option"
  nd_ip6 :: "ip_config option"
  nd_ip_iface :: "string option"
  nd_dhcp4 :: json
  nd_dhcp6 :: json
  nd_mtu :: int
  nd_physical_port_id :: "string option"
  nd_product :: "string option"
  nd_vendor :: "string option"

definition parse_device_config :: "net_device \<Rightarrow> json" where
  "parse_device_config d =
     JObj [(''description'', opt_string (nd_description d)), (''driver'', opt_string (nd_driver d)),
       (''driver_version'', opt_string (nd_driver_version d)), (''firmware_version'', opt_string (nd_firmware_version d)),
       (''hw_address'', opt_string (nd_hw_address d)), (''iface'', opt_string (nd_iface d)),
       (''ip4'', parse_ip4_config (nd_ip4 d)), (''ip6'', parse_ip6_config (nd_ip6 d)),
       (''ip_iface'', opt_string (nd_ip_iface d)), (''dhcp4'', nd_dhcp4 d), (''dhcp6'', nd_dhcp6 d),
       (''mtu'', JInt (nd_mtu d)), (''physical_port_id'', opt_string (nd_physical_port_id d)),
       (''product'', opt_string (nd_product d)), (''vendor'', opt_string (nd_vendor d))]"

definition get_config_for_device :: "('d \<Rightarrow> string) \<Rightarrow> ('d \<Rightarrow> net_device) \<Rightarrow> string option \<Rightarrow> ('d, json) nact" where
  "get_config_for_device udi_of describe udi = on_device udi_of udi (\<lambda>d. ret (parse_device_config (describe d)))"

section \<open>Which devices are watched\<close>

definition nm_emit :: "'d \<Rightarrow> ('d, unit) nact \<Rightarrow> 'd net_watcher \<Rightarrow> 'd net_watcher" where
  "nm_emit d handler w = ((\<lambda>w. snd (handler w)) ^^ length (filter (\<lambda>(_, d'). d' = d) (nw_live w))) w"

inductive nw_reach :: "('d \<Rightarrow> bool) \<Rightarrow> 'd net_watcher \<Rightarrow> bool" for is_modem where
  start: "distinct present \<Longrightarrow> nw_reach is_modem (net_watcher_init is_modem present callback)"
| added: "nw_reach is_modem w \<Longrightarrow> d \<notin> fst ` set (nw_devices w) \<Longrightarrow> nw_reach is_modem (snd (device_added is_modem d w))"
| removed: "nw_reach is_modem w \<Longrightarrow> nw_reach is_modem (snd (net_device_removed is_modem d w))"
| state: "nw_reach is_modem w \<Longrightarrow> nw_reach is_modem (nm_emit d (nm_on_state_notify d new old reason) w)"
| connect: "nw_reach is_modem w \<Longrightarrow> nw_reach is_modem (snd (connect_device udi_of c udi w))"
| activate: "nw_reach is_modem w \<Longrightarrow> nw_reach is_modem (snd (send_connect_device udi_of available con_id udi w))"
| disconnect: "nw_reach is_modem w \<Longrightarrow> nw_reach is_modem (snd (nm_disconnect udi_of udi w))"

text \<open>
  The devices are modems, those announced once more than removed; each was announced as often
  as its signal was connected.
\<close>

definition nw_keys :: "'d net_watcher \<Rightarrow> 'd set" where
  "nw_keys w = fst ` set (nw_devices w)"

definition announced :: "'d net_watcher \<Rightarrow> 'd \<Rightarrow> nat" where
  "announced w d = count_list (nw_told w) (Nm_Added d)"

definition dismissed :: "'d net_watcher \<Rightarrow> 'd \<Rightarrow> nat" where
  "dismissed w d = count_list (nw_told w) (Nm_Removed d)"

definition heard :: "'d net_watcher \<Rightarrow> 'd \<Rightarrow> nat" where
  "heard w d = length (filter (\<lambda>(_, d'). d' = d) (nw_live w))"

lemmas nw_counts = nw_keys_def announced_def dismissed_def heard_def

definition nw_ok :: "('d \<Rightarrow> bool) \<Rightarrow> 'd net_watcher \<Rightarrow> bool" where
  "nw_ok is_modem w \<longleftrightarrow> distinct (map fst (nw_devices w)) \<and> (\<forall>d \<in> nw_keys w. is_modem d) \<and>
     (nw_callback w \<longrightarrow>
       (\<forall>d. announced w d = dismissed w d + (if d \<in> nw_keys w then 1 else 0)) \<and>
       (\<forall>d. announced w d = heard w d))"

lemma nw_ok_frame:
  assumes "nw_ok is_modem w" "nw_devices w' = nw_devices w" "nw_callback w' = nw_callback w"
    "\<And>d. announced w' d = announced w d" "\<And>d. dismissed w' d = dismissed w d" "nw_live w' = nw_live w"
  shows "nw_ok is_modem w'"
proof -
  have eqs: "nw_keys w' = nw_keys w" "heard w' d = heard w d" for d
    using assms(2,6) by (simp_all add: nw_counts)
  show ?thesis unfolding nw_ok_def eqs assms(2-5) using assms(1) [unfolded nw_ok_def] by blast
qed

lemma add_device_keys: "nw_keys (snd (add_device_to_list d w)) = insert d (nw_keys w)"
  by (simp add: nw_keys_def add_device_to_list_def nm_call_back_def AList.update_conv' flip: dom_map_of_conv_image_fst)

lemma nw_ok_added:
  assumes "nw_ok is_modem w" "d \<notin> nw_keys w" "is_modem d"
  shows "nw_ok is_modem (snd (add_device_to_list d w))"
proof -
  let ?w = "snd (add_device_to_list d w)"
  have "distinct (map fst (nw_devices ?w))"
    using assms(1) by (simp add: add_device_to_list_def nm_call_back_def nw_ok_def distinct_update)
  moreover have "nw_callback ?w = nw_callback w" by (simp add: add_device_to_list_def nm_call_back_def)
  moreover have "announced ?w x = announced w x + (if x = d then 1 else 0)" "dismissed ?w x = dismissed w x"
    "heard ?w x = heard w x + (if x = d then 1 else 0)" if "nw_callback w" for x
    using that by (simp_all add: announced_def dismissed_def heard_def add_device_to_list_def nm_call_back_def)
  ultimately show ?thesis using assms unfolding nw_ok_def add_device_keys by auto
qed

lemma add_all_ok:
  "nw_ok is_modem w \<Longrightarrow> distinct ds \<Longrightarrow> set ds \<inter> nw_keys w = {} \<Longrightarrow> nw_ok is_modem (snd (add_all is_modem ds w))"
proof (induction ds arbitrary: w)
  case (Cons d ds)
  show ?case
  proof (cases "is_modem d")
    case True
    from Cons.prems have new: "d \<notin> nw_keys w" by simp
    obtain w1 where w1: "add_device_to_list d w = (Inr (), w1)"
      by (simp add: add_device_to_list_def nm_call_back_def)
    have "nw_ok is_modem w1" "nw_keys w1 = insert d (nw_keys w)"
      using nw_ok_added [OF Cons.prems(1) new True] add_device_keys [of d w] w1 by simp_all
    with Cons.IH [of w1] Cons.prems(2,3) True w1 show ?thesis by (simp add: device_added_def bnd_def)
  next
    case False
    with Cons show ?thesis by (simp add: device_added_def)
  qed
qed simp

lemma remove_devices_run:
  "remove_devices target entries w =
     (let gone = filter (\<lambda>d. target = Some d \<or> target = None) (map fst entries) in
      (Inr (), w\<lparr>nw_devices := filter (\<lambda>(d, _). d \<notin> set gone) (nw_devices w),
        nw_told := nw_told w @ (if nw_callback w then map Nm_Removed gone else [])\<rparr>))"
proof (induction target entries arbitrary: w rule: remove_devices.induct)
  case (2 target key n entries)
  let ?gone = "filter (\<lambda>d. target = Some d \<or> target = None) (map fst entries)"
  show ?case
  proof (cases "target = Some key \<or> target = None")
    case True
    define w1 where "w1 = w\<lparr>nw_devices := AList.delete key (nw_devices w),
      nw_told := nw_told w @ (if nw_callback w then [Nm_Removed key] else [])\<rparr>"
    have "remove_devices target ((key, n) # entries) w = remove_devices target entries w1"
      using True by (auto simp: bnd_def nm_call_back_def w1_def)
    also have "\<dots> = (Inr (), w1\<lparr>nw_devices := filter (\<lambda>(d, _). d \<notin> set ?gone) (nw_devices w1),
        nw_told := nw_told w1 @ (if nw_callback w1 then map Nm_Removed ?gone else [])\<rparr>)"
      using 2(1) [OF True] by (simp only: Let_def)
    also have "\<dots> = (Inr (), w\<lparr>nw_devices := filter (\<lambda>(d, _). d \<notin> set (key # ?gone)) (nw_devices w),
        nw_told := nw_told w @ (if nw_callback w then map Nm_Removed (key # ?gone) else [])\<rparr>)"
      unfolding filter_delete [symmetric] by (simp add: w1_def)
    also have "key # ?gone = filter (\<lambda>d. target = Some d \<or> target = None) (map fst ((key, n) # entries))"
      using True by simp
    finally show ?thesis by (simp only: Let_def)
  next
    case False
    then have "filter (\<lambda>d. target = Some d \<or> target = None) (map fst ((key, n) # entries)) = ?gone" by auto
    moreover have "remove_devices target ((key, n) # entries) w = remove_devices target entries w"
      unfolding remove_devices.simps if_not_P [OF False] by (rule refl)
    ultimately show ?thesis using 2(2) [OF False] by (simp only:)
  qed
qed simp

lemma count_removed: "count_list (map Nm_Removed xs) (Nm_Removed d) = count_list xs d"
  "count_list (map Nm_Removed xs) (Nm_Added d) = 0"
  by (induction xs) simp_all

lemma nw_ok_removed:
  assumes "nw_ok is_modem w"
  shows "nw_ok is_modem (snd (remove_device_from_list target w))"
proof -
  let ?w = "snd (remove_device_from_list target w)"
  let ?gone = "filter (\<lambda>d. target = Some d \<or> target = None) (map fst (nw_devices w))"
  have w: "?w = w\<lparr>nw_devices := filter (\<lambda>(d, _). d \<notin> set ?gone) (nw_devices w),
      nw_told := nw_told w @ (if nw_callback w then map Nm_Removed ?gone else [])\<rparr>"
    unfolding remove_device_from_list_def remove_devices_run Let_def by simp
  have d: "distinct (map fst (nw_devices w))" using assms by (simp add: nw_ok_def)
  have keys: "nw_keys ?w = {x \<in> nw_keys w. \<not> (target = Some x \<or> target = None)}"
    unfolding w nw_keys_def by (auto simp: rev_image_eqI)
  have cnt: "count_list ?gone x = (if x \<in> nw_keys w \<and> (target = Some x \<or> target = None) then 1 else 0)" for x
    using d by (subst count_list_distinct) (auto simp: nw_keys_def)
  have "distinct (map fst (nw_devices ?w))" unfolding w using distinct_map_filter [OF d] by simp
  moreover have "nw_callback ?w = nw_callback w" unfolding w by simp
  moreover have "announced ?w x = announced w x" "heard ?w x = heard w x"
    "dismissed ?w x = dismissed w x + (if x \<in> nw_keys w \<and> (target = Some x \<or> target = None) then 1 else 0)"
    if "nw_callback w" for x
    using that unfolding w by (simp_all add: announced_def dismissed_def heard_def count_removed cnt)
  ultimately show ?thesis using assms unfolding nw_ok_def keys by auto
qed

lemma nm_state_run:
  assumes "nw_callback w" "enum_of device_state_value device_states old = Inr a"
    "enum_of device_state_value device_states new = Inr b" "enum_member nm_device_state_reason reason = Inr c"
  shows "((\<lambda>w. snd (nm_on_state_notify d new old reason w)) ^^ n) w =
    w\<lparr>nw_told := nw_told w @ replicate n (Nm_State d a b c)\<rparr>"
  by (induction n) (simp_all add: nm_on_state_notify_def nm_call_back_def assms flip: replicate_append_same)

lemma nm_emit_ok:
  assumes "nw_ok is_modem w"
  shows "nw_ok is_modem (nm_emit d (nm_on_state_notify d new old reason) w)"
proof -
  have "nw_ok is_modem (snd (nm_on_state_notify d new old reason w))" if "nw_ok is_modem w" for w
    by (rule nw_ok_frame [OF that])
      (simp_all add: nm_on_state_notify_def nm_call_back_def announced_def dismissed_def split: sum.split)
  then show ?thesis unfolding nm_emit_def by (rule funpow_invariant [where P = "nw_ok is_modem"]) (assumption | rule assms)+
qed

lemma on_device_ok:
  assumes "nw_ok is_modem w"
  shows "nw_ok is_modem (snd (connect_device udi_of c udi w))"
    "nw_ok is_modem (snd (send_connect_device udi_of available con_id udi w))"
    "nw_ok is_modem (snd (nm_disconnect udi_of udi w))"
  using assms
  by (auto simp: connect_device_def send_connect_device_def nm_disconnect_def on_device_def get_device_from_list_def
      bnd_def nm_send_def get_connection_for_device_def announced_def dismissed_def
      split: option.split intro: nw_ok_frame)

lemma nw_reach_ok: "nw_reach is_modem w \<Longrightarrow> nw_ok is_modem w"
proof (induction rule: nw_reach.induct)
  case (start present callback)
  then show ?case unfolding net_watcher_init_def by (intro add_all_ok) (simp_all add: nw_ok_def nw_counts)
next
  case (added w d)
  then show ?case by (cases "is_modem d") (simp_all add: device_added_def nw_ok_added nw_keys_def)
next
  case (removed w d)
  then show ?case by (simp add: net_device_removed_def nw_ok_removed)
qed (simp_all add: nm_emit_ok on_device_ok)

text \<open>
  A change of a device's state is told as often as the device was ever announced: removing a
  device does not disconnect its handler, so a device that is gone is still heard, and one that
  came back is heard twice.
\<close>
lemma device_state_told:
  assumes "nw_reach is_modem w" "nw_callback w" "enum_of device_state_value device_states old = Inr a"
    "enum_of device_state_value device_states new = Inr b" "enum_member nm_device_state_reason reason = Inr c"
  shows "nw_told (nm_emit d (nm_on_state_notify d new old reason) w) =
      nw_told w @ replicate (announced w d) (Nm_State d a b c)"
proof -
  have "announced w d = heard w d" using nw_reach_ok [OF assms(1)] assms(2) unfolding nw_ok_def by blast
  then show ?thesis unfolding nm_emit_def nm_state_run [OF assms(2-5)] by (simp add: heard_def)
qed

text \<open>A connection for one version of IP turns the other off.\<close>

lemma create_connection_methods:
  "gc_ip4 (create_connection uuid name apn user pw pdp net) = Ip4_Auto \<longleftrightarrow> pdp \<noteq> Some ''ipv6''"
  "gc_ip6 (create_connection uuid name apn user pw pdp net) = Ip6_Auto \<longleftrightarrow> pdp \<noteq> Some ''ipv4''"
  by (auto simp: create_connection_def)

text \<open>A command goes to a device that is watched, the first one unless another is named.\<close>

lemma command_target:
  assumes "connect_device udi_of c udi w = (Inr (), w')"
  shows "\<exists>d. nw_sent w' = nw_sent w @ [Nm_Add_And_Activate c d] \<and> d \<in> nw_keys w \<and>
    (if udi = None \<or> udi = Some [] then d = fst (hd (nw_devices w)) else Some (udi_of d) = udi)"
proof -
  from assms obtain d where get: "get_device_from_list udi_of udi w = (Inr (Some d), w)"
    "nw_sent w' = nw_sent w @ [Nm_Add_And_Activate c d]"
    by (auto simp: connect_device_def on_device_def bnd_Inr nm_send_def get_device_from_list_def
        split: if_splits option.splits)
  show ?thesis
  proof (cases "udi = None \<or> udi = Some []")
    case True
    with get have "nw_devices w \<noteq> []" "d = fst (hd (nw_devices w))"
      by (auto simp: get_device_from_list_def split: if_splits)
    with True get(2) show ?thesis by (auto simp: nw_keys_def)
  next
    case False
    with get(1) have find: "List.find (\<lambda>d. Some (udi_of d) = udi) (map fst (nw_devices w)) = Some d"
      by (auto simp: get_device_from_list_def split: if_splits)
    then have "Some (udi_of d) = udi" "d \<in> set (map fst (nw_devices w))"
      by (auto simp: find_Some_iff intro!: imageI nth_mem)
    with False get(2) show ?thesis by (auto simp: nw_keys_def)
  qed
qed

end
