(* ===== verification/Dash_Auth.thy ===== *)
theory Dash_Auth
  imports Auth_Handlers Base64
begin

text \<open>
  The sessions of the dashboard: the tables of users and sessions (\<^verbatim>\<open>moat_dashboard/db.py\<close>),
  the validation, renewal and revocation of OIDC tokens, logging in and out, and the user of a
  request (\<^verbatim>\<open>moat_dashboard/auth.py\<close>). The OIDC provider, \<^verbatim>\<open>jwt\<close> and \<^verbatim>\<open>pydantic\<close>'s reading
  of UUIDs are parameters.
\<close>

section \<open>State\<close>

record dash_session =
  ds_user :: uuid
  ds_expires :: time
  ds_access :: "string option"
  ds_refresh :: "string option"
  ds_cookie :: bytes

record probe_props =
  pp_name :: "string option"
  pp_led :: "bool option"

text \<open>
  \<open>da_world\<close> is the state of the OIDC provider, \<open>da_published\<close> the messages sent to Redis, and
  \<open>da_oidc\<close> the cached OIDC configuration with the time it was fetched.
\<close>

record 'w dash =
  da_users :: "(uuid \<times> json) list"
  da_sessions :: "dash_session list"
  da_probes :: "(uuid \<times> probe_props) list"
  da_oidc :: "(time \<times> (string \<times> json) list) option"
  da_published :: "(string \<times> string) list"
  da_now :: time
  da_world :: 'w

datatype token_error = Tk_Expired | Tk_Invalid | Tk_Other

datatype dash_error = Dx_Http int | Dx_Token token_error | Dx_Exception

type_synonym ('w, 'a) dact = "(dash_error, 'w dash, 'a) eff"

record 'w oidc_env =
  oe_config :: "'w \<Rightarrow> (string \<times> json) list option \<times> 'w"
  oe_decode :: "string \<Rightarrow> string \<Rightarrow> 'w \<Rightarrow> (token_error + (string \<times> json) list) \<times> 'w"
  oe_post :: "string \<Rightarrow> (string \<times> string) list \<Rightarrow> 'w \<Rightarrow> http_response option \<times> 'w"
  oe_uuid :: "json \<Rightarrow> uuid option"
  oe_client_id :: string
  oe_audience_client :: "string option"

definition read_state :: "('s \<Rightarrow> 'a) \<Rightarrow> ('e, 's, 'a) eff" where
  "read_state f s = (Inr (f s), s)"

definition update_state :: "('s \<Rightarrow> 's) \<Rightarrow> ('e, 's, unit) eff" where
  "update_state f s = (Inr (), f s)"

text \<open>\<^verbatim>\<open>try\<close>: the handler runs in the state in which the exception was raised.\<close>

definition catch :: "('e, 's, 'a) eff \<Rightarrow> ('e \<Rightarrow> ('e, 's, 'a) eff) \<Rightarrow> ('e, 's, 'a) eff" where
  "catch m h s = (case m s of (Inl e, s') \<Rightarrow> h e s' | (Inr x, s') \<Rightarrow> (Inr x, s'))"

definition on_world :: "('w \<Rightarrow> 'a \<times> 'w) \<Rightarrow> ('w, 'a) dact" where
  "on_world f d = (case f (da_world d) of (x, w) \<Rightarrow> (Inr x, d\<lparr>da_world := w\<rparr>))"

section \<open>The tables\<close>

definition session_of :: "bytes \<Rightarrow> 'w dash \<Rightarrow> dash_session option" where
  "session_of cookie d = List.find (\<lambda>s. ds_cookie s = cookie) (da_sessions d)"

text \<open>\<^verbatim>\<open>get_user_auth\<close> joins the session with its user; it does not look at \<^verbatim>\<open>expires\<close>.\<close>

definition get_user_auth :: "bytes \<Rightarrow> 'w dash \<Rightarrow> (uuid \<times> string option) option" where
  "get_user_auth cookie d =
     (case session_of cookie d of
        None \<Rightarrow> None
      | Some s \<Rightarrow>
          if ds_user s \<in> fst ` set (da_users d) then Some (ds_user s, ds_access s) else None)"

definition get_session_refresh_token :: "bytes \<Rightarrow> 'w dash \<Rightarrow> string option" where
  "get_session_refresh_token cookie d =
     (case session_of cookie d of None \<Rightarrow> None | Some s \<Rightarrow> ds_refresh s)"

definition delete_session :: "bytes \<Rightarrow> ('w, string option list) dact" where
  "delete_session cookie d =
     (case session_of cookie d of
        None \<Rightarrow> (Inr [None, None], d)
      | Some s \<Rightarrow> (Inr [ds_access s, ds_refresh s],
          d\<lparr>da_sessions := filter (\<lambda>s. ds_cookie s \<noteq> cookie) (da_sessions d)\<rparr>))"

text \<open>
  \<^verbatim>\<open>update_session_token\<close>; the statement that would store new user information is not valid
  SQL, so it raises.
\<close>

definition update_session_token ::
  "bytes \<Rightarrow> string \<Rightarrow> string option \<Rightarrow> json option \<Rightarrow> ('w, unit) dact"
where
  "update_session_token cookie access_token refresh_token userinfo =
     bnd (update_state (\<lambda>d. d\<lparr>da_sessions := map (\<lambda>s.
         if ds_cookie s = cookie
         then s\<lparr>ds_access := Some access_token,
           ds_refresh := (if refresh_token \<noteq> None then refresh_token else ds_refresh s)\<rparr>
         else s) (da_sessions d)\<rparr>)) (\<lambda>_.
       if userinfo \<noteq> None then throw Dx_Exception else ret ())"

definition upsert :: "'k \<Rightarrow> 'v \<Rightarrow> ('k \<times> 'v) list \<Rightarrow> ('k \<times> 'v) list" where
  "upsert k v xs = (if k \<in> fst ` set xs then map (\<lambda>(k', v'). (k', if k' = k then v else v')) xs else xs @ [(k, v)])"

record token_info =
  ti_sub :: uuid
  ti_userinfo :: json
  ti_access :: string
  ti_refresh :: "string option"

text \<open>\<^verbatim>\<open>new_user_session\<close>; \<open>cookie\<close> are the random bytes. The column of cookies is unique.\<close>

definition new_user_session :: "bytes \<Rightarrow> time \<Rightarrow> token_info \<Rightarrow> ('w, bytes) dact" where
  "new_user_session cookie expires ti =
     bnd (update_state (\<lambda>d. d\<lparr>da_users := upsert (ti_sub ti) (ti_userinfo ti) (da_users d)\<rparr>)) (\<lambda>_.
     bnd (update_state (\<lambda>d. d\<lparr>da_sessions := filter (\<lambda>s. \<not> ds_expires s < da_now d) (da_sessions d)\<rparr>)) (\<lambda>_.
     bnd (read_state (session_of cookie)) (\<lambda>old.
       if old \<noteq> None then throw Dx_Exception
       else bnd (update_state (\<lambda>d. d\<lparr>da_sessions := da_sessions d @
              [\<lparr>ds_user = ti_sub ti, ds_expires = expires, ds_access = Some (ti_access ti),
                ds_refresh = ti_refresh ti, ds_cookie = cookie\<rparr>]\<rparr>)) (\<lambda>_. ret cookie))))"

section \<open>Tokens\<close>

text \<open>\<^verbatim>\<open>oidc_config\<close> with its cache of one hour.\<close>

definition oidc_config :: "'w oidc_env \<Rightarrow> ('w, (string \<times> json) list) dact" where
  "oidc_config env =
     bnd (read_state (\<lambda>d. case da_oidc d of
            None \<Rightarrow> True | Some (t, _) \<Rightarrow> da_now d - t > 3600 * 1000000)) (\<lambda>stale.
     bnd (if stale
          then bnd (on_world (oe_config env)) (\<lambda>config.
                 case config of
                   None \<Rightarrow> ret ()
                 | Some c \<Rightarrow> update_state (\<lambda>d. d\<lparr>da_oidc := Some (da_now d, c)\<rparr>))
          else ret ()) (\<lambda>_.
     bnd (read_state da_oidc) (\<lambda>config.
       case config of None \<Rightarrow> throw (Dx_Http 500) | Some (_, c) \<Rightarrow> ret c)))"

definition decode_token :: "'w oidc_env \<Rightarrow> string \<Rightarrow> string \<Rightarrow> ('w, (string \<times> json) list) dact" where
  "decode_token env token audience =
     bnd (on_world (oe_decode env token audience)) (\<lambda>r.
       case r of Inl e \<Rightarrow> throw (Dx_Token e) | Inr payload \<Rightarrow> ret payload)"

definition validate_access_token :: "'w oidc_env \<Rightarrow> string \<Rightarrow> ('w, (string \<times> json) list) dact" where
  "validate_access_token env token =
     bnd (oidc_config env) (\<lambda>_. decode_token env token ''moat-dashboard'')"

definition validate_id_token :: "'w oidc_env \<Rightarrow> string \<Rightarrow> ('w, (string \<times> json) list) dact" where
  "validate_id_token env token =
     bnd (oidc_config env) (\<lambda>_. decode_token env token
       (case oe_audience_client env of
          Some a \<Rightarrow> if a \<noteq> [] then a else oe_client_id env
        | None \<Rightarrow> oe_client_id env))"

definition revoke_token :: "'w oidc_env \<Rightarrow> string \<Rightarrow> ('w, bool) dact" where
  "revoke_token env token =
     bnd (oidc_config env) (\<lambda>config.
       case map_of config ''revocation_endpoint'' of
         Some (JStr url) \<Rightarrow>
           bnd (on_world (oe_post env url [(''token'', token)])) (\<lambda>r.
             ret (case r of None \<Rightarrow> False | Some res \<Rightarrow> \<not> (400 \<le> res_status res \<and> res_status res < 600)))
       | Some _ \<Rightarrow> throw Dx_Exception
       | None \<Rightarrow> ret False)"

definition obj_fields :: "json \<Rightarrow> (string \<times> json) list option" where
  "obj_fields j = (case j of JObj fs \<Rightarrow> Some fs | _ \<Rightarrow> None)"

text \<open>A field that \<^verbatim>\<open>pydantic\<close> reads as \<^verbatim>\<open>str | None\<close>.\<close>

fun opt_str :: "json option \<Rightarrow> ('w, string option) dact" where
  "opt_str None = ret None"
| "opt_str (Some JNull) = ret None"
| "opt_str (Some (JStr s)) = ret (Some s)"
| "opt_str (Some _) = throw Dx_Exception"

record token_response =
  tr_access :: string
  tr_refresh :: "string option"
  tr_userinfo :: "json option"

definition refresh_token_grant :: "'w oidc_env \<Rightarrow> string \<Rightarrow> ('w, token_response option) dact" where
  "refresh_token_grant env refresh_token =
     bnd (oidc_config env) (\<lambda>config.
       case map_of config ''token_endpoint'' of
         None \<Rightarrow> ret None
       | Some (JStr url) \<Rightarrow>
           bnd (on_world (oe_post env url [(''grant_type'', ''refresh_token''), (''refresh_token'', refresh_token)])) (\<lambda>r.
             case r of
               None \<Rightarrow> ret None
             | Some res \<Rightarrow>
                 (case obj_fields (res_json res) of
                    None \<Rightarrow> throw Dx_Exception
                  | Some fs \<Rightarrow>
                      if res_status res \<noteq> 200 then ret None
                      else
                        (case map_of fs ''access_token'' of
                           Some (JStr access_token) \<Rightarrow>
                             bnd (validate_access_token env access_token) (\<lambda>_.
                             bnd (case map_of fs ''ref'' of
                                    Some (JStr id_token) \<Rightarrow>
                                      bnd (validate_id_token env id_token) (\<lambda>p.
                                        case Option.bind (map_of p ''sub'') (oe_uuid env) of
                                          None \<Rightarrow> throw Dx_Exception
                                        | Some _ \<Rightarrow> ret (Some (JObj p)))
                                  | Some JNull \<Rightarrow> ret None
                                  | None \<Rightarrow> ret None
                                  | Some _ \<Rightarrow> throw Dx_Exception) (\<lambda>userinfo.
                             bnd (opt_str (map_of fs ''refresh_token'')) (\<lambda>refresh_token.
                               ret (Some \<lparr>tr_access = access_token, tr_refresh = refresh_token,
                                 tr_userinfo = userinfo\<rparr>))))
                         | Some JNull \<Rightarrow> ret None
                         | None \<Rightarrow> ret None
                         | Some _ \<Rightarrow> throw Dx_Exception)))
       | Some _ \<Rightarrow> throw Dx_Exception)"

section \<open>Sessions\<close>

fun revoke_all :: "'w oidc_env \<Rightarrow> string option list \<Rightarrow> ('w, unit) dact" where
  "revoke_all env [] = ret ()"
| "revoke_all env (None # ts) = revoke_all env ts"
| "revoke_all env (Some t # ts) = bnd (revoke_token env t) (\<lambda>_. revoke_all env ts)"

definition destroy_session :: "'w oidc_env \<Rightarrow> bytes \<Rightarrow> ('w, unit) dact" where
  "destroy_session env cookie = bnd (delete_session cookie) (revoke_all env)"

definition refresh_session :: "'w oidc_env \<Rightarrow> bytes \<Rightarrow> ('w, string option) dact" where
  "refresh_session env cookie =
     bnd (read_state (get_session_refresh_token cookie)) (\<lambda>refresh_token.
       case refresh_token of
         None \<Rightarrow> ret None
       | Some t \<Rightarrow>
           bnd (refresh_token_grant env t) (\<lambda>res.
             case res of
               None \<Rightarrow> ret None
             | Some r \<Rightarrow>
                 bnd (update_session_token cookie (tr_access r) (tr_refresh r) (tr_userinfo r)) (\<lambda>_.
                   ret (Some (tr_access r)))))"

definition b64_cookie :: "string \<Rightarrow> ('w, bytes) dact" where
  "b64_cookie s = (case b64decode_lenient s of None \<Rightarrow> throw Dx_Exception | Some bs \<Rightarrow> ret bs)"

text \<open>\<^verbatim>\<open>logout\<close>: the answer is a redirection and whether it deletes the cookie.\<close>

definition dash_logout :: "'w oidc_env \<Rightarrow> string option \<Rightarrow> ('w, bool) dact" where
  "dash_logout env session =
     (case session of
        None \<Rightarrow> ret False
      | Some s \<Rightarrow> bnd (b64_cookie s) (\<lambda>cookie. bnd (destroy_session env cookie) (\<lambda>_. ret True)))"


text \<open>
  \<^verbatim>\<open>authorize\<close>: \<open>token\<close> is what the OIDC client makes of the redirection, \<open>None\<close> when it
  raises; \<open>random\<close> are the bytes of the new cookie. The session lasts as long as the refresh
  token, or a year.
\<close>

definition token_info_of :: "'w oidc_env \<Rightarrow> (string \<times> json) list \<Rightarrow> token_info option" where
  "token_info_of env token =
     (case (map_of token ''userinfo'', map_of token ''access_token'', map_of token ''refresh_token'') of
        (Some (JObj ui), Some (JStr access), Some refresh) \<Rightarrow>
          (case (Option.bind (map_of ui ''sub'') (oe_uuid env), refresh) of
             (Some sub, JNull) \<Rightarrow> Some \<lparr>ti_sub = sub, ti_userinfo = JObj ui, ti_access = access, ti_refresh = None\<rparr>
           | (Some sub, JStr r) \<Rightarrow> Some \<lparr>ti_sub = sub, ti_userinfo = JObj ui, ti_access = access, ti_refresh = Some r\<rparr>
           | _ \<Rightarrow> None)
      | _ \<Rightarrow> None)"

definition session_lifetime :: "(string \<times> json) list \<Rightarrow> int" where
  "session_lifetime token =
     (case map_of token ''refresh_expires_in'' of
        Some (JInt n) \<Rightarrow> if n \<noteq> 0 then n else 31556926
      | _ \<Rightarrow> 31556926)"

definition dash_authorize ::
  "'w oidc_env \<Rightarrow> (string \<times> json) list option \<Rightarrow> string option \<Rightarrow> bytes \<Rightarrow> ('w, string) dact"
where
  "dash_authorize env token session random =
     (case token of
        None \<Rightarrow> throw (Dx_Http 500)
      | Some token \<Rightarrow>
          (case (map_of token ''access_token'', map_of token ''id_token'') of
             (Some (JStr access_token), Some (JStr id_token)) \<Rightarrow>
               bnd (catch
                     (bnd (validate_access_token env access_token) (\<lambda>_.
                      bnd (validate_id_token env id_token) (\<lambda>_. ret ())))
                     (\<lambda>_. throw (Dx_Http 500))) (\<lambda>_.
               bnd (case session of
                      None \<Rightarrow> ret ()
                    | Some s \<Rightarrow> bnd (b64_cookie s) (destroy_session env)) (\<lambda>_.
               bnd (read_state da_now) (\<lambda>now.
                 case token_info_of env token of
                   None \<Rightarrow> throw Dx_Exception
                 | Some ti \<Rightarrow>
                     bnd (new_user_session random (now + session_lifetime token * 1000000) ti) (\<lambda>cookie.
                       ret (b64encode cookie)))))
           | _ \<Rightarrow> throw (Dx_Http 500)))"

section \<open>The user of a request\<close>

record user_info =
  ui_id :: uuid
  ui_admin :: bool
  ui_hosted :: "uuid list"

text \<open>\<^verbatim>\<open>str.split()\<close>.\<close>

definition is_space :: "char \<Rightarrow> bool" where
  "is_space c \<longleftrightarrow> of_char c \<in> {9, 10, 11, 12, 13, 28, 29, 30, 31, 32 :: nat}"

fun split_ws :: "string \<Rightarrow> string \<Rightarrow> string list" where
  "split_ws acc [] = (if acc = [] then [] else [acc])"
| "split_ws acc (c # cs) =
     (if is_space c then (if acc = [] then split_ws [] cs else acc # split_ws [] cs)
      else split_ws (acc @ [c]) cs)"

definition token_scopes :: "(string \<times> json) list \<Rightarrow> ('w, json list) dact" where
  "token_scopes payload =
     (case map_of payload ''scope'' of
        Some (JStr s) \<Rightarrow> ret (map JStr (split_ws [] s))
      | Some _ \<Rightarrow> throw Dx_Exception
      | None \<Rightarrow>
          (case map_of payload ''scp'' of
             Some (JList l) \<Rightarrow> ret l
           | Some _ \<Rightarrow> throw Dx_Exception
           | None \<Rightarrow> ret []))"

definition realm_admin :: "(string \<times> json) list \<Rightarrow> ('w, bool) dact" where
  "realm_admin payload =
     (case map_of payload ''realm_access'' of
        None \<Rightarrow> ret False
      | Some (JObj access) \<Rightarrow>
          ret (case map_of access ''roles'' of Some (JList roles) \<Rightarrow> JStr ''admin'' \<in> set roles | _ \<Rightarrow> False)
      | Some _ \<Rightarrow> throw Dx_Exception)"

fun all_uuids :: "'w oidc_env \<Rightarrow> json list \<Rightarrow> uuid list option" where
  "all_uuids env [] = Some []"
| "all_uuids env (j # js) =
     (case (oe_uuid env j, all_uuids env js) of (Some u, Some us) \<Rightarrow> Some (u # us) | _ \<Rightarrow> None)"

definition hosted_probes_of :: "'w oidc_env \<Rightarrow> (string \<times> json) list \<Rightarrow> json list \<Rightarrow> ('w, uuid list) dact" where
  "hosted_probes_of env payload scopes =
     (if JStr ''hosted_probes'' \<in> set scopes then
        (case map_of payload ''hosted_probes'' of
           None \<Rightarrow> ret []
         | Some (JList l) \<Rightarrow> (case all_uuids env l of None \<Rightarrow> throw Dx_Exception | Some us \<Rightarrow> ret us)
         | Some _ \<Rightarrow> throw Dx_Exception)
      else ret [])"

text \<open>
  The access token of the session is validated; if it has expired it is renewed once. The
  payload, or \<open>None\<close> after the session has been destroyed.
\<close>

definition renewed_payload :: "'w oidc_env \<Rightarrow> bytes \<Rightarrow> ('w, (string \<times> json) list option) dact" where
  "renewed_payload env cookie =
     bnd (refresh_session env cookie) (\<lambda>access_token.
       catch
         (case access_token of
            None \<Rightarrow> throw Dx_Exception
          | Some t \<Rightarrow> bnd (validate_access_token env t) (\<lambda>payload. ret (Some payload)))
         (\<lambda>_. bnd (destroy_session env cookie) (\<lambda>_. ret None)))"

definition token_payload :: "'w oidc_env \<Rightarrow> bytes \<Rightarrow> string \<Rightarrow> ('w, (string \<times> json) list option) dact" where
  "token_payload env cookie access_token =
     catch
       (catch (bnd (validate_access_token env access_token) (\<lambda>payload. ret (Some payload)))
         (\<lambda>e. if e = Dx_Token Tk_Expired then renewed_payload env cookie else throw e))
       (\<lambda>e. if e = Dx_Token Tk_Expired \<or> e = Dx_Token Tk_Invalid
            then bnd (destroy_session env cookie) (\<lambda>_. ret None) else throw e)"

definition user_of_payload ::
  "'w oidc_env \<Rightarrow> string list \<Rightarrow> uuid \<Rightarrow> (string \<times> json) list \<Rightarrow> ('w, user_info) dact"
where
  "user_of_payload env scopes user_id payload =
     bnd (token_scopes payload) (\<lambda>have.
       if \<exists>s \<in> set scopes. JStr s \<notin> set have then throw (Dx_Http 403)
       else
         bnd (realm_admin payload) (\<lambda>admin.
         bnd (hosted_probes_of env payload have) (\<lambda>hosted.
           ret \<lparr>ui_id = user_id, ui_admin = admin, ui_hosted = hosted\<rparr>)))"

text \<open>The result is the user and whether the cookie is deleted.\<close>

definition get_user_optional ::
  "'w oidc_env \<Rightarrow> string list \<Rightarrow> string option \<Rightarrow> ('w, user_info option \<times> bool) dact"
where
  "get_user_optional env scopes session =
     (case session of
        None \<Rightarrow> ret (None, False)
      | Some s \<Rightarrow>
          bnd (b64_cookie s) (\<lambda>cookie.
          bnd (read_state (get_user_auth cookie)) (\<lambda>user.
            case user of
              None \<Rightarrow> ret (None, True)
            | Some (user_id, access_token) \<Rightarrow>
                bnd (case access_token of Some t \<Rightarrow> ret (Some t) | None \<Rightarrow> refresh_session env cookie) (\<lambda>access_token.
                  case access_token of
                    None \<Rightarrow> bnd (destroy_session env cookie) (\<lambda>_. ret (None, True))
                  | Some t \<Rightarrow>
                      bnd (token_payload env cookie t) (\<lambda>payload.
                        case payload of
                          None \<Rightarrow> ret (None, True)
                        | Some payload \<Rightarrow>
                            bnd (user_of_payload env scopes user_id payload) (\<lambda>ui. ret (Some ui, False)))))))"

definition get_user :: "'w oidc_env \<Rightarrow> string list \<Rightarrow> string option \<Rightarrow> ('w, user_info) dact" where
  "get_user env scopes session =
     bnd (get_user_optional env scopes session) (\<lambda>(user, _).
       case user of Some ui \<Rightarrow> ret ui | None \<Rightarrow> throw (Dx_Http 401))"

text \<open>
  A request runs in a transaction of the dashboard's database: an exception takes back what it
  did to the tables, not what it did elsewhere.
\<close>

definition dash_transaction :: "('w, 'a) dact \<Rightarrow> ('w, 'a) dact" where
  "dash_transaction m d =
     (case m d of
        (Inr x, d') \<Rightarrow> (Inr x, d')
      | (Inl e, d') \<Rightarrow>
          (Inl e, d'\<lparr>da_users := da_users d, da_sessions := da_sessions d, da_probes := da_probes d\<rparr>))"

section \<open>Tokens against forged requests\<close>

text \<open>The signed session of a browser holds at most one token.\<close>

definition csrf_token :: "string \<Rightarrow> user_info option \<Rightarrow> string option \<Rightarrow> string option \<times> string option" where
  "csrf_token random user held = (case user of None \<Rightarrow> (None, held) | Some _ \<Rightarrow> (Some random, Some random))"

definition check_csrf_token :: "string \<Rightarrow> string option \<Rightarrow> (dash_error + unit) \<times> string option" where
  "check_csrf_token token held = ((if held = Some token then Inr () else Inl (Dx_Http 403)), None)"


section \<open>What the operations leave alone\<close>

text \<open>
  A relation between the states before and after that the single updates respect holds for
  every operation on sessions but the login.
\<close>

locale auth_frame =
  fixes R :: "'w dash \<Rightarrow> 'w dash \<Rightarrow> bool"
  assumes R_refl: "R d d"
    and R_trans: "R d d' \<Longrightarrow> R d' d'' \<Longrightarrow> R d d''"
    and R_world: "R d (d\<lparr>da_world := w\<rparr>)"
    and R_oidc: "R d (d\<lparr>da_oidc := c\<rparr>)"
    and R_delete: "R d (d\<lparr>da_sessions := filter P (da_sessions d)\<rparr>)"
    and R_tokens: "(\<And>s. ds_cookie (f s) = ds_cookie s \<and> ds_user (f s) = ds_user s) \<Longrightarrow>
      R d (d\<lparr>da_sessions := map f (da_sessions d)\<rparr>)"
begin

definition framed :: "('w, 'a) dact \<Rightarrow> bool" where
  "framed m \<longleftrightarrow> (\<forall>d. R d (snd (m d)))"

named_theorems frame

lemma framed_ret [frame]: "framed (ret x)" and framed_throw [frame]: "framed (throw e)"
  and framed_read [frame]: "framed (read_state h)"
  by (simp_all add: framed_def R_refl read_state_def)

lemma framed_bnd [frame]:
  assumes "framed m" "\<And>x. framed (f x)"
  shows "framed (bnd m f)"
  unfolding framed_def
proof
  fix d
  obtain r d' where m: "m d = (r, d')" by fastforce
  with assms(1) have "R d d'" unfolding framed_def by (metis snd_conv)
  moreover have "R d' (snd (f x d'))" for x using assms(2) by (simp add: framed_def)
  ultimately show "R d (snd (bnd m f d))" using m by (cases r) (auto simp: bnd_def intro: R_trans)
qed

lemma framed_catch [frame]:
  assumes "framed m" "\<And>e. framed (h e)"
  shows "framed (catch m h)"
  unfolding framed_def
proof
  fix d
  obtain r d' where m: "m d = (r, d')" by fastforce
  with assms(1) have "R d d'" unfolding framed_def by (metis snd_conv)
  moreover have "R d' (snd (h e d'))" for e using assms(2) by (simp add: framed_def)
  ultimately show "R d (snd (catch m h d))" using m by (cases r) (auto simp: catch_def intro: R_trans)
qed

lemma framed_world [frame]: "framed (on_world g)"
  by (auto simp: framed_def on_world_def R_world split: prod.split)

lemma framed_oidc_config [frame]: "framed (oidc_config env)"
proof -
  have [frame]: "framed (update_state (\<lambda>d. d\<lparr>da_oidc := Some (da_now d, c)\<rparr>))" for c
    by (simp add: framed_def update_state_def R_oidc)
  show ?thesis unfolding oidc_config_def
    by (intro frame | (split option.split sum.split json.split prod.split if_split; intro conjI allI impI))+
qed

lemma framed_decode [frame]: "framed (decode_token env t a)"
  unfolding decode_token_def by (intro frame | (split option.split sum.split json.split prod.split if_split; intro conjI allI impI))+

lemma framed_validate [frame]:
  "framed (validate_access_token env t)" "framed (validate_id_token env t)"
  unfolding validate_access_token_def validate_id_token_def by (intro frame)+

lemma framed_revoke [frame]: "framed (revoke_token env t)"
  unfolding revoke_token_def by (intro frame | (split option.split sum.split json.split prod.split if_split; intro conjI allI impI))+

lemma framed_revoke_all [frame]: "framed (revoke_all env ts)"
  by (induction env ts rule: revoke_all.induct) (simp_all only: revoke_all.simps framed_ret framed_bnd framed_revoke)

lemma framed_opt_str [frame]: "framed (opt_str x)"
  by (cases x rule: opt_str.cases) (simp_all only: opt_str.simps framed_ret framed_throw)

lemma framed_grant [frame]: "framed (refresh_token_grant env t)"
  unfolding refresh_token_grant_def
  by (intro frame | (split option.split sum.split json.split prod.split if_split; intro conjI allI impI))+

lemma framed_delete [frame]: "framed (delete_session cookie)"
  unfolding delete_session_def framed_def by (auto simp: R_refl R_delete split: option.split)

lemma framed_destroy [frame]: "framed (destroy_session env cookie)"
  unfolding destroy_session_def by (intro frame)

lemma framed_update_token [frame]: "framed (update_session_token cookie a r u)"
proof -
  have [frame]: "framed (update_state (\<lambda>d. d\<lparr>da_sessions := map (\<lambda>s.
      if ds_cookie s = cookie then s\<lparr>ds_access := Some a, ds_refresh := (if r \<noteq> None then r else ds_refresh s)\<rparr>
      else s) (da_sessions d)\<rparr>))"
    unfolding framed_def update_state_def snd_conv by (intro allI R_tokens) simp
  show ?thesis unfolding update_session_token_def by (intro frame | (split if_split; intro conjI impI))+
qed

lemma framed_refresh [frame]: "framed (refresh_session env cookie)"
  unfolding refresh_session_def by (intro frame | (split option.split sum.split json.split prod.split if_split; intro conjI allI impI))+

lemma framed_cookie [frame]: "framed (b64_cookie s)"
  unfolding b64_cookie_def by (intro frame | (split option.split sum.split json.split prod.split if_split; intro conjI allI impI))+

lemma framed_logout: "framed (dash_logout env session)"
  unfolding dash_logout_def by (intro frame | (split option.split sum.split json.split prod.split if_split; intro conjI allI impI))+

lemma framed_payload [frame]: "framed (renewed_payload env cookie)" "framed (token_payload env cookie t)"
proof -
  show renewed: "framed (renewed_payload env cookie)"
    unfolding renewed_payload_def by (intro frame | (split option.split sum.split json.split prod.split if_split; intro conjI allI impI))+
  then show "framed (token_payload env cookie t)"
    unfolding token_payload_def
    by (intro frame | assumption | (split if_split; intro conjI impI))+
qed

lemma framed_user_of_payload [frame]: "framed (user_of_payload env scopes u p)"
  unfolding user_of_payload_def token_scopes_def realm_admin_def hosted_probes_of_def
  by (intro frame | (split option.split sum.split json.split prod.split if_split; intro conjI allI impI))+

lemma framed_get_user_optional [frame]: "framed (get_user_optional env scopes session)"
  unfolding get_user_optional_def
  by (intro frame | (split option.split sum.split json.split prod.split if_split; intro conjI allI impI))+

lemma framed_get_user: "framed (get_user env scopes session)"
  unfolding get_user_def by (intro frame | (split option.split sum.split json.split prod.split if_split; intro conjI allI impI))+

lemma framedD: "framed m \<Longrightarrow> m d = (r, d') \<Longrightarrow> R d d'"
  by (metis framed_def snd_conv)

end


text \<open>The first instance: no session appears, changes its user or its cookie; nothing else changes.\<close>

definition session_ids :: "'w dash \<Rightarrow> (bytes \<times> uuid) set" where
  "session_ids d = (\<lambda>s. (ds_cookie s, ds_user s)) ` set (da_sessions d)"

definition only_sessions_go :: "'w dash \<Rightarrow> 'w dash \<Rightarrow> bool" where
  "only_sessions_go d d' \<longleftrightarrow> session_ids d' \<subseteq> session_ids d \<and> da_users d' = da_users d \<and>
     da_probes d' = da_probes d \<and> da_published d' = da_published d \<and> da_now d' = da_now d"

interpretation sessions_frame: auth_frame only_sessions_go
proof unfold_locales
  fix d d' d'' :: "'a dash"
  show "only_sessions_go d d' \<Longrightarrow> only_sessions_go d' d'' \<Longrightarrow> only_sessions_go d d''"
    by (auto simp: only_sessions_go_def)
qed (auto simp: only_sessions_go_def session_ids_def)

text \<open>The second: cookies stay unique.\<close>

definition unique_cookies :: "'w dash \<Rightarrow> bool" where
  "unique_cookies d \<longleftrightarrow> distinct (map ds_cookie (da_sessions d))"

definition cookies_stay_unique :: "'w dash \<Rightarrow> 'w dash \<Rightarrow> bool" where
  "cookies_stay_unique d d' \<longleftrightarrow> (unique_cookies d \<longrightarrow> unique_cookies d')"

interpretation unique_frame: auth_frame cookies_stay_unique
proof unfold_locales
  fix P and d :: "'a dash"
  show "cookies_stay_unique d (d\<lparr>da_sessions := filter P (da_sessions d)\<rparr>)"
    by (simp add: cookies_stay_unique_def unique_cookies_def distinct_map_filter)
next
  fix f :: "dash_session \<Rightarrow> dash_session" and d :: "'a dash"
  assume "\<And>s. ds_cookie (f s) = ds_cookie s \<and> ds_user (f s) = ds_user s"
  then have "ds_cookie \<circ> f = ds_cookie" by auto
  then show "cookies_stay_unique d (d\<lparr>da_sessions := map f (da_sessions d)\<rparr>)"
    by (simp add: cookies_stay_unique_def unique_cookies_def)
qed (auto simp: cookies_stay_unique_def unique_cookies_def)

section \<open>Who a cookie stands for\<close>

text \<open>
  The dashboard over time: \<open>issued\<close> are the cookies handed out, with their users, and \<open>ended\<close>
  those that were logged out. New cookies were never seen before.
\<close>

inductive dash_reach :: "'w oidc_env \<Rightarrow> (bytes \<times> uuid) set \<Rightarrow> bytes set \<Rightarrow> 'w dash \<Rightarrow> bool" for env where
  start: "dash_reach env {} {} \<lparr>da_users = [], da_sessions = [], da_probes = ps, da_oidc = None,
      da_published = [], da_now = t, da_world = w\<rparr>"
| passes: "dash_reach env issued ended d \<Longrightarrow> dash_reach env issued ended (d\<lparr>da_now := t, da_world := w\<rparr>)"
| login: "dash_reach env issued ended d \<Longrightarrow> random \<notin> fst ` issued \<Longrightarrow> random \<notin> ended \<Longrightarrow>
    token_info_of env token = Some ti \<Longrightarrow>
    dash_transaction (dash_authorize env (Some token) session random) d = (Inr c, d') \<Longrightarrow>
    dash_reach env (insert (random, ti_sub ti) issued) ended d'"
| login_failed: "dash_reach env issued ended d \<Longrightarrow>
    dash_transaction (dash_authorize env token session random) d = (Inl e, d') \<Longrightarrow> dash_reach env issued ended d'"
| logout: "dash_reach env issued ended d \<Longrightarrow> b64decode_lenient s = Some cookie \<Longrightarrow>
    dash_transaction (dash_logout env (Some s)) d = (Inr b, d') \<Longrightarrow>
    dash_reach env issued (insert cookie ended) d'"
| logout_failed: "dash_reach env issued ended d \<Longrightarrow>
    dash_transaction (dash_logout env session) d = (Inl e, d') \<Longrightarrow> dash_reach env issued ended d'"
| request: "dash_reach env issued ended d \<Longrightarrow>
    dash_transaction (get_user_optional env scopes session) d = (r, d') \<Longrightarrow> dash_reach env issued ended d'"

lemma dash_transaction_Inr: "dash_transaction m d = (Inr x, d') \<longleftrightarrow> m d = (Inr x, d')"
  by (auto simp: dash_transaction_def split: prod.splits sum.splits)

lemma dash_transaction_Inl:
  "dash_transaction m d = (Inl e, d') \<Longrightarrow> da_sessions d' = da_sessions d \<and> da_users d' = da_users d \<and> da_probes d' = da_probes d"
  by (auto simp: dash_transaction_def split: prod.splits sum.splits)

lemma session_ids_cong: "da_sessions d' = da_sessions d \<Longrightarrow> session_ids d' = session_ids d"
  by (simp add: session_ids_def)

lemma dash_transaction_frame:
  assumes "sessions_frame.framed m" "dash_transaction m d = (r, d')"
  shows "session_ids d' \<subseteq> session_ids d"
proof (cases r)
  case (Inl e)
  with assms(2) dash_transaction_Inl [of m d e d'] show ?thesis by (simp add: session_ids_def)
next
  case (Inr x)
  with assms(2) have "m d = (Inr x, d')" by (simp add: dash_transaction_Inr)
  from sessions_frame.framedD [OF assms(1) this] show ?thesis by (simp add: only_sessions_go_def)
qed

text \<open>After a successful logout the cookie has no session.\<close>

lemma delete_session_gone:
  "delete_session cookie d = (r, d') \<Longrightarrow> cookie \<notin> fst ` session_ids d'"
  by (auto simp: delete_session_def session_of_def session_ids_def find_None_iff split: option.splits)

lemma logout_gone:
  assumes "dash_logout env (Some s) d = (Inr b, d')" "b64decode_lenient s = Some cookie"
  shows "cookie \<notin> fst ` session_ids d'"
proof -
  obtain ts d1 where d1: "delete_session cookie d = (Inr ts, d1)" "revoke_all env ts d1 = (Inr (), d')"
    using assms by (auto simp: dash_logout_def b64_cookie_def destroy_session_def bnd_Inr)
  from sessions_frame.framedD [OF sessions_frame.framed_revoke_all d1(2)]
  have "session_ids d' \<subseteq> session_ids d1" by (simp add: only_sessions_go_def)
  with delete_session_gone [OF d1(1)] show ?thesis by blast
qed

lemma new_user_session_ids:
  "new_user_session random expires ti d = (Inr c, d') \<Longrightarrow>
     session_ids d' \<subseteq> insert (random, ti_sub ti) (session_ids d)"
  by (auto simp: new_user_session_def bnd_Inr update_state_def read_state_def session_ids_def split: if_splits)

lemma authorize_ids:
  assumes "dash_authorize env (Some token) session random d = (Inr c, d')" "token_info_of env token = Some ti"
  shows "session_ids d' \<subseteq> insert (random, ti_sub ti) (session_ids d)"
proof -
  from assms obtain a i where tok: "map_of token ''access_token'' = Some (JStr a)"
    "map_of token ''id_token'' = Some (JStr i)"
    by (auto simp: dash_authorize_def split: option.splits json.splits)
  let ?check = "catch (bnd (validate_access_token env a) (\<lambda>_. bnd (validate_id_token env i) (\<lambda>_. ret ())))
      (\<lambda>_. throw (Dx_Http 500))"
  let ?old = "case session of None \<Rightarrow> ret () | Some s \<Rightarrow> bnd (b64_cookie s) (destroy_session env)"
  obtain d1 d2 c' where run: "?check d = (Inr (), d1)" "?old d1 = (Inr (), d2)"
    "new_user_session random (da_now d2 + session_lifetime token * 1000000) ti d2 = (Inr c', d')"
    using assms tok by (auto simp: dash_authorize_def bnd_Inr read_state_def)
  have "sessions_frame.framed ?check" "sessions_frame.framed ?old"
    by (intro sessions_frame.frame | (split option.split; intro conjI allI impI))+
  from sessions_frame.framedD [OF this(1) run(1)] sessions_frame.framedD [OF this(2) run(2)]
  have "session_ids d2 \<subseteq> session_ids d" by (auto simp: only_sessions_go_def)
  with new_user_session_ids [OF run(3)] show ?thesis by blast
qed

lemma reach_sessions:
  "dash_reach env issued ended d \<Longrightarrow>
     session_ids d \<subseteq> issued \<and> fst ` session_ids d \<inter> ended = {}"
proof (induction rule: dash_reach.induct)
  case (login issued ended d random token ti session c d')
  from login.hyps(5) have "dash_authorize env (Some token) session random d = (Inr c, d')"
    by (simp add: dash_transaction_Inr)
  from authorize_ids [OF this login.hyps(4)] login show ?case by fastforce
next
  case (login_failed issued ended d token session random e d')
  from dash_transaction_Inl [OF login_failed.hyps(2)] login_failed.IH show ?case by (simp add: session_ids_def)
next
  case (logout issued ended d s cookie b d')
  from logout.hyps(3) have run: "dash_logout env (Some s) d = (Inr b, d')" by (simp add: dash_transaction_Inr)
  from dash_transaction_frame [OF sessions_frame.framed_logout logout.hyps(3)] logout_gone [OF run logout.hyps(2)] logout.IH
  show ?case by blast
next
  case (logout_failed issued ended d session e d')
  from dash_transaction_frame [OF sessions_frame.framed_logout logout_failed.hyps(2)] logout_failed.IH show ?case by blast
next
  case (request issued ended d scopes session r d')
  from dash_transaction_frame [OF sessions_frame.framed_get_user_optional request.hyps(2)] request.IH show ?case by blast
qed (simp_all add: session_ids_def)

lemma user_needs_session:
  assumes "get_user_optional env scopes (Some s) d = (Inr (Some ui, b), d')"
  shows "\<exists>cookie. b64decode_lenient s = Some cookie \<and> (cookie, ui_id ui) \<in> session_ids d"
proof -
  obtain cookie where c: "b64decode_lenient s = Some cookie"
    using assms by (cases "b64decode_lenient s") (auto simp: get_user_optional_def b64_cookie_def)
  with assms obtain u at where u: "get_user_auth cookie d = Some (u, at)"
    by (cases "get_user_auth cookie d") (auto simp: get_user_optional_def b64_cookie_def read_state_def bnd_def)
  then obtain row where "session_of cookie d = Some row" "ds_user row = u"
    by (auto simp: get_user_auth_def split: option.splits if_splits)
  then have mem: "(cookie, u) \<in> session_ids d"
    by (auto simp: session_of_def session_ids_def find_Some_iff intro!: image_eqI)
  have "ui_id ui = u"
    using assms c u
    by (auto simp: get_user_optional_def b64_cookie_def read_state_def bnd_Inr user_of_payload_def
        split: option.splits if_splits)
  with c mem show ?thesis by blast
qed

text \<open>
  C20: Only a login makes a user: whoever the dashboard takes a request's cookie for has logged
  in and been given exactly this cookie, and the cookie has not been logged out since, whatever
  logins, logouts and requests of others, failed ones included, happened in between.
\<close>
theorem dash_login_sound:
  assumes "dash_reach env issued ended d"
    "dash_transaction (get_user_optional env scopes (Some s)) d = (Inr (Some ui, b), d')"
  shows "\<exists>cookie. b64decode_lenient s = Some cookie \<and> (cookie, ui_id ui) \<in> issued \<and> cookie \<notin> ended"
proof -
  from assms(2) have "get_user_optional env scopes (Some s) d = (Inr (Some ui, b), d')"
    by (simp add: dash_transaction_Inr)
  from user_needs_session [OF this] reach_sessions [OF assms(1)] show ?thesis by fastforce
qed


text \<open>
  A session outlives its end: the time until which a session is valid is stored, but a
  request is answered for the user of an expired session as long as the access token validates.
\<close>
theorem expired_session_accepted:
  assumes "b64decode_lenient s = Some cookie" "session_of cookie d = Some row"
    "ds_user row \<in> fst ` set (da_users d)" "ds_access row = Some t" "ds_expires row < da_now d"
    "validate_access_token env t d = (Inr payload, d1)"
    "user_of_payload env scopes (ds_user row) payload d1 = (Inr ui, d2)"
  shows "dash_transaction (get_user_optional env scopes (Some s)) d = (Inr (Some ui, False), d2)"
proof -
  have "token_payload env cookie t d = (Inr (Some payload), d1)"
    using assms(6) by (simp add: token_payload_def catch_def bnd_def)
  with assms show ?thesis
    by (simp add: dash_transaction_Inr get_user_optional_def b64_cookie_def read_state_def bnd_def get_user_auth_def)
qed

section \<open>A login\<close>

definition demo_oidc :: "unit oidc_env" where
  "demo_oidc = \<lparr>oe_config = (\<lambda>w. (Some [(''token_endpoint'', JStr ''t''), (''revocation_endpoint'', JStr ''r'')], w)),
     oe_decode = (\<lambda>t a w. (Inr [(''scope'', JStr ''openid hosted_probes''), (''hosted_probes'', JList [JStr ''p''])], w)),
     oe_post = (\<lambda>url data w. (None, w)), oe_uuid = (\<lambda>j. if j = JNull then None else Some 7),
     oe_client_id = ''dash'', oe_audience_client = None\<rparr>"

definition demo_token :: "(string \<times> json) list" where
  "demo_token = [(''access_token'', JStr ''a''), (''id_token'', JStr ''i''), (''refresh_token'', JNull),
     (''userinfo'', JObj [(''sub'', JStr ''u'')])]"

definition demo_dash :: "unit dash" where
  "demo_dash = \<lparr>da_users = [], da_sessions = [], da_probes = [], da_oidc = None, da_published = [],
     da_now = 0, da_world = ()\<rparr>"

definition demo_logged_in :: "unit dash" where
  "demo_logged_in = \<lparr>da_users = [(7, JObj [(''sub'', JStr ''u'')])],
     da_sessions = [\<lparr>ds_user = 7, ds_expires = 31556926000000, ds_access = Some ''a'', ds_refresh = None,
       ds_cookie = [1, 2, 3]\<rparr>],
     da_probes = [], da_oidc = Some (0, [(''token_endpoint'', JStr ''t''), (''revocation_endpoint'', JStr ''r'')]),
     da_published = [], da_now = 0, da_world = ()\<rparr>"

definition demo_user :: user_info where
  "demo_user = \<lparr>ui_id = 7, ui_admin = False, ui_hosted = [7]\<rparr>"

lemma demo_login:
  "dash_transaction (dash_authorize demo_oidc (Some demo_token) None [1, 2, 3]) demo_dash =
     (Inr (b64encode [1, 2, 3]), demo_logged_in)"
  by code_simp

lemma demo_dash_reach: "dash_reach demo_oidc {([1, 2, 3], 7)} {} demo_logged_in"
proof -
  have info: "token_info_of demo_oidc demo_token =
      Some \<lparr>ti_sub = 7, ti_userinfo = JObj [(''sub'', JStr ''u'')], ti_access = ''a'', ti_refresh = None\<rparr>"
    by code_simp
  have "dash_reach demo_oidc {} {} demo_dash" unfolding demo_dash_def by (rule dash_reach.start)
  from dash_reach.login [OF this _ _ info demo_login] show ?thesis by simp
qed

lemma demo_request:
  "dash_transaction (get_user_optional demo_oidc [] (Some (b64encode [1, 2, 3]))) demo_logged_in =
     (Inr (Some demo_user, False), demo_logged_in)"
  by code_simp

lemma dash_login_sound_witness:
  "\<exists>cookie. b64decode_lenient (b64encode [1, 2, 3]) = Some cookie \<and>
     (cookie, ui_id demo_user) \<in> {([1, 2, 3], 7)} \<and> cookie \<notin> {}"
  by (rule dash_login_sound [OF demo_dash_reach demo_request])

lemma expired_session_accepted_witness:
  "dash_transaction (get_user_optional demo_oidc [] (Some (b64encode [1, 2, 3])))
     (demo_logged_in\<lparr>da_now := 31556926000001, da_oidc := Some (31556926000000, [])\<rparr>) =
   (Inr (Some demo_user, False), demo_logged_in\<lparr>da_now := 31556926000001, da_oidc := Some (31556926000000, [])\<rparr>)"
  by (rule expired_session_accepted [where cookie = "[1, 2, 3]" and t = "''a''" and
        row = "\<lparr>ds_user = 7, ds_expires = 31556926000000, ds_access = Some ''a'', ds_refresh = None, ds_cookie = [1, 2, 3]\<rparr>"
        and payload = "[(''scope'', JStr ''openid hosted_probes''), (''hosted_probes'', JList [JStr ''p''])]"])
    (simp, code_simp+)

end
