(* ===== verification/Dash_Pages.thy ===== *)
theory Dash_Pages
  imports Dash_Auth Mgmt_Probes "HOL-Library.Product_Lexorder" "HOL-Library.Multiset"
begin

text \<open>
  The pages of the dashboard: the queries on the management database
  (\<^verbatim>\<open>moat_dashboard/management_db.py\<close>), the properties of probes kept in its own
  (\<^verbatim>\<open>db.py\<close>), the routes with their checks (\<^verbatim>\<open>routes.py\<close>) and the colours of the map
  (\<^verbatim>\<open>map.py\<close>). The management database is that of \<^verbatim>\<open>Mgmt_Db\<close>, read only.
\<close>

section \<open>Lists of probes\<close>

datatype shown_status = Shown_Online | Shown_Offline | Shown_Unknown

fun shown :: "probe_status_type option \<Rightarrow> shown_status" where
  "shown (Some Online) = Shown_Online"
| "shown (Some Offline) = Shown_Offline"
| "shown None = Shown_Unknown"

record probe_info =
  pi_id :: uuid
  pi_country :: "string option"
  pi_status :: shown_status
  pi_first_deployed :: "time option"

text \<open>The left join of a probe with its active status rows.\<close>

definition join_status :: "'j mgmt_db \<Rightarrow> probe_row \<Rightarrow> (probe_row \<times> probe_status_type option) list" where
  "join_status db p =
     (case filter (\<lambda>r. ps_probe_id r = pr_id p \<and> ps_active r) (mg_statuses db) of
        [] \<Rightarrow> [(p, None)]
      | rows \<Rightarrow> map (\<lambda>r. (p, Some (ps_status r))) rows)"

datatype order_col = By_Id | By_Country | By_Status

text \<open>
  The sort keys: \<open>collate\<close> is the database's order of country names; missing ones come last in
  either direction, further columns are ascending.
\<close>

definition country_key :: "(string \<Rightarrow> int) \<Rightarrow> int \<Rightarrow> string option \<Rightarrow> int \<times> int" where
  "country_key collate dir c = (case c of None \<Rightarrow> (1, 0) | Some s \<Rightarrow> (0, dir * collate s))"

fun status_key :: "shown_status \<Rightarrow> int" where
  "status_key Shown_Offline = 0"
| "status_key Shown_Online = 1"
| "status_key Shown_Unknown = 2"

definition id_key :: "uuid \<Rightarrow> int" where
  "id_key u = uint u"

definition order_key ::
  "(string \<Rightarrow> int) \<Rightarrow> order_col \<Rightarrow> bool \<Rightarrow> probe_info \<Rightarrow> (int \<times> int) \<times> (int \<times> int) \<times> (int \<times> int)"
where
  "order_key collate col desc i =
     (let dir = (if desc then -1 else 1);
          st = (0, status_key (pi_status i)); ident = (0, id_key (pi_id i)) in
      case col of
        By_Country \<Rightarrow> (country_key collate dir (pi_country i), ident, st)
      | By_Status \<Rightarrow> ((0, dir * status_key (pi_status i)), ident, country_key collate 1 (pi_country i))
      | By_Id \<Rightarrow> ((0, dir * id_key (pi_id i)), country_key collate 1 (pi_country i), st))"

text \<open>The conditions; the status \<^verbatim>\<open>unknown\<close> is the absence of a row.\<close>

definition status_wanted :: "shown_status list option \<Rightarrow> probe_status_type option \<Rightarrow> bool" where
  "status_wanted statuses st =
     (case statuses of
        None \<Rightarrow> True
      | Some ss \<Rightarrow>
          if ss = [Shown_Unknown] then st = None
          else if Shown_Unknown \<notin> set ss then st \<noteq> None \<and> shown st \<in> set ss
          else (st \<noteq> None \<and> shown st \<in> set (filter (\<lambda>s. s \<noteq> Shown_Unknown) ss)) \<or> st = None)"

definition wanted ::
  "uuid list option \<Rightarrow> string list option \<Rightarrow> shown_status list option \<Rightarrow> probe_row \<times> probe_status_type option \<Rightarrow> bool"
where
  "wanted ids countries statuses row \<longleftrightarrow>
     (\<forall>us. ids = Some us \<longrightarrow> pr_id (fst row) \<in> set us) \<and>
     (\<forall>cs. countries = Some cs \<longrightarrow> (\<exists>c. pr_country (fst row) = Some c \<and> c \<in> set cs)) \<and>
     status_wanted statuses (snd row)"

definition first_deployed :: "'j mgmt_db \<Rightarrow> uuid \<Rightarrow> time option" where
  "first_deployed db pid =
     (case map ps_begin (filter (\<lambda>r. ps_probe_id r = pid) (mg_statuses db)) of
        [] \<Rightarrow> None | ts \<Rightarrow> Some (Min (set ts)))"

definition matching_probes ::
  "(string \<Rightarrow> int) \<Rightarrow> uuid list option \<Rightarrow> string list option \<Rightarrow> shown_status list option \<Rightarrow> order_col \<Rightarrow> bool \<Rightarrow>
     'j mgmt_db \<Rightarrow> probe_info list"
where
  "matching_probes collate ids countries statuses col desc db =
     sort_key (order_key collate col desc)
       (map (\<lambda>(p, st). \<lparr>pi_id = pr_id p, pi_country = pr_country p, pi_status = shown st,
           pi_first_deployed = first_deployed db (pr_id p)\<rparr>)
         (filter (wanted ids countries statuses) (concat (map (join_status db) (mg_probes db)))))"

text \<open>\<^verbatim>\<open>get_probe_infos\<close>: the total comes with the rows of the page, so it is 0 without rows.\<close>

definition get_probe_infos ::
  "(string \<Rightarrow> int) \<Rightarrow> uuid list option \<Rightarrow> string list option \<Rightarrow> shown_status list option \<Rightarrow> order_col \<Rightarrow> bool \<Rightarrow>
     nat \<Rightarrow> nat \<Rightarrow> 'j mgmt_db \<Rightarrow> probe_info list \<times> nat"
where
  "get_probe_infos collate ids countries statuses col desc limit offset db =
     (if ids = Some [] \<or> countries = Some [] then ([], 0)
      else
        let rows = matching_probes collate ids countries statuses col desc db;
            page = (if limit > 0 then take limit else id) (drop offset rows)
        in (page, if page = [] then 0 else length rows))"

record list_params =
  lp_country :: "string list"
  lp_status :: "shown_status list"
  lp_page :: nat
  lp_page_size :: nat
  lp_hosted :: bool
  lp_order_by :: "order_col option"
  lp_desc :: bool

definition params_ok :: "list_params \<Rightarrow> bool" where
  "params_ok q \<longleftrightarrow> 0 < lp_page q \<and> 0 < lp_page_size q \<and> lp_page_size q \<le> 500"

definition probes_page ::
  "(string \<Rightarrow> int) \<Rightarrow> user_info option \<Rightarrow> list_params \<Rightarrow> 'j mgmt_db \<Rightarrow> probe_info list \<times> nat"
where
  "probes_page collate user q db =
     get_probe_infos collate
       (case user of Some ui \<Rightarrow> if lp_hosted q then Some (ui_hosted ui) else None | None \<Rightarrow> None)
       (if lp_country q \<noteq> [] then Some (lp_country q) else None)
       (if lp_status q \<noteq> [] then Some (lp_status q) else None)
       (case lp_order_by q of None \<Rightarrow> By_Id | Some c \<Rightarrow> c) (lp_desc q)
       (lp_page_size q) (lp_page_size q * (lp_page q - 1)) db"

text \<open>The countries of the map and their colours.\<close>

definition country_statuses :: "'j mgmt_db \<Rightarrow> string \<Rightarrow> (shown_status \<times> nat) list" where
  "country_statuses db c =
     (let sts = map (shown \<circ> snd) (concat (map (join_status db) (filter (\<lambda>p. pr_country p = Some c) (mg_probes db)))) in
      filter (\<lambda>(s, n). 0 < n)
        (map (\<lambda>s. (s, length (filter ((=) s) sts))) [Shown_Online, Shown_Offline, Shown_Unknown]))"

definition determine_country_status :: "(shown_status \<times> nat) list \<Rightarrow> shown_status" where
  "determine_country_status statuses =
     (if Shown_Online \<in> fst ` set statuses then Shown_Online
      else if Shown_Offline \<in> fst ` set statuses then Shown_Offline
      else Shown_Unknown)"

section \<open>Details and history\<close>

text \<open>
  \<open>'j\<close> is a probe's report and \<open>report\<close> what the database's JSON paths and \<^verbatim>\<open>pydantic\<close>
  read from it (temperature, uptime, address, traffic), \<open>None\<close> when that fails.
\<close>

datatype 'r probe_page = Page_Info probe_info | Page_Full probe_info string time 'r

definition mac_of :: "'j mgmt_db \<Rightarrow> probe_row \<Rightarrow> string option" where
  "mac_of db p = Option.bind (List.find (\<lambda>t. tk_id t = pr_token_id p) (mam_tokens db)) tk_mac"

definition latest_info :: "'j mgmt_db \<Rightarrow> uuid \<Rightarrow> (time \<times> 'j) option" where
  "latest_info db pid =
     (case sort_key (\<lambda>(_, t, _). - t) (filter (\<lambda>(u, _). u = pid) (mg_infos db)) of
        [] \<Rightarrow> None | (_, t, j) # _ \<Rightarrow> Some (t, j))"

text \<open>One probe's row; a report without a MAC address in the token does not validate.\<close>

definition full_page :: "('j \<Rightarrow> 'r option) \<Rightarrow> 'j mgmt_db \<Rightarrow> probe_row \<Rightarrow> dash_error + 'r probe_page" where
  "full_page report db p =
     (let i = \<lparr>pi_id = pr_id p, pi_country = pr_country p,
          pi_status = shown (snd (hd (join_status db p))), pi_first_deployed = first_deployed db (pr_id p)\<rparr> in
      case latest_info db (pr_id p) of
        None \<Rightarrow> Inr (Page_Info i)
      | Some (t, j) \<Rightarrow>
          (case (mac_of db p, report j) of
             (Some mac, Some r) \<Rightarrow> Inr (Page_Full i mac t r)
           | _ \<Rightarrow> Inl Dx_Exception))"

fun all_pages :: "(dash_error + 'a) list \<Rightarrow> dash_error + 'a list" where
  "all_pages [] = Inr []"
| "all_pages (Inl e # xs) = Inl e"
| "all_pages (Inr x # xs) = (case all_pages xs of Inl e \<Rightarrow> Inl e | Inr ys \<Rightarrow> Inr (x # ys))"

definition get_full_probe_infos ::
  "('j \<Rightarrow> 'r option) \<Rightarrow> uuid list \<Rightarrow> 'j mgmt_db \<Rightarrow> dash_error + 'r probe_page list"
where
  "get_full_probe_infos report pids db =
     all_pages (map (full_page report db)
       (sort_key (\<lambda>p. id_key (pr_id p)) (filter (\<lambda>p. pr_id p \<in> set pids) (mg_probes db))))"

definition may_manage :: "uuid \<Rightarrow> user_info \<Rightarrow> bool" where
  "may_manage pid ui \<longleftrightarrow> pid \<in> set (ui_hosted ui) \<or> ui_admin ui"

definition probe_details_info ::
  "(string \<Rightarrow> int) \<Rightarrow> ('j \<Rightarrow> 'r option) \<Rightarrow> user_info option \<Rightarrow> uuid \<Rightarrow> 'j mgmt_db \<Rightarrow> dash_error + 'r probe_page"
where
  "probe_details_info collate report user pid db =
     (case
        (if user \<noteq> None \<and> may_manage pid (the user) then get_full_probe_infos report [pid] db
         else Inr (map Page_Info (fst (get_probe_infos collate (Some [pid]) None None By_Id False 0 0 db)))) of
        Inl e \<Rightarrow> Inl e
      | Inr [i] \<Rightarrow> Inr i
      | Inr _ \<Rightarrow> Inl (Dx_Http 404))"

text \<open>The history of one probe, or nothing when a report does not validate.\<close>

definition get_probe_status_hist ::
  "('j \<Rightarrow> 'r option) \<Rightarrow> uuid \<Rightarrow> time \<Rightarrow> time \<Rightarrow> 'j mgmt_db \<Rightarrow> dash_error + (time \<times> 'r) list"
where
  "get_probe_status_hist report pid start end_time db =
     all_pages (map (\<lambda>(t, j). case report j of None \<Rightarrow> Inl Dx_Exception | Some r \<Rightarrow> Inr (t, r))
       (sort_key fst (map snd (filter (\<lambda>(u, t, _). u = pid \<and> start < t \<and> t \<le> end_time) (mg_infos db)))))"

definition probe_status_hist ::
  "'w oidc_env \<Rightarrow> ('j \<Rightarrow> 'r option) \<Rightarrow> string option \<Rightarrow> uuid \<Rightarrow> time option \<Rightarrow> int \<Rightarrow> 'j mgmt_db \<Rightarrow>
     ('w, (time \<times> 'r) list) dact"
where
  "probe_status_hist env report session pid timestamp timeframe mdb =
     bnd (get_user env [] session) (\<lambda>ui.
       if pid \<notin> set (ui_hosted ui) \<and> \<not> ui_admin ui then throw (Dx_Http 403)
       else bnd (read_state da_now) (\<lambda>now.
         let t = (case timestamp of None \<Rightarrow> now | Some t \<Rightarrow> t) in
         case get_probe_status_hist report pid (t - timeframe) t mdb of
           Inl e \<Rightarrow> throw e
         | Inr l \<Rightarrow> ret l))"

section \<open>What a host may change\<close>

definition merge_props :: "probe_props \<Rightarrow> probe_props \<Rightarrow> probe_props" where
  "merge_props old new =
     \<lparr>pp_name = (if pp_name new \<noteq> None then pp_name new else pp_name old),
      pp_led = (if pp_led new \<noteq> None then pp_led new else pp_led old)\<rparr>"

text \<open>Only the fields given are inserted or updated.\<close>

definition update_probe_props :: "uuid \<Rightarrow> probe_props \<Rightarrow> ('w, unit) dact" where
  "update_probe_props pid new =
     update_state (\<lambda>d. d\<lparr>da_probes :=
       (case map_of (da_probes d) pid of
          None \<Rightarrow> upsert pid new (da_probes d)
        | Some old \<Rightarrow> upsert pid (merge_props old new) (da_probes d))\<rparr>)"

definition get_probe_led_status :: "uuid \<Rightarrow> 'w dash \<Rightarrow> bool option" where
  "get_probe_led_status pid d = Option.bind (map_of (da_probes d) pid) pp_led"

fun hex_digits :: "nat \<Rightarrow> nat \<Rightarrow> string" where
  "hex_digits 0 n = []"
| "hex_digits (Suc k) n = hex_digits k (n div 16) @ [''0123456789abcdef'' ! (n mod 16)]"

definition uuid_text :: "uuid \<Rightarrow> string" where
  "uuid_text u =
     (let h = hex_digits 32 (unat u) in
      take 8 h @ ''-'' @ take 4 (drop 8 h) @ ''-'' @ take 4 (drop 12 h) @ ''-'' @ take 4 (drop 16 h) @ ''-'' @ drop 20 h)"

text \<open>Publishing to Redis; \<open>pub\<close> decides whether it raises, which is only logged.\<close>

definition publish_command :: "('w \<Rightarrow> bool \<times> 'w) \<Rightarrow> uuid \<Rightarrow> string \<Rightarrow> ('w, unit) dact" where
  "publish_command pub pid command =
     bnd (on_world pub) (\<lambda>ok.
       if ok then update_state (\<lambda>d. d\<lparr>da_published := da_published d @ [(''probe:'' @ uuid_text pid, command)]\<rparr>)
       else ret ())"

definition change_props :: "('w \<Rightarrow> bool \<times> 'w) \<Rightarrow> uuid \<Rightarrow> string \<Rightarrow> bool \<Rightarrow> ('w, unit) dact" where
  "change_props pub pid name led =
     bnd (read_state (get_probe_led_status pid)) (\<lambda>led_status.
     bnd (update_probe_props pid
            \<lparr>pp_name = (if length name > 0 then Some name else None), pp_led = Some led\<rparr>) (\<lambda>_.
       if led_status \<noteq> Some led
       then publish_command pub pid (''led:'' @ (if led then ''True'' else ''False''))
       else ret ()))"

text \<open>
  A posted form: the user of the cookie must host the probe or be an administrator, and the
  form carry the token that the browser's signed session holds; \<open>valid\<close> is the check of the
  form's fields, made after the user's. The outcome, the dashboard afterwards and what the
  session holds then.
\<close>

definition roll_back :: "'w dash \<Rightarrow> 'w dash \<Rightarrow> 'w dash" where
  "roll_back d d' = d'\<lparr>da_users := da_users d, da_sessions := da_sessions d, da_probes := da_probes d\<rparr>"

definition guarded_post ::
  "'w oidc_env \<Rightarrow> string option \<Rightarrow> string option \<Rightarrow> bool \<Rightarrow> uuid \<Rightarrow> string \<Rightarrow> ('w, unit) dact \<Rightarrow> 'w dash \<Rightarrow>
     ((dash_error + unit) \<times> 'w dash) \<times> string option"
where
  "guarded_post env session held valid pid token act d =
     (case get_user env [] session d of
        (Inl e, d1) \<Rightarrow> ((Inl e, roll_back d d1), held)
      | (Inr ui, d1) \<Rightarrow>
          if \<not> valid then ((Inl (Dx_Http 422), roll_back d d1), held)
          else if may_manage pid ui then
            (case check_csrf_token token held of
               (Inl e, held') \<Rightarrow> ((Inl e, roll_back d d1), held')
             | (Inr _, held') \<Rightarrow>
                 (case act d1 of
                    (Inl e, d2) \<Rightarrow> ((Inl e, roll_back d d2), held')
                  | (Inr x, d2) \<Rightarrow> ((Inr x, d2), held')))
          else ((Inl (Dx_Http 403), roll_back d d1), held))"

definition update_probe_details ::
  "'w oidc_env \<Rightarrow> ('w \<Rightarrow> bool \<times> 'w) \<Rightarrow> string option \<Rightarrow> string option \<Rightarrow> uuid \<Rightarrow> string \<Rightarrow> bool \<Rightarrow> string \<Rightarrow> 'w dash \<Rightarrow>
     ((dash_error + unit) \<times> 'w dash) \<times> string option"
where
  "update_probe_details env pub session held pid name led token =
     guarded_post env session held (length name \<le> 32) pid token (change_props pub pid name led)"

definition reboot_probe ::
  "'w oidc_env \<Rightarrow> ('w \<Rightarrow> bool \<times> 'w) \<Rightarrow> string option \<Rightarrow> string option \<Rightarrow> uuid \<Rightarrow> string \<Rightarrow> 'w dash \<Rightarrow>
     ((dash_error + unit) \<times> 'w dash) \<times> string option"
where
  "reboot_probe env pub session held pid token =
     guarded_post env session held True pid token (publish_command pub pid ''reboot'')"

section \<open>Pages of the list\<close>

lemma concat_pages: "0 < n \<Longrightarrow> concat (map (\<lambda>k. take n (drop (n * k) xs)) [0..<m]) = take (n * m) xs"
proof (induction m)
  case (Suc m)
  then show ?case by (simp add: take_add [symmetric] add.commute)
qed simp

lemma page_of:
  assumes "params_ok q"
  shows "fst (get_probe_infos collate ids countries statuses col desc (lp_page_size q)
      (lp_page_size q * k) db) =
    (if ids = Some [] \<or> countries = Some [] then []
     else take (lp_page_size q) (drop (lp_page_size q * k)
       (matching_probes collate ids countries statuses col desc db)))"
  using assms by (simp add: get_probe_infos_def params_ok_def Let_def)

definition listed :: "(string \<Rightarrow> int) \<Rightarrow> user_info option \<Rightarrow> list_params \<Rightarrow> 'j mgmt_db \<Rightarrow> probe_info list" where
  "listed collate user q db =
     (let hosted = (case user of Some ui \<Rightarrow> if lp_hosted q then Some (ui_hosted ui) else None | None \<Rightarrow> None) in
      if hosted = Some [] then []
      else matching_probes collate hosted (if lp_country q \<noteq> [] then Some (lp_country q) else None)
        (if lp_status q \<noteq> [] then Some (lp_status q) else None)
        (case lp_order_by q of None \<Rightarrow> By_Id | Some c \<Rightarrow> c) (lp_desc q) db)"

lemma probes_page_listed:
  assumes "params_ok q"
  shows "fst (probes_page collate user (q\<lparr>lp_page := Suc k\<rparr>) db) =
    take (lp_page_size q) (drop (lp_page_size q * k) (listed collate user q db))"
proof -
  note page = page_of [OF assms]
  show ?thesis
    by (cases user) (simp_all add: probes_page_def listed_def page)
qed

text \<open>The probes a list is about, said of each probe.\<close>

definition status_now :: "'j mgmt_db \<Rightarrow> probe_row \<Rightarrow> probe_status_type option" where
  "status_now db p =
     map_option ps_status (List.find (\<lambda>r. ps_probe_id r = pr_id p \<and> ps_active r) (mg_statuses db))"

definition asked_for :: "user_info option \<Rightarrow> list_params \<Rightarrow> 'j mgmt_db \<Rightarrow> probe_row \<Rightarrow> bool" where
  "asked_for user q db p \<longleftrightarrow>
     (\<forall>ui. user = Some ui \<and> lp_hosted q \<longrightarrow> pr_id p \<in> set (ui_hosted ui)) \<and>
     (lp_country q \<noteq> [] \<longrightarrow> pr_country p \<in> Some ` set (lp_country q)) \<and>
     (lp_status q \<noteq> [] \<longrightarrow> shown (status_now db p) \<in> set (lp_status q))"

definition one_status :: "'j mgmt_db \<Rightarrow> bool" where
  "one_status db \<longleftrightarrow>
     (\<forall>p \<in> set (mg_probes db). length (filter (\<lambda>r. ps_probe_id r = pr_id p \<and> ps_active r) (mg_statuses db)) \<le> 1)"

lemma find_as_filter: "List.find P xs = (case filter P xs of [] \<Rightarrow> None | x # _ \<Rightarrow> Some x)"
  by (induction xs) auto

lemma join_status_one:
  "one_status db \<Longrightarrow> p \<in> set (mg_probes db) \<Longrightarrow> join_status db p = [(p, status_now db p)]"
  by (auto simp: one_status_def join_status_def status_now_def find_as_filter split: list.split)

lemma concat_singletons: "\<forall>x \<in> set xs. f x = [g x] \<Longrightarrow> concat (map f xs) = map g xs"
  by (induction xs) auto

lemma joined:
  "one_status db \<Longrightarrow> concat (map (join_status db) (mg_probes db)) = map (\<lambda>p. (p, status_now db p)) (mg_probes db)"
  by (rule concat_singletons) (simp add: join_status_one)

lemma status_wanted_shown: "status_wanted (Some ss) st \<longleftrightarrow> shown st \<in> set ss" if "ss \<noteq> []"
  using that by (cases st rule: shown.cases) (auto simp: status_wanted_def)

lemma matching_probes_mset:
  "mset (map pi_id (matching_probes collate ids countries statuses col desc db)) =
     mset (map (pr_id \<circ> fst) (filter (wanted ids countries statuses) (concat (map (join_status db) (mg_probes db)))))"
proof -
  have "pi_id \<circ> (\<lambda>(p :: probe_row, st). \<lparr>pi_id = pr_id p, pi_country = pr_country p, pi_status = shown st,
      pi_first_deployed = first_deployed db (pr_id p)\<rparr>) = pr_id \<circ> fst"
    by (simp add: fun_eq_iff)
  then show ?thesis by (simp only: matching_probes_def mset_map mset_sort multiset.map_comp)
qed

lemma listed_mset:
  assumes "one_status db"
  shows "mset (map pi_id (listed collate user q db)) = mset (map pr_id (filter (asked_for user q db) (mg_probes db)))"
proof -
  let ?ids = "case user of Some ui \<Rightarrow> if lp_hosted q then Some (ui_hosted ui) else None | None \<Rightarrow> None"
  let ?cs = "if lp_country q \<noteq> [] then Some (lp_country q) else None"
  let ?ss = "if lp_status q \<noteq> [] then Some (lp_status q) else None"
  have wanted: "wanted ?ids ?cs ?ss (p, status_now db p) = asked_for user q db p" for p
    using status_wanted_shown [of "lp_status q"]
    by (cases user) (auto simp: wanted_def asked_for_def status_wanted_def)
  show ?thesis
  proof (cases "?ids = Some []")
    case True
    then have "\<not> asked_for user q db p" for p by (auto simp: asked_for_def split: option.splits if_splits)
    with True show ?thesis by (simp add: listed_def)
  next
    case False
    then have "mset (map pi_id (listed collate user q db)) =
        mset (map (pr_id \<circ> fst) (filter (wanted ?ids ?cs ?ss) (map (\<lambda>p. (p, status_now db p)) (mg_probes db))))"
      unfolding listed_def Let_def by (simp only: if_False matching_probes_mset joined [OF assms])
    then show ?thesis by (simp add: filter_map comp_def wanted)
  qed
qed

lemma pages_listed:
  assumes "params_ok q" "length (listed collate user q db) \<le> lp_page_size q * m"
  shows "concat (map (\<lambda>k. fst (probes_page collate user (q\<lparr>lp_page := Suc k\<rparr>) db)) [0..<m]) = listed collate user q db"
  using assms concat_pages [of "lp_page_size q" "listed collate user q db" m]
  by (simp add: probes_page_listed params_ok_def)

lemma page_total:
  "snd (get_probe_infos collate ids countries statuses col desc limit offset db) =
     (if fst (get_probe_infos collate ids countries statuses col desc limit offset db) = [] then 0
      else length (matching_probes collate ids countries statuses col desc db))"
  by (auto simp: get_probe_infos_def Let_def)


section \<open>Who sees and changes what\<close>

text \<open>
  Only hosts and administrators see reports: for everyone else the page of a probe is the
  same whatever reports the probe sent and whatever tokens there are, and the history is refused.
\<close>
theorem guest_sees_no_reports:
  assumes "\<forall>ui. user = Some ui \<longrightarrow> \<not> may_manage pid ui"
  shows "probe_details_info collate report user pid (db\<lparr>mg_infos := infos, mam_tokens := tokens\<rparr>) =
      probe_details_info collate report user pid db \<and>
    (\<forall>ui d1. get_user env [] session d = (Inr ui, d1) \<and> user = Some ui \<longrightarrow>
      probe_status_hist env report session pid t frame db d = (Inl (Dx_Http 403), d1))"
proof -
  have join: "join_status (db\<lparr>mg_infos := infos, mam_tokens := tokens\<rparr>) = join_status db"
    "first_deployed (db\<lparr>mg_infos := infos, mam_tokens := tokens\<rparr>) = first_deployed db"
    by (simp_all add: join_status_def first_deployed_def fun_eq_iff)
  have guest: "\<not> (user \<noteq> None \<and> may_manage pid (the user))" using assms by auto
  have "probe_details_info collate report user pid (db\<lparr>mg_infos := infos, mam_tokens := tokens\<rparr>) =
      probe_details_info collate report user pid db"
    unfolding probe_details_info_def if_not_P [OF guest]
    by (simp add: get_probe_infos_def matching_probes_def join)
  moreover have "probe_status_hist env report session pid t frame db d = (Inl (Dx_Http 403), d1)"
    if "get_user env [] session d = (Inr ui, d1)" "user = Some ui" for ui d1
    using that assms by (simp add: probe_status_hist_def bnd_def may_manage_def)
  ultimately show ?thesis by blast
qed

lemma get_user_needs_session:
  assumes "get_user env scopes session d = (Inr ui, d1)"
  shows "\<exists>s cookie. session = Some s \<and> b64decode_lenient s = Some cookie \<and> (cookie, ui_id ui) \<in> session_ids d"
proof -
  obtain b where run: "get_user_optional env scopes session d = (Inr (Some ui, b), d1)"
    using assms by (fastforce simp: get_user_def bnd_Inr split: option.splits)
  then obtain s where s: "session = Some s" by (cases session) (simp_all add: get_user_optional_def)
  from user_needs_session [OF run [unfolded s]] s show ?thesis by blast
qed

lemma guarded_post_changes:
  assumes "guarded_post env session held valid pid token act d = ((r, d'), held')"
    "da_probes d' \<noteq> da_probes d \<or> da_published d' \<noteq> da_published d"
  shows "\<exists>ui d1. get_user env [] session d = (Inr ui, d1) \<and> may_manage pid ui \<and> held = Some token \<and> held' = None"
proof -
  obtain u d1 where run: "get_user env [] session d = (u, d1)" by fastforce
  from sessions_frame.framedD [OF sessions_frame.framed_get_user this]
  have "da_probes d1 = da_probes d" "da_published d1 = da_published d" by (simp_all add: only_sessions_go_def)
  with assms run show ?thesis
    by (auto simp: guarded_post_def roll_back_def check_csrf_token_def split: sum.splits if_splits prod.splits)
qed

text \<open>
  C19: Only its host or an administrator, from a page of the dashboard, changes or reboots a
  probe: if a posted form changes a probe's properties or sends it a command, its cookie was
  given to a user who has not logged out with it since, this user hosts the probe or is an
  administrator, and the form carries the token that the browser's session held, which it has
  used up.
\<close>
theorem dash_update_authorized:
  assumes "dash_reach env issued ended d"
    "run = update_probe_details env pub session held pid name led token d \<or>
     run = reboot_probe env pub session held pid token d"
    "run = ((r, d'), held')"
    "da_probes d' \<noteq> da_probes d \<or> da_published d' \<noteq> da_published d"
  shows "\<exists>s cookie ui d1. session = Some s \<and> b64decode_lenient s = Some cookie \<and> (cookie, ui_id ui) \<in> issued \<and>
    cookie \<notin> ended \<and> get_user env [] session d = (Inr ui, d1) \<and> may_manage pid ui \<and> held = Some token \<and> held' = None"
proof -
  have "\<exists>ui d1. get_user env [] session d = (Inr ui, d1) \<and> may_manage pid ui \<and> held = Some token \<and> held' = None"
    using assms(2)
  proof
    assume "run = update_probe_details env pub session held pid name led token d"
    from guarded_post_changes [OF this [unfolded update_probe_details_def assms(3), symmetric] assms(4)] show ?thesis .
  next
    assume "run = reboot_probe env pub session held pid token d"
    from guarded_post_changes [OF this [unfolded reboot_probe_def assms(3), symmetric] assms(4)] show ?thesis .
  qed
  then obtain ui d1 where
    user: "get_user env [] session d = (Inr ui, d1)" and rest: "may_manage pid ui" "held = Some token" "held' = None"
    by blast
  from get_user_needs_session [OF user] obtain s cookie where
    c: "session = Some s" "b64decode_lenient s = Some cookie" "(cookie, ui_id ui) \<in> session_ids d" by blast
  from reach_sessions [OF assms(1)] have sub: "session_ids d \<subseteq> issued" "fst ` session_ids d \<inter> ended = {}" by blast+
  have "cookie \<in> fst ` session_ids d" by (rule image_eqI [OF _ c(3)]) simp
  with sub c(3) have "(cookie, ui_id ui) \<in> issued" "cookie \<notin> ended" by blast+
  then show ?thesis using user rest c(1,2) by metis
qed

lemma map_of_replace:
  "map_of (map (\<lambda>(k', v'). (k', if k' = k then v else v')) xs) x =
     (case map_of xs x of None \<Rightarrow> None | Some v' \<Rightarrow> Some (if x = k then v else v'))"
  by (induction xs) (simp_all split: prod.split)

lemma map_of_upsert: "map_of (upsert k v xs) = (map_of xs)(k \<mapsto> v)"
proof
  fix x
  show "map_of (upsert k v xs) x = ((map_of xs)(k \<mapsto> v)) x"
  proof (cases "k \<in> fst ` set xs")
    case True
    then have "map_of xs k \<noteq> None" by (simp add: map_of_eq_None_iff)
    with True show ?thesis by (cases "map_of xs x") (auto simp: upsert_def map_of_replace)
  next
    case False
    then have "map_of xs k = None" by (simp add: map_of_eq_None_iff)
    with False show ?thesis by (simp add: upsert_def map_add_def split: option.split)
  qed
qed

lemma update_probe_props_map:
  "map_of (da_probes (snd (update_probe_props pid new d))) =
     (map_of (da_probes d))(pid \<mapsto> (case map_of (da_probes d) pid of None \<Rightarrow> new | Some old \<Rightarrow> merge_props old new))"
  by (simp add: update_probe_props_def update_state_def map_of_upsert split: option.split)

lemma publish_command_run:
  "publish_command pub pid command d = (r, d') \<Longrightarrow>
     r = Inr () \<and> da_probes d' = da_probes d \<and>
     (da_published d' = da_published d \<or> da_published d' = da_published d @ [(''probe:'' @ uuid_text pid, command)])"
  by (auto simp: publish_command_def on_world_def update_state_def bnd_def split: prod.splits if_splits)

text \<open>
  A posted form sets what it says, but for an empty name: the light is as chosen, a name
  that was given is stored, an empty one leaves the old name in place, so that a name once given
  cannot be removed, and the other probes are untouched. The probe is sent a command only if
  the light changes.
\<close>
theorem probe_update_effect:
  assumes "update_probe_details env pub session held pid name led token d = ((Inr (), d'), held')"
  shows "map_of (da_probes d') = (map_of (da_probes d))(pid \<mapsto>
      \<lparr>pp_name = (if name = [] then Option.bind (map_of (da_probes d) pid) pp_name else Some name), pp_led = Some led\<rparr>) \<and>
    (da_published d' = da_published d \<or>
     get_probe_led_status pid d \<noteq> Some led \<and>
     da_published d' = da_published d @ [(''probe:'' @ uuid_text pid, ''led:'' @ (if led then ''True'' else ''False''))])"
proof -
  obtain u d1 where run: "get_user env [] session d = (u, d1)" by fastforce
  from sessions_frame.framedD [OF sessions_frame.framed_get_user this]
  have same: "da_probes d1 = da_probes d" "da_published d1 = da_published d" by (simp_all add: only_sessions_go_def)
  let ?new = "\<lparr>pp_name = (if length name > 0 then Some name else None), pp_led = Some led\<rparr>"
  obtain d2 where d2: "update_probe_props pid ?new d1 = (Inr (), d2)"
    by (simp add: update_probe_props_def update_state_def)
  from assms run have "change_props pub pid name led d1 = (Inr (), d')"
    by (auto simp: update_probe_details_def guarded_post_def split: sum.splits if_splits prod.splits)
  with d2 have tail: "(if get_probe_led_status pid d1 \<noteq> Some led
      then publish_command pub pid (''led:'' @ (if led then ''True'' else ''False'')) else ret ()) d2 = (Inr (), d')"
    by (simp add: change_props_def read_state_def bnd_def)
  have led: "get_probe_led_status pid d1 = get_probe_led_status pid d" by (simp add: get_probe_led_status_def same)
  have keep: "da_published d2 = da_published d"
    using d2 same by (auto simp: update_probe_props_def update_state_def)
  have probes: "da_probes d' = da_probes d2 \<and> (da_published d' = da_published d \<or>
     get_probe_led_status pid d \<noteq> Some led \<and>
     da_published d' = da_published d @ [(''probe:'' @ uuid_text pid, ''led:'' @ (if led then ''True'' else ''False''))])"
  proof (cases "get_probe_led_status pid d = Some led")
    case True
    with tail led keep show ?thesis by (simp add: ret_def)
  next
    case False
    with tail led have "publish_command pub pid (''led:'' @ (if led then ''True'' else ''False'')) d2 = (Inr (), d')" by simp
    from publish_command_run [OF this] False keep show ?thesis by simp
  qed
  have "map_of (da_probes d2) = (map_of (da_probes d))(pid \<mapsto>
      \<lparr>pp_name = (if name = [] then Option.bind (map_of (da_probes d) pid) pp_name else Some name), pp_led = Some led\<rparr>)"
    using update_probe_props_map [of pid ?new d1] d2 same
    by (auto simp: merge_props_def split: option.splits)
  with probes show ?thesis by simp
qed

section \<open>The map\<close>

lemma counted_keys:
  "fst ` set (filter (\<lambda>(s, n). 0 < n) (map (\<lambda>s. (s, length (filter ((=) s) xs)))
      [Shown_Online, Shown_Offline, Shown_Unknown])) = set xs" (is "?keys = _")
proof -
  have "(0 < length (filter ((=) s) xs)) = (s \<in> set xs)" for s
    by (auto simp: filter_empty_conv)
  then have "s \<in> ?keys \<longleftrightarrow> s \<in> set xs" for s
    by (cases s) (auto simp: image_iff)
  then show ?thesis by blast
qed

lemma shown_eq:
  "Shown_Online = shown st \<longleftrightarrow> st = Some Online" "Shown_Offline = shown st \<longleftrightarrow> st = Some Offline"
  by (cases st rule: shown.cases; simp)+

lemma shown_among:
  "Shown_Online \<in> set (map (shown \<circ> snd) rows) \<longleftrightarrow> Some Online \<in> snd ` set rows"
  "Shown_Offline \<in> set (map (shown \<circ> snd) rows) \<longleftrightarrow> Some Offline \<in> snd ` set rows"
  by (induction rows) (auto simp: shown_eq)

text \<open>
  A country has the colour of its best probe: it is online if some probe in it is, else
  offline if some probe in it is, else unknown.
\<close>
theorem country_colour:
  "determine_country_status (country_statuses db c) =
     (let sts = {snd row |p row. p \<in> set (mg_probes db) \<and> pr_country p = Some c \<and> row \<in> set (join_status db p)} in
      if Some Online \<in> sts then Shown_Online
      else if Some Offline \<in> sts then Shown_Offline
      else Shown_Unknown)"
proof -
  let ?rows = "concat (map (join_status db) (filter (\<lambda>p. pr_country p = Some c) (mg_probes db)))"
  let ?sts = "map (shown \<circ> snd) ?rows"
  have keys: "fst ` set (country_statuses db c) = set ?sts"
    unfolding country_statuses_def Let_def by (rule counted_keys)
  note sets = shown_among [of ?rows]
  have "snd ` set ?rows = {snd row |p row. p \<in> set (mg_probes db) \<and> pr_country p = Some c \<and> row \<in> set (join_status db p)}"
    by force
  then show ?thesis by (simp only: determine_country_status_def keys sets Let_def)
qed

section \<open>Examples\<close>

definition demo_fleet :: "unit mgmt_db" where
  "demo_fleet = \<lparr>mam_tokens = [], mam_logs = [], wg_rows = [], wg_logs = [],
     mg_probes = [\<lparr>pr_id = 7, pr_name = ''a'', pr_token_id = 0, pr_country = Some ''AT'', pr_last_poll = None\<rparr>,
       \<lparr>pr_id = 8, pr_name = ''b'', pr_token_id = 1, pr_country = Some ''DE'', pr_last_poll = None\<rparr>,
       \<lparr>pr_id = 9, pr_name = ''c'', pr_token_id = 2, pr_country = None, pr_last_poll = None\<rparr>],
     mg_statuses = [\<lparr>ps_probe_id = 7, ps_active = True, ps_status = Online, ps_begin = 1, ps_end = 2\<rparr>,
       \<lparr>ps_probe_id = 9, ps_active = True, ps_status = Offline, ps_begin = 1, ps_end = 2\<rparr>],
     mg_startups = [], mg_infos = [(8, 1, ())], mg_next = 3, moat_tokens = [], mgmt_sims = [], sim_assocs = [],
     session_rows = [], provider_ids = []\<rparr>"

definition demo_query :: list_params where
  "demo_query = \<lparr>lp_country = [''AT'', ''DE''], lp_status = [Shown_Unknown, Shown_Online], lp_page = 1,
     lp_page_size = 1, lp_hosted = False, lp_order_by = Some By_Status, lp_desc = True\<rparr>"


lemma guest_sees_no_reports_witness:
  "probe_details_info (\<lambda>_. 0) Some (Some demo_user) 8 (demo_fleet\<lparr>mg_infos := [], mam_tokens := []\<rparr>) =
     probe_details_info (\<lambda>_. 0) Some (Some demo_user) 8 demo_fleet \<and>
   (\<forall>ui d1. get_user demo_oidc [] (Some (b64encode [1, 2, 3])) demo_logged_in = (Inr ui, d1) \<and> Some demo_user = Some ui \<longrightarrow>
     probe_status_hist demo_oidc Some (Some (b64encode [1, 2, 3])) 8 None 10 demo_fleet demo_logged_in =
       (Inl (Dx_Http 403), d1))"
  by (rule guest_sees_no_reports) (simp add: may_manage_def demo_user_def)

definition demo_updated :: "unit dash" where
  "demo_updated = demo_logged_in\<lparr>da_probes := [(7, \<lparr>pp_name = Some ''roof'', pp_led = Some True\<rparr>)],
     da_published := [(''probe:00000000-0000-0000-0000-000000000007'', ''led:True'')]\<rparr>"

definition demo_cookie :: string where
  "demo_cookie = b64encode [1, 2, 3]"

lemma demo_update:
  "update_probe_details demo_oidc (\<lambda>w. (True, w)) (Some demo_cookie) (Some ''x'') 7 ''roof'' True ''x'' demo_logged_in =
     ((Inr (), demo_updated), None)"
  by code_simp

lemma demo_cookie_user: "get_user demo_oidc [] (Some demo_cookie) demo_logged_in = (Inr demo_user, demo_logged_in)"
  by code_simp

lemma dash_update_authorized_witness:
  "\<exists>s cookie ui d1. Some demo_cookie = Some s \<and> b64decode_lenient s = Some cookie \<and>
     (cookie, ui_id ui) \<in> {([1, 2, 3], 7)} \<and> cookie \<notin> {} \<and>
     get_user demo_oidc [] (Some demo_cookie) demo_logged_in = (Inr ui, d1) \<and>
     may_manage 7 ui \<and> Some ''x'' = Some ''x'' \<and> (None :: string option) = None"
proof (rule dash_update_authorized [OF demo_dash_reach _ refl])
  show "((Inr (), demo_updated), None) =
      update_probe_details demo_oidc (\<lambda>w. (True, w)) (Some demo_cookie) (Some ''x'') 7 ''roof'' True ''x'' demo_logged_in \<or>
    ((Inr (), demo_updated), None) =
      reboot_probe demo_oidc (\<lambda>w. (True, w)) (Some demo_cookie) (Some ''x'') 7 ''x'' demo_logged_in"
    by (simp add: demo_update)
  show "da_probes demo_updated \<noteq> da_probes demo_logged_in \<or> da_published demo_updated \<noteq> da_published demo_logged_in"
    by (simp add: demo_updated_def demo_logged_in_def)
qed

lemma probe_update_effect_witness:
  "map_of (da_probes demo_updated) = (map_of (da_probes demo_logged_in))(7 \<mapsto>
      \<lparr>pp_name = (if ''roof'' = [] then Option.bind (map_of (da_probes demo_logged_in) 7) pp_name else Some ''roof''),
       pp_led = Some True\<rparr>) \<and>
    (da_published demo_updated = da_published demo_logged_in \<or>
     get_probe_led_status 7 demo_logged_in \<noteq> Some True \<and>
     da_published demo_updated = da_published demo_logged_in @
       [(''probe:'' @ uuid_text 7, ''led:'' @ (if True then ''True'' else ''False''))])"
  by (rule probe_update_effect [OF demo_update])

end
