(* ===== verification/Dash_Live.thy ===== *)
theory Dash_Live
  imports Dash_Pages
begin

text \<open>
  What the dashboard keeps between requests: the map with its single updater
  (\<^verbatim>\<open>moat_dashboard/map.py\<close>) and the web sockets to which new reports are pushed
  (\<^verbatim>\<open>management_db.py\<close>). Drawing the map, the sockets and the database are parameters: a map
  is what the updater produced, a socket its identity.
\<close>

section \<open>The cached map\<close>

text \<open>
  The coroutines of \<^verbatim>\<open>get_current_map\<close> interleave at \<^verbatim>\<open>await\<close>. \<open>mc_waiting\<close> are the requests
  that wait for \<^verbatim>\<open>UPDATE_EVENT\<close>, \<open>mc_released\<close> those whose event is set, \<open>mc_updater\<close> the
  request that runs \<^verbatim>\<open>update_map\<close>. \<open>mc_answers\<close> collects the answers, \<open>None\<close> for an exception;
  \<open>mc_made\<close> the maps made.
\<close>

record ('q, 'm) map_cache =
  mc_map :: "'m option"
  mc_last :: time
  mc_updating :: bool
  mc_updater :: "'q option"
  mc_waiting :: "'q list"
  mc_released :: "'q list"
  mc_answers :: "('q \<times> 'm option) list"
  mc_made :: "'m list"

definition map_start :: "time \<Rightarrow> ('q, 'm) map_cache" where
  "map_start now = \<lparr>mc_map = None, mc_last = now, mc_updating = False, mc_updater = None,
     mc_waiting = [], mc_released = [], mc_answers = [], mc_made = []\<rparr>"

definition map_return :: "'q \<Rightarrow> ('q, 'm) map_cache \<Rightarrow> ('q, 'm) map_cache" where
  "map_return q c = c\<lparr>mc_answers := mc_answers c @ [(q, mc_map c)]\<rparr>"

definition map_request :: "'q \<Rightarrow> time \<Rightarrow> ('q, 'm) map_cache \<Rightarrow> ('q, 'm) map_cache" where
  "map_request q now c =
     (if now - mc_last c > 10 * 1000000 \<or> mc_map c = None then
        (if \<not> mc_updating c then c\<lparr>mc_updating := True, mc_updater := Some q\<rparr>
         else c\<lparr>mc_waiting := mc_waiting c @ [q]\<rparr>)
      else map_return q c)"

text \<open>The end of \<^verbatim>\<open>update_map\<close>, with the map made or an exception, and the \<^verbatim>\<open>finally\<close> block.\<close>

definition map_updated :: "'m option \<Rightarrow> time \<Rightarrow> ('q, 'm) map_cache \<Rightarrow> ('q, 'm) map_cache" where
  "map_updated made now c =
     (let c' = c\<lparr>mc_map := (case made of None \<Rightarrow> mc_map c | Some m \<Rightarrow> Some m),
          mc_made := mc_made c @ (case made of None \<Rightarrow> [] | Some m \<Rightarrow> [m]),
          mc_last := now, mc_released := mc_released c @ mc_waiting c, mc_waiting := [],
          mc_updating := False, mc_updater := None\<rparr> in
      case mc_updater c of
        None \<Rightarrow> c'
      | Some q \<Rightarrow> c'\<lparr>mc_answers := mc_answers c' @ [(q, made)]\<rparr>)"

text \<open>A request whose event was set goes on; without a map its assertion fails.\<close>

definition map_wake :: "'q \<Rightarrow> ('q, 'm) map_cache \<Rightarrow> ('q, 'm) map_cache" where
  "map_wake q c = map_return q (c\<lparr>mc_released := remove1 q (mc_released c)\<rparr>)"

inductive map_reach :: "('q, 'm) map_cache \<Rightarrow> bool" where
  start: "map_reach (map_start now)"
| request: "map_reach c \<Longrightarrow> map_reach (map_request q now c)"
| updated: "map_reach c \<Longrightarrow> mc_updating c \<Longrightarrow> map_reach (map_updated made now c)"
| wake: "map_reach c \<Longrightarrow> q \<in> set (mc_released c) \<Longrightarrow> map_reach (map_wake q c)"

definition map_ok :: "('q, 'm) map_cache \<Rightarrow> bool" where
  "map_ok c \<longleftrightarrow>
     (mc_updating c \<longleftrightarrow> mc_updater c \<noteq> None) \<and> (mc_waiting c \<noteq> [] \<longrightarrow> mc_updating c) \<and>
     mc_map c = (if mc_made c = [] then None else Some (last (mc_made c))) \<and>
     (\<forall>(q, a) \<in> set (mc_answers c). \<forall>m. a = Some m \<longrightarrow> m \<in> set (mc_made c))"

lemma map_reach_ok: "map_reach c \<Longrightarrow> map_ok c"
proof (induction rule: map_reach.induct)
  case (updated c made now)
  then show ?case
    by (auto simp: map_updated_def map_ok_def Let_def split: option.splits)
next
  case (request c q now)
  then show ?case by (auto simp: map_request_def map_return_def map_ok_def split: if_splits)
next
  case (wake c q)
  then show ?case by (auto simp: map_wake_def map_return_def map_ok_def split: if_splits)
qed (simp add: map_ok_def map_start_def)

section \<open>Pushing reports\<close>

text \<open>
  \<open>hb_sockets\<close> maps a probe to the sockets of those who watch it, \<open>hb_since\<close> is the local
  \<^verbatim>\<open>timestamp\<close> of the update task, \<open>hb_sent\<close> what was sent to which socket.
\<close>

record ('s, 'r) hub =
  hb_sockets :: "(uuid \<times> 's list) list"
  hb_since :: time
  hb_sent :: "('s \<times> uuid \<times> (time \<times> 'r) list) list"

definition ws_register :: "uuid \<Rightarrow> 's \<Rightarrow> ('s, 'r) hub \<Rightarrow> ('s, 'r) hub" where
  "ws_register pid s h =
     h\<lparr>hb_sockets := upsert pid
         (case map_of (hb_sockets h) pid of None \<Rightarrow> [s] | Some ws \<Rightarrow> List.insert s ws) (hb_sockets h)\<rparr>"

definition ws_unregister :: "uuid \<Rightarrow> 's \<Rightarrow> ('s, 'r) hub \<Rightarrow> ('s, 'r) hub" where
  "ws_unregister pid s h =
     (case map_of (hb_sockets h) pid of
        None \<Rightarrow> h
      | Some ws \<Rightarrow>
          if removeAll s ws = [] then h\<lparr>hb_sockets := filter (\<lambda>(p, _). p \<noteq> pid) (hb_sockets h)\<rparr>
          else h\<lparr>hb_sockets := upsert pid (removeAll s ws) (hb_sockets h)\<rparr>)"

text \<open>
  A socket on which sending raises is only discarded. The sends of a round are taken as one
  step.
\<close>

fun send_all :: "('s \<Rightarrow> bool) \<Rightarrow> ('s \<times> uuid \<times> (time \<times> 'r) list) list \<Rightarrow> ('s, 'r) hub \<Rightarrow> ('s, 'r) hub" where
  "send_all broken [] h = h"
| "send_all broken ((s, pid, l) # ms) h =
     send_all broken ms
       (if broken s then h\<lparr>hb_sockets := map (\<lambda>(p, ws). (p, if p = pid then removeAll s ws else ws)) (hb_sockets h)\<rparr>
        else h\<lparr>hb_sent := hb_sent h @ [(s, pid, l)]\<rparr>)"

text \<open>
  The body of the \<^verbatim>\<open>TaskGroup\<close>: it makes the tasks and moves the time on. A probe that has no
  entry any more raises \<^verbatim>\<open>KeyError\<close>, which cancels the tasks made so far before they run.
\<close>

fun push_tasks ::
  "(uuid \<times> 's list) list \<Rightarrow> (uuid \<times> (time \<times> 'r) list) list \<Rightarrow> time \<Rightarrow>
     ('s \<times> uuid \<times> (time \<times> 'r) list) list \<Rightarrow> ('s \<times> uuid \<times> (time \<times> 'r) list) list option \<times> time"
where
  "push_tasks socks [] since acc = (Some acc, since)"
| "push_tasks socks ((pid, l) # rows) since acc =
     (if l = [] then push_tasks socks rows since acc
      else
        let since' = (if fst (last l) > since then fst (last l) else since) in
        case map_of socks pid of
          None \<Rightarrow> (None, since')
        | Some ws \<Rightarrow> push_tasks socks rows since' (acc @ map (\<lambda>s. (s, pid, l)) ws))"

definition reports_of :: "(uuid \<times> time \<times> 'r) list \<Rightarrow> time \<Rightarrow> time \<Rightarrow> uuid \<Rightarrow> (time \<times> 'r) list" where
  "reports_of infos since now pid =
     sort_key fst (map snd (filter (\<lambda>(u, t, _). u = pid \<and> since < t \<and> t \<le> now) infos))"

text \<open>The reports of the probes watched, in the order of the probes' ids, those without none.\<close>

definition ws_fetch :: "(uuid \<times> time \<times> 'r) list \<Rightarrow> time \<Rightarrow> ('s, 'r) hub \<Rightarrow> (uuid \<times> (time \<times> 'r) list) list" where
  "ws_fetch infos now h =
     filter (\<lambda>(_, l). l \<noteq> [])
       (map (\<lambda>pid. (pid, reports_of infos (hb_since h) now pid)) (sort_key id_key (map fst (hb_sockets h))))"

text \<open>A round; \<open>meanwhile\<close> is what other tasks do to the hub while the database is asked.\<close>

definition ws_round ::
  "('s \<Rightarrow> bool) \<Rightarrow> (uuid \<times> time \<times> 'r) list \<Rightarrow> time \<Rightarrow> (('s, 'r) hub \<Rightarrow> ('s, 'r) hub) \<Rightarrow> ('s, 'r) hub \<Rightarrow> ('s, 'r) hub"
where
  "ws_round broken infos now meanwhile h =
     (if hb_sockets h = [] then h\<lparr>hb_since := now\<rparr>
      else
        let rows = ws_fetch infos now h; h' = meanwhile h in
        case push_tasks (hb_sockets h') rows (hb_since h) [] of
          (None, since) \<Rightarrow> h'\<lparr>hb_since := since\<rparr>
        | (Some ms, since) \<Rightarrow> send_all broken ms (h'\<lparr>hb_since := since\<rparr>))"

section \<open>Each report once\<close>

text \<open>
  The task over several rounds: in each, \<open>new\<close> reports have come in since the last, and no
  socket breaks or comes and goes.
\<close>

fun ws_run ::
  "(uuid \<times> time \<times> 'r) list \<Rightarrow> ((uuid \<times> time \<times> 'r) list \<times> time) list \<Rightarrow> ('s, 'r) hub \<Rightarrow> ('s, 'r) hub"
where
  "ws_run old [] h = h"
| "ws_run old ((new, now) # rs) h = ws_run (old @ new) rs (ws_round (\<lambda>_. False) (old @ new) now (\<lambda>h. h) h)"

text \<open>The database stamps a report when it arrives.\<close>

fun clocked :: "time \<Rightarrow> ((uuid \<times> time \<times> 'r) list \<times> time) list \<Rightarrow> bool" where
  "clocked t [] = True"
| "clocked t ((new, now) # rs) \<longleftrightarrow> t \<le> now \<and> (\<forall>(u, x, r) \<in> set new. t < x \<and> x \<le> now) \<and> clocked now rs"

definition received :: "'s \<Rightarrow> uuid \<Rightarrow> ('s, 'r) hub \<Rightarrow> (time \<times> 'r) list" where
  "received s pid h = concat (map (\<lambda>(s', p, l). if s' = s \<and> p = pid then l else []) (hb_sent h))"

definition hub_ok :: "('s, 'r) hub \<Rightarrow> bool" where
  "hub_ok h \<longleftrightarrow> distinct (map fst (hb_sockets h)) \<and> (\<forall>(p, ws) \<in> set (hb_sockets h). distinct ws)"

lemma last_sorted: "sorted (map f xs) \<Longrightarrow> x \<in> set xs \<Longrightarrow> f x \<le> f (last xs)"
  by (induction xs) auto

lemma send_all_works: "send_all (\<lambda>_. False) ms h = h\<lparr>hb_sent := hb_sent h @ ms\<rparr>"
  by (induction "\<lambda>_ :: 'a. False" ms h rule: send_all.induct) simp_all

definition row_messages :: "(uuid \<times> 's list) list \<Rightarrow> uuid \<times> (time \<times> 'r) list \<Rightarrow> ('s \<times> uuid \<times> (time \<times> 'r) list) list" where
  "row_messages socks row = map (\<lambda>s. (s, fst row, snd row)) (case map_of socks (fst row) of None \<Rightarrow> [] | Some ws \<Rightarrow> ws)"

definition later :: "time \<Rightarrow> (uuid \<times> (time \<times> 'r) list) list \<Rightarrow> time" where
  "later since rows = foldl (\<lambda>t row. max t (fst (last (snd row)))) since rows"

lemma push_tasks_append:
  "\<forall>row \<in> set rows. snd row \<noteq> [] \<and> fst row \<in> fst ` set socks \<Longrightarrow>
     push_tasks socks (rows @ rest) since acc =
       push_tasks socks rest (later since rows) (acc @ concat (map (row_messages socks) rows))"
proof (induction rows arbitrary: since acc)
  case (Cons row rows)
  obtain pid l where row: "row = (pid, l)" by fastforce
  with Cons.prems obtain ws where "map_of socks pid = Some ws"
    by (metis fst_conv list.set_intros(1) map_of_eq_None_iff not_None_eq)
  with Cons row show ?case by (simp add: row_messages_def later_def Let_def max_def)
qed (simp add: later_def)

lemma later_bounds:
  "since \<le> later since rows"
  "row \<in> set rows \<Longrightarrow> fst (last (snd row)) \<le> later since rows"
  "since \<le> t \<Longrightarrow> (\<And>row. row \<in> set rows \<Longrightarrow> fst (last (snd row)) \<le> t) \<Longrightarrow> later since rows \<le> t"
proof -
  show ge: "since \<le> later since rows" for since
    unfolding later_def by (induction rows arbitrary: since) (auto intro: order_trans [OF max.cobounded1])
  show "row \<in> set rows \<Longrightarrow> fst (last (snd row)) \<le> later since rows"
  proof (induction rows arbitrary: since)
    case (Cons r rows)
    have "later since (r # rows) = later (max since (fst (last (snd r)))) rows" by (simp add: later_def)
    moreover have "max since (fst (last (snd r))) \<le> later (max since (fst (last (snd r)))) rows"
      unfolding later_def by (induction rows arbitrary: since r) (auto intro: order_trans [OF max.cobounded1])
    ultimately show ?case using Cons by auto
  qed simp
  show "since \<le> t \<Longrightarrow> (\<And>row. row \<in> set rows \<Longrightarrow> fst (last (snd row)) \<le> t) \<Longrightarrow> later since rows \<le> t"
    unfolding later_def by (induction rows arbitrary: since) auto
qed

lemma messages_to:
  assumes "distinct (map fst rows)" "map_of socks pid = Some ws" "distinct ws" "s \<in> set ws"
  shows "concat (map (\<lambda>(s', p, l). if s' = s \<and> p = pid then l else []) (concat (map (row_messages socks) rows))) =
    (case map_of rows pid of None \<Rightarrow> [] | Some l \<Rightarrow> l)"
  using assms(1)
proof (induction rows)
  case (Cons row rows)
  obtain p l where row: "row = (p, l)" by fastforce
  have own: "concat (map (\<lambda>x. if x = s \<and> p = pid then l else []) xs) = (if s \<in> set xs \<and> p = pid then l else [])"
    if "distinct xs" for xs
    using that by (induction xs) auto
  let ?to = "\<lambda>(s', p, l). if s' = s \<and> p = pid then l else []"
  have head: "concat (map ?to (row_messages socks row)) = (if p = pid then l else [])"
  proof (cases "p = pid")
    case True
    with own [OF assms(3)] row assms(2,4) show ?thesis by (simp add: row_messages_def comp_def)
  next
    case False
    then show ?thesis by (simp add: row_messages_def row comp_def)
  qed
  have "concat (map ?to (concat (map (row_messages socks) (row # rows)))) =
      (if p = pid then l else []) @ (case map_of rows pid of None \<Rightarrow> [] | Some l \<Rightarrow> l)"
    using Cons head by simp
  moreover have "map_of rows pid = None" if "p = pid"
    using Cons.prems row that by (simp add: map_of_eq_None_iff)
  ultimately show ?case using row by auto
qed simp

lemma ws_fetch_rows:
  "set (ws_fetch infos now h) =
     {(pid, reports_of infos (hb_since h) now pid) |pid. pid \<in> fst ` set (hb_sockets h) \<and> reports_of infos (hb_since h) now pid \<noteq> []}"
  "distinct (map fst (hb_sockets h)) \<Longrightarrow> distinct (map fst (ws_fetch infos now h))"
proof -
  show "distinct (map fst (hb_sockets h)) \<Longrightarrow> distinct (map fst (ws_fetch infos now h))"
    unfolding ws_fetch_def by (rule distinct_map_filter) (simp add: comp_def)
qed (auto simp: ws_fetch_def)

lemma map_of_fetch:
  assumes "distinct (map fst (hb_sockets h))" "pid \<in> fst ` set (hb_sockets h)"
  shows "(case map_of (ws_fetch infos now h) pid of None \<Rightarrow> [] | Some l \<Rightarrow> l) = reports_of infos (hb_since h) now pid"
proof (cases "map_of (ws_fetch infos now h) pid")
  case None
  then have "(pid, reports_of infos (hb_since h) now pid) \<notin> set (ws_fetch infos now h)"
    by (metis map_of_eq_None_iff image_eqI fst_conv)
  with assms None show ?thesis by (simp add: ws_fetch_rows(1))
next
  case (Some l)
  then have "(pid, l) \<in> set (ws_fetch infos now h)" by (rule map_of_SomeD)
  with Some show ?thesis by (simp add: ws_fetch_rows(1))
qed

lemma reports_of_last:
  "(t, r) \<in> set (reports_of infos since now pid) \<Longrightarrow> t \<le> fst (last (reports_of infos since now pid))"
  using last_sorted [of fst "reports_of infos since now pid" "(t, r)"] by (simp add: reports_of_def)

lemma set_reports_of: "(t, r) \<in> set (reports_of infos since now pid) \<longleftrightarrow> (pid, t, r) \<in> set infos \<and> since < t \<and> t \<le> now"
  by (force simp: reports_of_def)

text \<open>An undisturbed round.\<close>

lemma ws_round_quiet:
  assumes "hub_ok h" "hb_sockets h \<noteq> []"
  shows "ws_round (\<lambda>_. False) infos now (\<lambda>h. h) h =
    h\<lparr>hb_since := later (hb_since h) (ws_fetch infos now h),
      hb_sent := hb_sent h @ concat (map (row_messages (hb_sockets h)) (ws_fetch infos now h))\<rparr>"
proof -
  have "\<forall>row \<in> set (ws_fetch infos now h). snd row \<noteq> [] \<and> fst row \<in> fst ` set (hb_sockets h)"
    by (auto simp: ws_fetch_rows(1))
  from push_tasks_append [OF this, of "[]"] assms show ?thesis
    by (simp add: ws_round_def send_all_works)
qed

lemma ws_round_since:
  assumes "hub_ok h" "hb_sockets h \<noteq> []" "hb_since h \<le> now"
    "h' = ws_round (\<lambda>_. False) infos now (\<lambda>h. h) h"
  shows "hb_since h' \<le> now" "hb_since h \<le> hb_since h'"
    "(u, t, r) \<in> set infos \<Longrightarrow> u \<in> fst ` set (hb_sockets h) \<Longrightarrow> t \<le> now \<Longrightarrow> t \<le> hb_since h'"
proof -
  let ?rows = "ws_fetch infos now h"
  have since: "hb_since h' = later (hb_since h) ?rows" using assms by (simp add: ws_round_quiet)
  have rows: "fst (last (snd row)) \<le> now" if "row \<in> set ?rows" for row
  proof -
    obtain pid where pid: "snd row = reports_of infos (hb_since h) now pid" "snd row \<noteq> []"
      using \<open>row \<in> set ?rows\<close> by (auto simp: ws_fetch_rows(1))
    then have "last (snd row) \<in> set (reports_of infos (hb_since h) now pid)" by (metis last_in_set)
    then show ?thesis using set_reports_of [of "fst (last (snd row))" "snd (last (snd row))"] by simp
  qed
  show "hb_since h' \<le> now" unfolding since by (rule later_bounds(3) [OF assms(3) rows])
  show "hb_since h \<le> hb_since h'" using later_bounds(1) by (simp add: since)
  show "t \<le> hb_since h'" if "(u, t, r) \<in> set infos" "u \<in> fst ` set (hb_sockets h)" "t \<le> now"
  proof (cases "t \<le> hb_since h")
    case True
    with later_bounds(1) [of "hb_since h" ?rows] show ?thesis by (simp add: since)
  next
    case False
    with that have mem: "(t, r) \<in> set (reports_of infos (hb_since h) now u)" by (simp add: set_reports_of)
    then have row: "(u, reports_of infos (hb_since h) now u) \<in> set ?rows"
      using that(2) by (auto simp: ws_fetch_rows(1))
    from order_trans [OF reports_of_last [OF mem] later_bounds(2) [OF row, of "hb_since h", unfolded snd_conv]]
    show ?thesis by (simp add: since)
  qed
qed

lemma received_round:
  assumes "hub_ok h" "hb_sockets h \<noteq> []" "map_of (hb_sockets h) pid = Some ws" "s \<in> set ws"
  shows "received s pid (ws_round (\<lambda>_. False) infos now (\<lambda>h. h) h) =
    received s pid h @ reports_of infos (hb_since h) now pid"
proof -
  have d: "distinct (map fst (hb_sockets h))" using assms(1) by (simp add: hub_ok_def)
  have "distinct ws" using assms(1) map_of_SomeD [OF assms(3)] by (auto simp: hub_ok_def)
  from messages_to [OF ws_fetch_rows(2) [OF d] assms(3) this assms(4)]
  have msgs: "concat (map (\<lambda>(s', p, l). if s' = s \<and> p = pid then l else [])
      (concat (map (row_messages (hb_sockets h)) (ws_fetch infos now h)))) =
    (case map_of (ws_fetch infos now h) pid of None \<Rightarrow> [] | Some l \<Rightarrow> l)" .
  have "pid \<in> fst ` set (hb_sockets h)" using map_of_SomeD [OF assms(3)] by force
  from map_of_fetch [OF d this] msgs assms(1,2) show ?thesis
    by (simp add: ws_round_quiet received_def del: map_concat)
qed

definition arrivals :: "uuid \<Rightarrow> ((uuid \<times> time \<times> 'r) list \<times> time) list \<Rightarrow> (time \<times> 'r) list" where
  "arrivals pid rounds =
     concat (map (\<lambda>(new, _). sort_key fst (map snd (filter (\<lambda>(u, _). u = pid) new))) rounds)"

lemma ws_run_received:
  assumes "hub_ok h" "map_of (hb_sockets h) pid = Some ws" "s \<in> set ws" "clocked t rounds"
    "hb_since h \<le> t" "\<forall>(u, x, r) \<in> set old. u \<in> fst ` set (hb_sockets h) \<longrightarrow> x \<le> hb_since h"
  shows "received s pid (ws_run old rounds h) = received s pid h @ arrivals pid rounds"
  using assms
proof (induction rounds arbitrary: old h t)
  case (Cons round rounds)
  obtain new now where round: "round = (new, now)" by fastforce
  with Cons.prems(4) have clock: "t \<le> now" "\<forall>(u, x, r) \<in> set new. t < x \<and> x \<le> now" "clocked now rounds" by auto
  have nonempty: "hb_sockets h \<noteq> []" using Cons.prems(2) by auto
  have pid: "pid \<in> fst ` set (hb_sockets h)" using map_of_SomeD [OF Cons.prems(2)] by force
  define h' where "h' = ws_round (\<lambda>_. False) (old @ new) now (\<lambda>h. h) h"
  have same: "hb_sockets h' = hb_sockets h" unfolding h'_def by (simp add: ws_round_quiet Cons.prems(1) nonempty)
  have le: "hb_since h \<le> now" using Cons.prems(5) clock(1) by simp
  note since = ws_round_since [OF Cons.prems(1) nonempty le h'_def]
  have new_t: "hb_since h < x \<and> x \<le> now" if "(u, x, r) \<in> set new" for u x r
    using bspec [OF clock(2) that] Cons.prems(5) by simp
  have old_t: "x \<le> hb_since h" if "(u, x, r) \<in> set old" "u \<in> fst ` set (hb_sockets h)" for u x r
    using bspec [OF Cons.prems(6) that(1)] that(2) by simp
  have filt: "filter (\<lambda>(u, x, _). u = pid \<and> hb_since h < x \<and> x \<le> now) (old @ new) = filter (\<lambda>(u, _). u = pid) new"
  proof -
    have "filter (\<lambda>(u, x, _). u = pid \<and> hb_since h < x \<and> x \<le> now) old = []"
      unfolding filter_empty_conv
    proof clarify
      fix x r assume "(pid, x, r) \<in> set old" "hb_since h < x"
      with old_t [OF _ pid] show False by fastforce
    qed
    moreover have "filter (\<lambda>(u, x, _). u = pid \<and> hb_since h < x \<and> x \<le> now) new = filter (\<lambda>(u, _). u = pid) new"
      by (rule filter_cong) (use new_t in \<open>auto split: prod.split\<close>)
    ultimately show ?thesis by simp
  qed
  have got: "received s pid h' = received s pid h @ sort_key fst (map snd (filter (\<lambda>(u, _). u = pid) new))"
    unfolding h'_def received_round [OF Cons.prems(1) nonempty Cons.prems(2,3)] by (simp only: reports_of_def filt)
  have "received s pid (ws_run (old @ new) rounds h') = received s pid h' @ arrivals pid rounds"
  proof (rule Cons.IH [where t = now])
    show "hub_ok h'" "map_of (hb_sockets h') pid = Some ws" "s \<in> set ws" "clocked now rounds"
      using Cons.prems(1-3) clock(3) by (simp_all add: hub_ok_def same)
    show "hb_since h' \<le> now" by (rule since(1))
    have "x \<le> hb_since h'" if mem: "(u, x, r) \<in> set (old @ new)" and u: "u \<in> fst ` set (hb_sockets h')" for u x r
    proof -
      have "x \<le> now" using mem new_t [of u x r] old_t [of u x r] u le same by auto
      with since(3) [of u x r] mem u same show ?thesis by simp
    qed
    then show "\<forall>(u, x, r) \<in> set (old @ new). u \<in> fst ` set (hb_sockets h') \<longrightarrow> x \<le> hb_since h'" by blast
  qed
  with got round show ?case by (simp add: h'_def arrivals_def)
qed (simp add: arrivals_def)


text \<open>
  A viewer who leaves takes others' reports along: if the last socket of a probe that has
  something new goes while the database is asked, the round sends nothing at all, but the
  common time has moved past the reports of the probes before it, which are never sent.
\<close>
lemma leaving_viewer_costs_others:
  assumes "hb_sockets h \<noteq> []" "ws_fetch infos now h = rows @ (pid, l) # rest"
    "pid \<notin> fst ` set (hb_sockets (meanwhile h))"
    "\<forall>row \<in> set rows. fst row \<in> fst ` set (hb_sockets (meanwhile h))"
  shows "hb_sent (ws_round broken infos now meanwhile h) = hb_sent (meanwhile h) \<and>
    (\<forall>row \<in> set (rows @ [(pid, l)]). \<forall>(t, r) \<in> set (snd row).
      t \<le> hb_since (ws_round broken infos now meanwhile h))"
proof -
  have rows: "snd row \<noteq> [] \<and> snd row = reports_of infos (hb_since h) now (fst row)"
    if "row \<in> set (rows @ [(pid, l)])" for row
  proof -
    from that assms(2) have "row \<in> set (ws_fetch infos now h)" by auto
    then show ?thesis by (auto simp: ws_fetch_rows(1))
  qed
  have "\<forall>row \<in> set rows. snd row \<noteq> [] \<and> fst row \<in> fst ` set (hb_sockets (meanwhile h))"
  proof
    fix row assume row: "row \<in> set rows"
    then have "row \<in> set (rows @ [(pid, l)])" by simp
    from rows [OF this] have "snd row \<noteq> []" by blast
    with assms(4) row show "snd row \<noteq> [] \<and> fst row \<in> fst ` set (hb_sockets (meanwhile h))" by blast
  qed
  note push = push_tasks_append [OF this, of "(pid, l) # rest" "hb_since h" "[]"]
  have "map_of (hb_sockets (meanwhile h)) pid = None" using assms(3) by (simp add: map_of_eq_None_iff)
  moreover have "l \<noteq> []" using conjunct1 [OF rows [of "(pid, l)"]] by simp
  ultimately have round: "ws_round broken infos now meanwhile h =
      (meanwhile h)\<lparr>hb_since := later (hb_since h) (rows @ [(pid, l)])\<rparr>"
    using push assms(1,2) by (simp add: ws_round_def later_def Let_def max_def)
  have "t \<le> later (hb_since h) (rows @ [(pid, l)])" if "row \<in> set (rows @ [(pid, l)])" "(t, r) \<in> set (snd row)" for row t r
  proof -
    from rows [OF that(1)] that(2) have "t \<le> fst (last (snd row))" using reports_of_last by metis
    also have "\<dots> \<le> later (hb_since h) (rows @ [(pid, l)])" by (rule later_bounds(2) [OF that(1)])
    finally show ?thesis .
  qed
  then have "\<forall>row \<in> set (rows @ [(pid, l)]). \<forall>(t, r) \<in> set (snd row). t \<le> later (hb_since h) (rows @ [(pid, l)])"
    by blast
  then show ?thesis unfolding round by simp
qed

text \<open>
  Requests for the map are settled: they wait only while one updates, there is one updater at
  a time, every map answered was made by an update, and a request fails after waiting only when
  no update has succeeded yet.
\<close>
lemma map_requests_settled:
  assumes "map_reach c"
  shows "(mc_waiting c \<noteq> [] \<longrightarrow> mc_updating c) \<and> (mc_updating c \<longleftrightarrow> mc_updater c \<noteq> None) \<and>
    (\<forall>q m. (q, Some m) \<in> set (mc_answers c) \<longrightarrow> m \<in> set (mc_made c)) \<and>
    (mc_answers (map_wake q c) = mc_answers c @ [(q, None)] \<longleftrightarrow> mc_made c = [])"
  using map_reach_ok [OF assms] by (auto simp: map_ok_def map_wake_def map_return_def)

definition demo_hub :: "(nat, unit) hub" where
  "demo_hub = \<lparr>hb_sockets = [(8, [1]), (7, [1, 2])], hb_since = 10, hb_sent = []\<rparr>"


end
