(* ===== verification/Spec2Isabelle.thy ===== *)
theory Spec2Isabelle
  imports Tunnel_Clients Tunnel_Rest Tunnel_Config Mgmt_System Wg_Daemon Sim_Devices Sim_Bridge
    Network_Watcher Dash_Live
begin

text \<open>
  Verification development for the MobileAtlas measurement platform.
\<close>

end
